theory Spec2Isabelle
  imports Complex_Main
begin

section \<open>JavaScript numbers\<close>

text \<open>
  The scripts read the financial inputs with \<^verbatim>\<open>parseFloat(field?.value || 0)\<close>. The result is
  a JavaScript number: \<^verbatim>\<open>NaN\<close> (for text that does not start with a number), an infinity,
  or a finite value. A finite value is a binary floating-point number of 64 bits (a double),
  kept here as the rational it stands for; \<open>Num 0\<close> stands for both zeros, which no
  comparison tells apart. The comparisons below are the comparisons of JavaScript (every
  comparison with \<^verbatim>\<open>NaN\<close> is false).
\<close>

datatype jsnum = NaN | NegInf | Num rat | PosInf

fun js_lt :: "jsnum \<Rightarrow> jsnum \<Rightarrow> bool" where
  "js_lt NaN _ = False"
| "js_lt _ NaN = False"
| "js_lt (Num x) (Num y) = (x < y)"
| "js_lt NegInf NegInf = False"
| "js_lt NegInf _ = True"
| "js_lt _ NegInf = False"
| "js_lt PosInf _ = False"
| "js_lt _ PosInf = True"

definition js_gt :: "jsnum \<Rightarrow> jsnum \<Rightarrow> bool" where
  "js_gt a b = js_lt b a"

fun js_le :: "jsnum \<Rightarrow> jsnum \<Rightarrow> bool" where
  "js_le NaN _ = False"
| "js_le _ NaN = False"
| "js_le a b = (\<not> js_lt b a)"

fun js_eq :: "jsnum \<Rightarrow> jsnum \<Rightarrow> bool" where
  "js_eq NaN _ = False"
| "js_eq _ NaN = False"
| "js_eq a b = (a = b)"

text \<open>
  Rounding to a double (IEEE 754 binary64, round to nearest, ties to even), which is what
  \<^verbatim>\<open>parseFloat\<close>, a numeric literal and \<^verbatim>\<open>*\<close> do to the exact value.

  \<open>round_even\<close> rounds to the nearest integer, a tie to the even one.
  \<open>exponent q\<close> is the \<open>E\<close> with \<open>2 ^ E \<le> \<bar>q\<bar> < 2 ^ (E + 1)\<close>, kept between \<open>-1022\<close> (below
  which the doubles are evenly spaced) and \<open>1024\<close> (from where on every value rounds to an
  infinity). A double with this exponent is a multiple of \<open>2 ^ (E - 52)\<close>, so \<open>to_double\<close>
  rounds \<open>q\<close> to the nearest such multiple; a result of magnitude \<open>2 ^ 1024\<close> is an infinity.
\<close>

definition round_even :: "rat \<Rightarrow> int" where
  "round_even y =
     (let f = \<lfloor>y\<rfloor>; r = y - of_int f
      in if r < 1 / 2 then f else if 1 / 2 < r then f + 1 else if even f then f else f + 1)"

fun halvings :: "nat \<Rightarrow> rat \<Rightarrow> int" where
  "halvings 0 q = 0"
| "halvings (Suc k) q = (if 2 \<le> q then 1 + halvings k (q / 2) else 0)"

fun doublings :: "nat \<Rightarrow> rat \<Rightarrow> int" where
  "doublings 0 q = 0"
| "doublings (Suc k) q = (if q < 1 then 1 + doublings k (q * 2) else 0)"

definition exponent :: "rat \<Rightarrow> int" where
  "exponent q = (if 1 \<le> \<bar>q\<bar> then halvings 1024 \<bar>q\<bar> else - doublings 1022 \<bar>q\<bar>)"

definition to_double :: "rat \<Rightarrow> jsnum" where
  "to_double q =
     (let e = exponent q - 52;
          v = of_int (round_even (q / 2 powi e)) * 2 powi e
      in if 2 ^ 1024 \<le> v then PosInf else if v \<le> - (2 ^ 1024) then NegInf else Num v)"

text \<open>The product \<^verbatim>\<open>x * y\<close> of two numbers: the exact product, rounded to a double.\<close>

fun js_mul :: "jsnum \<Rightarrow> jsnum \<Rightarrow> jsnum" where
  "js_mul NaN _ = NaN"
| "js_mul _ NaN = NaN"
| "js_mul (Num x) (Num y) = to_double (x * y)"
| "js_mul (Num x) PosInf = (if x = 0 then NaN else if 0 < x then PosInf else NegInf)"
| "js_mul (Num x) NegInf = (if x = 0 then NaN else if 0 < x then NegInf else PosInf)"
| "js_mul PosInf (Num y) = (if y = 0 then NaN else if 0 < y then PosInf else NegInf)"
| "js_mul NegInf (Num y) = (if y = 0 then NaN else if 0 < y then NegInf else PosInf)"
| "js_mul PosInf PosInf = PosInf"
| "js_mul NegInf NegInf = PosInf"
| "js_mul PosInf NegInf = NegInf"
| "js_mul NegInf PosInf = NegInf"

text \<open>
  The literal \<^verbatim>\<open>0.1\<close>: the double nearest to one tenth, which is
  \<open>3602879701896397 / 2 ^ 55\<close>. (The literal \<^verbatim>\<open>10\<close> is the double 10.)
\<close>

definition tenth :: jsnum where
  "tenth = to_double (1 / 10)"

section \<open>Messages and dialogs\<close>

text \<open>
  A banner or dialog text is kept as a constructor that carries the values the source
  interpolates into it (\<^verbatim>\<open>toLocaleString\<close> formatting is not modelled):
  \<^item> \<open>AttachRequiredFile t\<close>: "Please attach required file: t"
  \<^item> \<open>SelectAllRequiredOptions\<close>: "Please select all required options."
  \<^item> \<open>FillIn l\<close>: "Please fill in: l"
  \<^item> \<open>SelectOptionFor l\<close>: "Please select an option for: l"
  \<^item> \<open>AttachRequiredFiles\<close>: "Please attach required file(s) before continuing."
  \<^item> \<open>SelectRequiredOptions\<close>: "Please select required options."
  \<^item> \<open>FillAllRequired\<close>: "Please fill all required fields in this section."
  \<^item> \<open>TuitionNotPositive\<close>: "Tuition fee must be greater than zero."
  \<^item> \<open>AmountNotPositive\<close>: "Amount requested must be greater than zero."
  \<^item> \<open>AmountExceedsTuition a t\<close>: "Amount requested (KES a) cannot exceed tuition fee (KES t)."
  \<^item> \<open>BelowTenPercent a\<close>: "Amount requested (KES a) is less than 10% of tuition fee. Continue?"
  \<^item> \<open>IncomeAppearsHigh i\<close>: "Your annual family income (KES i) appears high. ... Continue?"
  \<^item> \<open>AmountCannotExceed t\<close>: "Amount requested cannot exceed tuition fee of KES t"
  \<^item> \<open>CorrectBeforeSubmitting\<close>: "Please correct the highlighted errors before submitting."
\<close>

datatype message =
    AttachRequiredFile string
  | SelectAllRequiredOptions
  | FillIn string
  | SelectOptionFor string
  | AttachRequiredFiles
  | SelectRequiredOptions
  | FillAllRequired
  | TuitionNotPositive
  | AmountNotPositive
  | AmountExceedsTuition jsnum jsnum
  | BelowTenPercent jsnum
  | IncomeAppearsHigh jsnum
  | AmountCannotExceed jsnum
  | CorrectBeforeSubmitting

text \<open>
  A call either returns a value or ends in an uncaught \<^verbatim>\<open>TypeError\<close> (a method called on
  \<^verbatim>\<open>null\<close>); the state reached so far stays as it is.
\<close>

datatype 'a completion = Return 'a | Throw

section \<open>The document and the script state\<close>

text \<open>
  The HTML page is not part of the scripts, so the document is a parameter: any list of
  form controls, conditional containers and radio groups.

  An \<open>element\<close> is an \<^verbatim>\<open>input\<close>, \<^verbatim>\<open>select\<close> or \<^verbatim>\<open>textarea\<close> of the form.
  \<open>in_section\<close> is the index in \<^verbatim>\<open>sections\<close> of the \<^verbatim>\<open>.form-section\<close> that holds it,
  \<open>ancestors\<close> the ids of the containers around it, innermost first.
  \<open>label_text\<close> is
  \<^verbatim>\<open>el.closest('.form-group')?.querySelector('label')?.textContent.replace('*','').trim()\<close>
  and \<open>prev_text\<close> is \<^verbatim>\<open>el.previousElementSibling?.textContent\<close> (\<open>None\<close> for
  \<^verbatim>\<open>undefined\<close>). For a radio button \<open>el_value\<close> is its \<^verbatim>\<open>value\<close> attribute.
\<close>

record element =
  el_id :: string
  tagName :: string
  el_type :: string
  el_name :: string
  el_value :: string
  files_length :: nat
  checked :: bool
  required :: bool
  originalRequired :: "bool option"
  in_section :: "nat option"
  ancestors :: "string list"
  label_text :: "string option"
  prev_text :: "string option"

text \<open>
  A container is an element that holds form controls, named by its id. \<open>conditional\<close>
  is the class \<^verbatim>\<open>conditional\<close>; \<open>shown\<close> is the class \<^verbatim>\<open>show\<close> (in \<^verbatim>\<open>src/app.js\<close>, which
  has no such class, it is \<^verbatim>\<open>style.display = 'block'\<close>).
\<close>

record container =
  conditional :: bool
  shown :: bool

text \<open>
  A \<^verbatim>\<open>.form-group .radio-group\<close> element. \<open>required_label\<close> is the text of the
  \<^verbatim>\<open>label.required\<close> of its form group (\<open>None\<close> when there is none), \<open>first_radio_name\<close>
  the name of its first radio button, \<open>rendered\<close> the layout's answer to
  \<^verbatim>\<open>groupDiv.offsetParent !== null\<close>, and \<open>has_error\<close> the class \<^verbatim>\<open>has-error\<close> of the form
  group. The style sheet is not part of the scripts, so \<open>rendered\<close> is given by the state.
\<close>

record radio_group =
  rg_section :: nat
  required_label :: "string option"
  first_radio_name :: "string option"
  rendered :: bool
  has_error :: bool

text \<open>
  \<open>data_steps\<close> lists the \<^verbatim>\<open>data-step\<close> attribute of every \<^verbatim>\<open>.form-section\<close>, in document
  order. \<open>errorMsg\<close> and \<open>successMsg\<close> are \<open>Some m\<close> when the banner is displayed with
  text \<open>m\<close>. \<open>dialogs\<close> lists the \<^verbatim>\<open>confirm\<close> prompts shown so far. \<open>submitted\<close> says that
  the form was handed to the backend.
\<close>

record form =
  elements :: "element list"
  containers :: "string \<Rightarrow> container option"
  radio_groups :: "radio_group list"
  data_steps :: "int list"
  currentStep :: int
  errorMsg :: "message option"
  successMsg :: "message option"
  focused :: "string option"
  dialogs :: "message list"
  submitBtn_disabled :: bool
  submitBtn_text :: string
  submitted :: bool

text \<open>
  What the browser and the user supply: \<^verbatim>\<open>parseFloat\<close> (the number that a text denotes,
  before it is rounded to a double), and the answer to each \<^verbatim>\<open>confirm\<close> prompt.
\<close>

record browser =
  parseFloat :: "string \<Rightarrow> jsnum"
  confirm :: "message \<Rightarrow> bool"

definition totalSteps :: "form \<Rightarrow> int" where
  "totalSteps s = int (length (data_steps s))"

definition getElementById :: "form \<Rightarrow> string \<Rightarrow> element option" where
  "getElementById s i = find (\<lambda>e. el_id e = i) (elements s)"

fun update_first :: "('a \<Rightarrow> bool) \<Rightarrow> ('a \<Rightarrow> 'a) \<Rightarrow> 'a list \<Rightarrow> 'a list" where
  "update_first P f [] = []"
| "update_first P f (x # xs) = (if P x then f x # xs else x # update_first P f xs)"

definition set_value :: "string \<Rightarrow> string \<Rightarrow> form \<Rightarrow> form" where
  "set_value i v s =
     s\<lparr>elements := update_first (\<lambda>e. el_id e = i) (\<lambda>e. e\<lparr>el_value := v\<rparr>) (elements s)\<rparr>"

definition showError :: "message \<Rightarrow> form \<Rightarrow> form" where
  "showError m s = s\<lparr>errorMsg := Some m, successMsg := None\<rparr>"

definition clearMessages :: "form \<Rightarrow> form" where
  "clearMessages s = s\<lparr>errorMsg := None, successMsg := None\<rparr>"

definition ask :: "message \<Rightarrow> form \<Rightarrow> form" where
  "ask m s = s\<lparr>dialogs := dialogs s @ [m]\<rparr>"

text \<open>
  \<^verbatim>\<open>financialFields.x.focus(); return r\<close>: the field was cached with
  \<^verbatim>\<open>document.getElementById\<close>, which is \<^verbatim>\<open>null\<close> when the page has no such element.
\<close>

definition focus_return :: "string \<Rightarrow> 'a \<Rightarrow> form \<Rightarrow> 'a completion \<times> form" where
  "focus_return i r s =
     (case getElementById s i of
        None \<Rightarrow> (Throw, s)
      | Some e \<Rightarrow> (Return r, s\<lparr>focused := Some i\<rparr>))"

text \<open>
  \<^verbatim>\<open>parseFloat(field?.value || 0)\<close>: a missing field and an empty value both read as 0.
  \<open>parseFloat b\<close> gives the number that a text denotes; the script gets it as a double.
\<close>

fun as_double :: "jsnum \<Rightarrow> jsnum" where
  "as_double (Num q) = to_double q"
| "as_double x = x"

definition parse_or_zero :: "browser \<Rightarrow> string \<Rightarrow> jsnum" where
  "parse_or_zero b v = (if v = [] then Num 0 else as_double (parseFloat b v))"

definition read_number :: "browser \<Rightarrow> form \<Rightarrow> string \<Rightarrow> jsnum" where
  "read_number b s i =
     (case getElementById s i of None \<Rightarrow> Num 0 | Some e \<Rightarrow> parse_or_zero b (el_value e))"

section \<open>The financial rule\<close>

text \<open>
  \<^verbatim>\<open>validateFinancialFields\<close> of \<^verbatim>\<open>src/static/app.js\<close> (lines 280-318) and of
  \<^verbatim>\<open>src/staticfiles/app.js\<close> (lines 230-268); the two texts are the same.
\<close>

definition validateFinancialFields :: "browser \<Rightarrow> form \<Rightarrow> bool completion \<times> form" where
  "validateFinancialFields b s =
     (let annualIncome = read_number b s ''annual_family_income'';
          tuitionFee = read_number b s ''tuition_fee'';
          amountRequested = read_number b s ''amount_requested''
      in
        if js_le tuitionFee (Num 0) then
          focus_return ''tuition_fee'' False (showError TuitionNotPositive s)
        else if js_le amountRequested (Num 0) then
          focus_return ''amount_requested'' False (showError AmountNotPositive s)
        else if js_gt amountRequested tuitionFee then
          focus_return ''amount_requested'' False
            (showError (AmountExceedsTuition amountRequested tuitionFee) s)
        else
          let below = js_lt amountRequested (js_mul tuitionFee tenth);
              s1 = (if below then ask (BelowTenPercent amountRequested) s else s)
          in
            if below \<and> \<not> confirm b (BelowTenPercent amountRequested) then
              focus_return ''amount_requested'' False s1
            else
              let high = js_gt annualIncome (js_mul tuitionFee (Num 10));
                  s2 = (if high then ask (IncomeAppearsHigh annualIncome) s1 else s1)
              in
                if high \<and> \<not> confirm b (IncomeAppearsHigh annualIncome) then
                  focus_return ''reason_for_application'' False s2
                else (Return True, s2))"

text \<open>
  The earlier \<^verbatim>\<open>validateFinancialFields\<close> of \<^verbatim>\<open>src/unnamed/part_000\<close> (lines 216-248) and
  of the second script in \<^verbatim>\<open>src/staticfiles/app.js\<close> (lines 573-609): it has no check of
  \<^verbatim>\<open>amountRequested <= 0\<close>.
\<close>

definition validateFinancialFields_v1 :: "browser \<Rightarrow> form \<Rightarrow> bool completion \<times> form" where
  "validateFinancialFields_v1 b s =
     (let annualIncome = read_number b s ''annual_family_income'';
          tuitionFee = read_number b s ''tuition_fee'';
          amountRequested = read_number b s ''amount_requested''
      in
        if js_le tuitionFee (Num 0) then
          focus_return ''tuition_fee'' False (showError TuitionNotPositive s)
        else if js_gt amountRequested tuitionFee then
          focus_return ''amount_requested'' False
            (showError (AmountExceedsTuition amountRequested tuitionFee) s)
        else
          let below = js_lt amountRequested (js_mul tuitionFee tenth);
              s1 = (if below then ask (BelowTenPercent amountRequested) s else s)
          in
            if below \<and> \<not> confirm b (BelowTenPercent amountRequested) then
              focus_return ''amount_requested'' False s1
            else
              let high = js_gt annualIncome (js_mul tuitionFee (Num 10));
                  s2 = (if high then ask (IncomeAppearsHigh annualIncome) s1 else s1)
              in
                if high \<and> \<not> confirm b (IncomeAppearsHigh annualIncome) then
                  focus_return ''reason_for_application'' False s2
                else (Return True, s2))"

text \<open>
  The \<^verbatim>\<open>blur\<close> listener of the \<^verbatim>\<open>amount_requested\<close> input (the same text in
  \<^verbatim>\<open>src/static/app.js\<close> 321-334, \<^verbatim>\<open>src/staticfiles/app.js\<close> 271-284 and
  \<^verbatim>\<open>src/unnamed/part_000\<close> 251-264). It is registered only when the input exists.
\<close>

definition amountRequested_blur :: "browser \<Rightarrow> form \<Rightarrow> form" where
  "amountRequested_blur b s =
     (case getElementById s ''amount_requested'' of
        None \<Rightarrow> s
      | Some this \<Rightarrow>
          let tuitionFee = read_number b s ''tuition_fee'';
              amountRequested = parse_or_zero b (el_value this)
          in
            if js_gt amountRequested tuitionFee \<and> js_gt tuitionFee (Num 0) then
              (set_value ''amount_requested'' []
                 (showError (AmountCannotExceed tuitionFee) s))\<lparr>focused := Some ''amount_requested''\<rparr>
            else clearMessages s)"

section \<open>Radio buttons and their defaults\<close>

text \<open>
  \<^verbatim>\<open>form.querySelector('input[name="n"]:checked')\<close>: the first checked input of that name.
  All form controls of the page are in \<open>elements\<close>.
\<close>

definition checked_input :: "form \<Rightarrow> string \<Rightarrow> element option" where
  "checked_input s n =
     find (\<lambda>e. tagName e = ''INPUT'' \<and> el_name e = n \<and> checked e) (elements s)"

definition getRadioValue :: "form \<Rightarrow> string \<Rightarrow> string option" where
  "getRadioValue s n = map_option el_value (checked_input s n)"

text \<open>The selector \<^verbatim>\<open>input[name="n"][value="v"]\<close>.\<close>

definition selects :: "string \<Rightarrow> string \<Rightarrow> element \<Rightarrow> bool" where
  "selects n v e = (tagName e = ''INPUT'' \<and> el_name e = n \<and> el_value e = v)"

text \<open>
  \<^verbatim>\<open>radio.checked = true\<close> on the first element the selector finds. The browser unchecks
  the other radio buttons of the same name when the element is a radio button.
\<close>

definition uncheck_group :: "element \<Rightarrow> element \<Rightarrow> element" where
  "uncheck_group radio e =
     (if el_type radio = ''radio'' \<and> tagName e = ''INPUT'' \<and> el_type e = ''radio'' \<and>
         el_name e = el_name radio
      then e\<lparr>checked := False\<rparr> else e)"

definition set_checked :: "string \<Rightarrow> string \<Rightarrow> element list \<Rightarrow> element list" where
  "set_checked n v es =
     (case dropWhile (\<lambda>e. \<not> selects n v e) es of
        [] \<Rightarrow> es
      | radio # rest \<Rightarrow>
          map (uncheck_group radio) (takeWhile (\<lambda>e. \<not> selects n v e) es)
          @ radio\<lparr>checked := True\<rparr> # map (uncheck_group radio) rest)"

text \<open>\<^verbatim>\<open>setRadioDefault\<close> of \<^verbatim>\<open>src/staticfiles/app.js\<close> (55-60) and \<^verbatim>\<open>src/static/app.js\<close> (68-73).\<close>

definition setRadioDefault :: "string \<Rightarrow> string \<Rightarrow> form \<Rightarrow> form" where
  "setRadioDefault n v s =
     (case find (selects n v) (elements s) of
        None \<Rightarrow> s
      | Some radio \<Rightarrow>
          if checked_input s n = None then s\<lparr>elements := set_checked n v (elements s)\<rparr>
          else s)"

text \<open>The four calls at start-up (\<^verbatim>\<open>src/staticfiles/app.js\<close> 49-52).\<close>

definition setDefaults :: "form \<Rightarrow> form" where
  "setDefaults s =
     setRadioDefault ''singleParent'' ''False''
       (setRadioDefault ''previousBursary'' ''False''
          (setRadioDefault ''disability'' ''False''
             (setRadioDefault ''orphan'' ''False'' s)))"

text \<open>\<^verbatim>\<open>setRadioDefault\<close> of \<^verbatim>\<open>src/unnamed/part_000\<close> (64-67): \<^verbatim>\<open>if (radio) radio.checked = true\<close>.\<close>

definition setRadioDefault_v1 :: "string \<Rightarrow> string \<Rightarrow> form \<Rightarrow> form" where
  "setRadioDefault_v1 n v s =
     (case find (selects n v) (elements s) of
        None \<Rightarrow> s
      | Some radio \<Rightarrow> s\<lparr>elements := set_checked n v (elements s)\<rparr>)"

definition setDefaults_v1 :: "form \<Rightarrow> form" where
  "setDefaults_v1 s =
     setRadioDefault_v1 ''singleParent'' ''False''
       (setRadioDefault_v1 ''previousBursary'' ''False''
          (setRadioDefault_v1 ''disability'' ''False''
             (setRadioDefault_v1 ''orphan'' ''False'' s)))"

text \<open>
  \<^verbatim>\<open>src/app.js\<close> (22-25): \<^verbatim>\<open>document.querySelector('input[name="n"][value="No"]').checked = true\<close>,
  a \<^verbatim>\<open>TypeError\<close> when the page has no such input.
\<close>

definition and_then ::
  "unit completion \<times> form \<Rightarrow> (form \<Rightarrow> 'a completion \<times> form) \<Rightarrow> 'a completion \<times> form" where
  "and_then r f = (case r of (Throw, s) \<Rightarrow> (Throw, s) | (Return u, s) \<Rightarrow> f s)"

definition setDefault_v0 :: "string \<Rightarrow> string \<Rightarrow> form \<Rightarrow> unit completion \<times> form" where
  "setDefault_v0 n v s =
     (case find (selects n v) (elements s) of
        None \<Rightarrow> (Throw, s)
      | Some radio \<Rightarrow> (Return (), s\<lparr>elements := set_checked n v (elements s)\<rparr>))"

definition setDefaults_v0 :: "form \<Rightarrow> unit completion \<times> form" where
  "setDefaults_v0 s =
     and_then (setDefault_v0 ''orphan'' ''No'' s) (\<lambda>s.
     and_then (setDefault_v0 ''disability'' ''No'' s) (\<lambda>s.
     and_then (setDefault_v0 ''previousBursary'' ''No'' s) (\<lambda>s.
     setDefault_v0 ''singleParent'' ''No'' s)))"

section \<open>Conditional visibility\<close>

text \<open>
  \<^verbatim>\<open>showHideConditional(element, show)\<close> (\<^verbatim>\<open>src/staticfiles/app.js\<close> 67-85,
  \<^verbatim>\<open>src/unnamed/part_000\<close> 74-92). The fields of a container are the form controls that have
  it among their ancestors.
\<close>

definition manage_required :: "bool \<Rightarrow> element \<Rightarrow> element" where
  "manage_required show field =
     (let orig = (case originalRequired field of None \<Rightarrow> required field | Some r \<Rightarrow> r)
      in field\<lparr>originalRequired := Some orig, required := (show \<and> orig)\<rparr>)"

definition showHideConditional :: "string \<Rightarrow> bool \<Rightarrow> form \<Rightarrow> form" where
  "showHideConditional i show s =
     (case containers s i of
        None \<Rightarrow> s
      | Some c \<Rightarrow>
          s\<lparr>containers := (containers s)(i \<mapsto> c\<lparr>shown := show\<rparr>),
            elements := map (\<lambda>field. if i \<in> set (ancestors field)
                                       then manage_required show field else field) (elements s)\<rparr>)"

text \<open>
  \<^verbatim>\<open>handleConditionalFields\<close> (\<^verbatim>\<open>src/staticfiles/app.js\<close> 87-103, \<^verbatim>\<open>src/unnamed/part_000\<close>
  94-110); it runs at start-up and on every \<^verbatim>\<open>change\<close> event of a radio button.
\<close>

definition handleConditionalFields :: "form \<Rightarrow> form" where
  "handleConditionalFields s =
     (let isOrphan = (getRadioValue s ''orphan'' = Some ''True'');
          hasDisability = (getRadioValue s ''disability'' = Some ''True'');
          previousBursary = (getRadioValue s ''previousBursary'' = Some ''True'');
          bothParentsAlive = (getRadioValue s ''bothParentsAlive'' = Some ''True'');
          singleParent = (getRadioValue s ''singleParent'' = Some ''True'');
          s1 = showHideConditional ''orphanNote'' isOrphan s;
          s2 = showHideConditional ''disabilityDetails'' hasDisability s1;
          s3 = showHideConditional ''previousBursaryDetails'' previousBursary s2;
          s4 = showHideConditional ''previousBursaryDetailsContinued'' previousBursary s3;
          needsProviderNote = (isOrphan \<or> \<not> bothParentsAlive \<or> singleParent)
      in showHideConditional ''providerNote'' needsProviderNote s4)"

definition visible :: "form \<Rightarrow> string \<Rightarrow> bool" where
  "visible s i = (case containers s i of None \<Rightarrow> False | Some c \<Rightarrow> shown c)"

text \<open>The user checks the radio button \<open>n\<close>/\<open>v\<close>; the \<^verbatim>\<open>change\<close> listener of the form runs.\<close>

definition radio_change :: "string \<Rightarrow> string \<Rightarrow> form \<Rightarrow> form" where
  "radio_change n v s = handleConditionalFields (s\<lparr>elements := set_checked n v (elements s)\<rparr>)"

text \<open>
  The visibility the specification declares, over the answers \<open>ans\<close> (each \<open>Some ''True''\<close>,
  \<open>Some ''False''\<close> or \<open>None\<close> for unset).
\<close>

definition declared_visibility :: "(string \<Rightarrow> string option) \<Rightarrow> string \<Rightarrow> bool" where
  "declared_visibility ans g =
     (if g = ''orphanNote'' then ans ''orphan'' = Some ''True''
      else if g = ''disabilityDetails'' then ans ''disability'' = Some ''True''
      else if g = ''previousBursaryDetails'' \<or> g = ''previousBursaryDetailsContinued''
        then ans ''previousBursary'' = Some ''True''
      else if g = ''providerNote''
        then ans ''orphan'' = Some ''True'' \<or> ans ''bothParentsAlive'' = Some ''False'' \<or>
             ans ''singleParent'' = Some ''True''
      else False)"

text \<open>The visibility the script computes.\<close>

definition computed_visibility :: "(string \<Rightarrow> string option) \<Rightarrow> string \<Rightarrow> bool" where
  "computed_visibility ans g =
     (if g = ''orphanNote'' then ans ''orphan'' = Some ''True''
      else if g = ''disabilityDetails'' then ans ''disability'' = Some ''True''
      else if g = ''previousBursaryDetails'' \<or> g = ''previousBursaryDetailsContinued''
        then ans ''previousBursary'' = Some ''True''
      else if g = ''providerNote''
        then ans ''orphan'' = Some ''True'' \<or> ans ''bothParentsAlive'' \<noteq> Some ''True'' \<or>
             ans ''singleParent'' = Some ''True''
      else False)"

definition managed_groups :: "string list" where
  "managed_groups = [''orphanNote'', ''disabilityDetails'', ''previousBursaryDetails'',
                     ''previousBursaryDetailsContinued'', ''providerNote'']"

text \<open>The radio buttons a group's expression mentions.\<close>

definition mentions :: "string \<Rightarrow> string list" where
  "mentions g =
     (if g = ''orphanNote'' then [''orphan'']
      else if g = ''disabilityDetails'' then [''disability'']
      else if g = ''previousBursaryDetails'' \<or> g = ''previousBursaryDetailsContinued''
        then [''previousBursary'']
      else if g = ''providerNote'' then [''orphan'', ''bothParentsAlive'', ''singleParent'']
      else [])"

text \<open>
  The \<^verbatim>\<open>change\<close> listener of each radio button in \<^verbatim>\<open>src/app.js\<close> (28-51); \<open>n\<close> and \<open>v\<close> are
  the name and value of the button that changed. A container the page lacks is \<^verbatim>\<open>null\<close>.
\<close>

definition set_display :: "string \<Rightarrow> bool \<Rightarrow> form \<Rightarrow> unit completion \<times> form" where
  "set_display i block s =
     (case containers s i of
        None \<Rightarrow> (Throw, s)
      | Some c \<Rightarrow> (Return (), s\<lparr>containers := (containers s)(i \<mapsto> c\<lparr>shown := block\<rparr>)\<rparr>))"

definition radio_change_v0 :: "string \<Rightarrow> string \<Rightarrow> form \<Rightarrow> unit completion \<times> form" where
  "radio_change_v0 n v s =
     (if n = ''orphan'' then
        and_then (set_display ''orphanNote'' (v = ''Yes'') s)
          (set_display ''providerNote'' (v = ''Yes''))
      else if n = ''disability'' then set_display ''disabilityDetails'' (v = ''Yes'') s
      else if n = ''previousBursary'' then
        and_then (set_display ''previousBursaryDetails'' (v = ''Yes'') s)
          (set_display ''previousBursaryDetailsContinued'' (v = ''Yes''))
      else if n = ''bothParentsAlive'' then
        (if v = ''No'' then set_display ''providerNote'' True s
         else (case checked_input s ''orphan'' of
                 None \<Rightarrow> (Throw, s)
               | Some orphan \<Rightarrow>
                   if el_value orphan = ''No'' then set_display ''providerNote'' False s
                   else (Return (), s)))
      else (Return (), s))"

section \<open>Step validation\<close>

text \<open>
  \<^verbatim>\<open>!el.value || el.value.trim() === ''\<close>: the value is empty or white space only. A string
  is a list of 8-bit characters, read as the code points U+0000 to U+00FF. Of the white space
  and line terminators that \<^verbatim>\<open>trim\<close> removes, those in this range are U+0009 to U+000D,
  U+0020 and U+00A0; a value with a character beyond U+00FF is outside the type.
\<close>

definition js_space :: "char \<Rightarrow> bool" where
  "js_space c = (of_char c \<in> {9, 10, 11, 12, 13, 32, 160 :: nat})"

definition blank :: "string \<Rightarrow> bool" where
  "blank v = list_all js_space v"

text \<open>\<^verbatim>\<open>x || d\<close> for a string that may be \<^verbatim>\<open>undefined\<close>.\<close>

definition or_default :: "string option \<Rightarrow> string \<Rightarrow> string" where
  "or_default x d = (case x of None \<Rightarrow> d | Some t \<Rightarrow> if t = [] then d else t)"

text \<open>
  \<^verbatim>\<open>parentConditional && !parentConditional.classList.contains('show')\<close> with
  \<^verbatim>\<open>parentConditional = el.closest('.conditional')\<close>.
\<close>

definition closest_conditional :: "form \<Rightarrow> element \<Rightarrow> container option" where
  "closest_conditional s el =
     (case filter (\<lambda>i. case containers s i of None \<Rightarrow> False | Some c \<Rightarrow> conditional c)
             (ancestors el) of
        [] \<Rightarrow> None
      | i # rest \<Rightarrow> containers s i)"

definition hidden :: "form \<Rightarrow> element \<Rightarrow> bool" where
  "hidden s el = (case closest_conditional s el of None \<Rightarrow> False | Some c \<Rightarrow> \<not> shown c)"

text \<open>
  The checks of one required element in \<^verbatim>\<open>validateStep\<close> of \<^verbatim>\<open>src/staticfiles/app.js\<close>
  (185-200): the message when the element blocks.
\<close>

definition invalid_message :: "element \<Rightarrow> message option" where
  "invalid_message el =
     (if el_type el = ''file'' then
        (if files_length el = 0
         then Some (AttachRequiredFile (or_default (prev_text el) ''file'')) else None)
      else if tagName el = ''SELECT'' \<and> el_value el = [] then Some SelectAllRequiredOptions
      else if blank (el_value el)
        then Some (FillIn (or_default (label_text el) ''all required fields''))
      else None)"

text \<open>The loop over \<^verbatim>\<open>requiredEls\<close>: the first element that blocks, and its message.\<close>

fun first_blocking :: "form \<Rightarrow> element list \<Rightarrow> (element \<times> message) option" where
  "first_blocking s [] = None"
| "first_blocking s (el # els) =
     (if hidden s el then first_blocking s els
      else (case invalid_message el of
              Some m \<Rightarrow> Some (el, m)
            | None \<Rightarrow> first_blocking s els))"

text \<open>\<^verbatim>\<open>sec.querySelectorAll('[required]')\<close> for the section with index \<open>k\<close>.\<close>

definition requiredEls :: "form \<Rightarrow> nat \<Rightarrow> element list" where
  "requiredEls s k = filter (\<lambda>e. in_section e = Some k \<and> required e) (elements s)"

text \<open>\<^verbatim>\<open>sec.querySelector('input[name="n"]:checked')\<close> is not \<^verbatim>\<open>null\<close>.\<close>

definition section_checked :: "form \<Rightarrow> nat \<Rightarrow> string \<Rightarrow> bool" where
  "section_checked s k n =
     (find (\<lambda>e. in_section e = Some k \<and> tagName e = ''INPUT'' \<and> el_name e = n \<and> checked e)
        (elements s) \<noteq> None)"

text \<open>
  The loop over the radio groups of section \<open>k\<close>: the groups with their \<^verbatim>\<open>has-error\<close> class
  as the loop leaves it, and the label of the group that blocks. Every radio group has a
  form group of its own.
\<close>

definition group_checked :: "(string \<Rightarrow> bool) \<Rightarrow> nat \<Rightarrow> radio_group \<Rightarrow> (string \<times> bool) option" where
  "group_checked chk k g =
     (if rg_section g \<noteq> k then None
      else case required_label g of
        None \<Rightarrow> None
      | Some groupLabel \<Rightarrow>
          (case first_radio_name g of
             None \<Rightarrow> None
           | Some groupName \<Rightarrow>
               if groupName \<noteq> [] \<and> rendered g then Some (groupLabel, chk groupName)
               else None))"

fun radio_loop ::
  "(string \<Rightarrow> bool) \<Rightarrow> nat \<Rightarrow> radio_group list \<Rightarrow> radio_group list \<times> string option" where
  "radio_loop chk k [] = ([], None)"
| "radio_loop chk k (g # gs) =
     (case group_checked chk k g of
        None \<Rightarrow> (case radio_loop chk k gs of (gs', r) \<Rightarrow> (g # gs', r))
      | Some (groupLabel, True) \<Rightarrow>
          (case radio_loop chk k gs of (gs', r) \<Rightarrow> (g\<lparr>has_error := False\<rparr> # gs', r))
      | Some (groupLabel, False) \<Rightarrow> (g\<lparr>has_error := True\<rparr> # gs, Some groupLabel))"

text \<open>
  \<^verbatim>\<open>validateStep\<close> of \<^verbatim>\<open>src/staticfiles/app.js\<close> (171-228). \<^verbatim>\<open>sections[step - 1]\<close> is
  \<^verbatim>\<open>undefined\<close> outside 1..\<open>totalSteps\<close>. A file input is scrolled into view, every other
  blocking element gets the focus.
\<close>

definition validateStep :: "int \<Rightarrow> form \<Rightarrow> bool \<times> form" where
  "validateStep step s =
     (if step < 1 \<or> totalSteps s < step then (False, s)
      else
        let k = nat (step - 1) in
        case first_blocking s (requiredEls s k) of
          Some (el, m) \<Rightarrow>
            (False, if el_type el = ''file'' then showError m s
                    else (showError m s)\<lparr>focused := Some (el_id el)\<rparr>)
        | None \<Rightarrow>
            (case radio_loop (section_checked s k) k (radio_groups s) of
               (gs, Some groupLabel) \<Rightarrow>
                 (False, showError (SelectOptionFor groupLabel) (s\<lparr>radio_groups := gs\<rparr>))
             | (gs, None) \<Rightarrow> (True, clearMessages (s\<lparr>radio_groups := gs\<rparr>))))"

text \<open>
  \<^verbatim>\<open>validateStep\<close> of \<^verbatim>\<open>src/unnamed/part_000\<close> (165-214): every required element is
  checked, hidden or not, with one message per kind, and gets the focus.
\<close>

definition invalid_message_v1 :: "element \<Rightarrow> message option" where
  "invalid_message_v1 el =
     (if el_type el = ''file'' then
        (if files_length el = 0 then Some AttachRequiredFiles else None)
      else if tagName el = ''SELECT'' \<and> el_value el = [] then Some SelectRequiredOptions
      else if blank (el_value el) then Some FillAllRequired
      else None)"

fun first_blocking_v1 :: "element list \<Rightarrow> (element \<times> message) option" where
  "first_blocking_v1 [] = None"
| "first_blocking_v1 (el # els) =
     (case invalid_message_v1 el of
        Some m \<Rightarrow> Some (el, m)
      | None \<Rightarrow> first_blocking_v1 els)"

definition validateStep_v1 :: "int \<Rightarrow> form \<Rightarrow> bool \<times> form" where
  "validateStep_v1 step s =
     (if step < 1 \<or> totalSteps s < step then (False, s)
      else
        let k = nat (step - 1) in
        case first_blocking_v1 (requiredEls s k) of
          Some (el, m) \<Rightarrow> (False, (showError m s)\<lparr>focused := Some (el_id el)\<rparr>)
        | None \<Rightarrow>
            (case radio_loop (section_checked s k) k (radio_groups s) of
               (gs, Some groupLabel) \<Rightarrow>
                 (False, showError (SelectOptionFor groupLabel) (s\<lparr>radio_groups := gs\<rparr>))
             | (gs, None) \<Rightarrow> (True, clearMessages (s\<lparr>radio_groups := gs\<rparr>))))"

text \<open>
  \<^verbatim>\<open>validateStep\<close> of \<^verbatim>\<open>src/app.js\<close> (129-152). The section is found by its \<^verbatim>\<open>data-step\<close>
  attribute; when no section has it, \<^verbatim>\<open>sec.querySelectorAll\<close> is a \<^verbatim>\<open>TypeError\<close>. There is
  no radio group loop.
\<close>

fun index_of :: "'a \<Rightarrow> 'a list \<Rightarrow> nat option" where
  "index_of x [] = None"
| "index_of x (y # ys) = (if x = y then Some 0 else map_option Suc (index_of x ys))"

definition validateStep_v0 :: "int \<Rightarrow> form \<Rightarrow> bool completion \<times> form" where
  "validateStep_v0 step s =
     (case index_of step (data_steps s) of
        None \<Rightarrow> (Throw, s)
      | Some k \<Rightarrow>
          (case first_blocking_v1 (requiredEls s k) of
             Some (el, m) \<Rightarrow> (Return False, (showError m s)\<lparr>focused := Some (el_id el)\<rparr>)
           | None \<Rightarrow> (Return True, clearMessages s)))"

text \<open>
  The page with the \<^verbatim>\<open>required\<close> attribute taken off every element that is inside a hidden
  conditional group; used to say that such elements do not count.
\<close>

definition without_hidden_required :: "form \<Rightarrow> form" where
  "without_hidden_required s =
     s\<lparr>elements := map (\<lambda>e. if hidden s e then e\<lparr>required := False\<rparr> else e) (elements s)\<rparr>"

section \<open>Navigation\<close>

text \<open>
  \<^verbatim>\<open>currentStep = n; updateProgress(); window.scrollTo(...); clearMessages()\<close>.
  \<^verbatim>\<open>updateProgress\<close> writes the progress bar and the \<^verbatim>\<open>active\<close> and \<^verbatim>\<open>completed\<close> classes,
  which are functions of \<open>currentStep\<close> alone; they are read off the state and not stored.
\<close>

definition section_active :: "form \<Rightarrow> nat \<Rightarrow> bool" where
  "section_active s k = (k < length (data_steps s) \<and> data_steps s ! k = currentStep s)"

definition section_completed :: "form \<Rightarrow> nat \<Rightarrow> bool" where
  "section_completed s k = (k < length (data_steps s) \<and> data_steps s ! k < currentStep s)"

definition enter_step :: "int \<Rightarrow> form \<Rightarrow> form" where
  "enter_step n s = clearMessages (s\<lparr>currentStep := n\<rparr>)"

text \<open>
  \<^verbatim>\<open>goToStep\<close> of \<^verbatim>\<open>src/staticfiles/app.js\<close> (141-158). (\<^verbatim>\<open>src/static/app.js\<close> 190-207 has the
  same text, but the \<^verbatim>\<open>validateStep\<close> that runs there is the later declaration of that file,
  417-445, another function; that script is not the one embedded here.)
\<close>

definition goToStep :: "browser \<Rightarrow> int \<Rightarrow> form \<Rightarrow> unit completion \<times> form" where
  "goToStep b n s =
     (if n > currentStep s then
        (case validateStep (currentStep s) s of
           (False, s1) \<Rightarrow> (Return (), s1)
         | (True, s1) \<Rightarrow>
             if currentStep s1 = 2 then
               (case validateFinancialFields b s1 of
                  (Throw, s2) \<Rightarrow> (Throw, s2)
                | (Return False, s2) \<Rightarrow> (Return (), s2)
                | (Return True, s2) \<Rightarrow> (Return (), enter_step n s2))
             else (Return (), enter_step n s1))
      else (Return (), enter_step n s))"

text \<open>
  \<^verbatim>\<open>goToStep\<close> of \<^verbatim>\<open>src/unnamed/part_000\<close> (141-148): no financial check and no
  \<^verbatim>\<open>clearMessages\<close>.
\<close>

definition goToStep_v1 :: "int \<Rightarrow> form \<Rightarrow> form" where
  "goToStep_v1 n s =
     (if n > currentStep s then
        (case validateStep_v1 (currentStep s) s of
           (False, s1) \<Rightarrow> s1
         | (True, s1) \<Rightarrow> s1\<lparr>currentStep := n\<rparr>)
      else s\<lparr>currentStep := n\<rparr>)"

text \<open>\<^verbatim>\<open>goToStep\<close> of \<^verbatim>\<open>src/app.js\<close> (88-96).\<close>

definition goToStep_v0 :: "int \<Rightarrow> form \<Rightarrow> unit completion \<times> form" where
  "goToStep_v0 n s =
     (if n > currentStep s then
        (case validateStep_v0 (currentStep s) s of
           (Throw, s1) \<Rightarrow> (Throw, s1)
         | (Return False, s1) \<Rightarrow> (Return (), s1)
         | (Return True, s1) \<Rightarrow> (Return (), s1\<lparr>currentStep := n\<rparr>))
      else (Return (), s\<lparr>currentStep := n\<rparr>))"

text \<open>The eight navigation buttons and the constant each passes to \<^verbatim>\<open>goToStep\<close>.\<close>

datatype nav_button =
  ToStep2 | BackTo1 | ToStep3 | BackTo2 | ToStep4 | BackTo3 | ToStep5 | BackTo4

fun target :: "nav_button \<Rightarrow> int" where
  "target ToStep2 = 2"
| "target BackTo1 = 1"
| "target ToStep3 = 3"
| "target BackTo2 = 2"
| "target ToStep4 = 4"
| "target BackTo3 = 3"
| "target ToStep5 = 5"
| "target BackTo4 = 4"

text \<open>\<^verbatim>\<open>src/staticfiles/app.js\<close> (161-168) and \<^verbatim>\<open>src/app.js\<close> (55-62).\<close>

definition nav_click :: "browser \<Rightarrow> nav_button \<Rightarrow> form \<Rightarrow> unit completion \<times> form" where
  "nav_click b k s = goToStep b (target k) s"

definition nav_click_v0 :: "nav_button \<Rightarrow> form \<Rightarrow> unit completion \<times> form" where
  "nav_click_v0 k s = goToStep_v0 (target k) s"

text \<open>
  \<^verbatim>\<open>src/unnamed/part_000\<close> (151-162): the button \<^verbatim>\<open>toStep3\<close> runs
  \<^verbatim>\<open>if (validateStep(2) && validateFinancialFields()) goToStep(3)\<close>.
\<close>

definition nav_click_v1 :: "browser \<Rightarrow> nav_button \<Rightarrow> form \<Rightarrow> unit completion \<times> form" where
  "nav_click_v1 b k s =
     (if k = ToStep3 then
        (case validateStep_v1 2 s of
           (False, s1) \<Rightarrow> (Return (), s1)
         | (True, s1) \<Rightarrow>
             (case validateFinancialFields_v1 b s1 of
                (Throw, s2) \<Rightarrow> (Throw, s2)
              | (Return False, s2) \<Rightarrow> (Return (), s2)
              | (Return True, s2) \<Rightarrow> (Return (), goToStep_v1 3 s2)))
      else (Return (), goToStep_v1 (target k) s))"

text \<open>
  The \<^verbatim>\<open>keydown\<close> listener for the Enter key: \<^verbatim>\<open>src/unnamed/part_000\<close> (343-352), where
  \<open>activeTag\<close> is \<^verbatim>\<open>document.activeElement.tagName\<close>, and \<^verbatim>\<open>src/app.js\<close> (277-282).
\<close>

definition enter_key_v1 :: "string \<Rightarrow> form \<Rightarrow> form" where
  "enter_key_v1 activeTag s =
     (if currentStep s < totalSteps s \<and> activeTag \<noteq> ''TEXTAREA''
      then goToStep_v1 (currentStep s + 1) s else s)"

definition enter_key_v0 :: "form \<Rightarrow> unit completion \<times> form" where
  "enter_key_v0 s =
     (if currentStep s < totalSteps s then goToStep_v0 (currentStep s + 1) s
      else (Return (), s))"

section \<open>Submission\<close>

text \<open>
  The loop \<^verbatim>\<open>for (let s = 1; s <= totalSteps; s++) if (!validateStep(s)) ...\<close> over the
  steps \<open>ks\<close> still to check: the first step that fails, and the state the checks leave.
\<close>

fun validate_all :: "int list \<Rightarrow> form \<Rightarrow> int option \<times> form" where
  "validate_all [] s = (None, s)"
| "validate_all (k # ks) s =
     (case validateStep k s of
        (True, s1) \<Rightarrow> validate_all ks s1
      | (False, s1) \<Rightarrow> (Some k, s1))"

fun validate_all_v1 :: "int list \<Rightarrow> form \<Rightarrow> int option \<times> form" where
  "validate_all_v1 [] s = (None, s)"
| "validate_all_v1 (k # ks) s =
     (case validateStep_v1 k s of
        (True, s1) \<Rightarrow> validate_all_v1 ks s1
      | (False, s1) \<Rightarrow> (Some k, s1))"

text \<open>
  The \<^verbatim>\<open>submit\<close> listener of \<^verbatim>\<open>src/staticfiles/app.js\<close> (315-339). It always calls
  \<^verbatim>\<open>e.preventDefault()\<close>; the form is sent by \<^verbatim>\<open>form.submit()\<close>. (\<^verbatim>\<open>src/static/app.js\<close> 475-499
  has the same text over its later \<^verbatim>\<open>validateStep\<close>, 417-445, and is not embedded here.)
\<close>

definition submit :: "browser \<Rightarrow> form \<Rightarrow> unit completion \<times> form" where
  "submit b s =
     (case validate_all [1..totalSteps s] s of
        (Some k, s1) \<Rightarrow>
          and_then (goToStep b k s1) (\<lambda>s2.
            (Return (), (showError CorrectBeforeSubmitting s2)
                          \<lparr>submitBtn_disabled := False, submitBtn_text := ''Submit Application''\<rparr>))
      | (None, s1) \<Rightarrow>
          (Return (), s1\<lparr>submitBtn_disabled := True, submitBtn_text := ''Submitting...'',
                         submitted := True\<rparr>))"

text \<open>
  The \<^verbatim>\<open>submit\<close> listener of \<^verbatim>\<open>src/unnamed/part_000\<close> (294-317). \<^verbatim>\<open>e.preventDefault()\<close> is
  called only when a check fails; otherwise the browser sends the form.
\<close>

definition submit_v1 :: "form \<Rightarrow> form" where
  "submit_v1 s =
     (case validateStep_v1 (currentStep s) s of
        (False, s0) \<Rightarrow> s0
      | (True, s0) \<Rightarrow>
          (case validate_all_v1 [1..totalSteps s0] s0 of
             (Some k, s1) \<Rightarrow>
               (showError CorrectBeforeSubmitting (goToStep_v1 k s1))\<lparr>submitBtn_disabled := False\<rparr>
           | (None, s1) \<Rightarrow>
               s1\<lparr>submitBtn_disabled := True, submitBtn_text := ''Submitting...'',
                  submitted := True\<rparr>))"


section \<open>The states a page can reach\<close>

text \<open>
  Modelled from the spec: the page (\<^verbatim>\<open>index.html\<close>) that the scripts run on is not under
  \<^verbatim>\<open>src/\<close>. The spec gives the form five sections, the steps that the eight navigation
  buttons name; a page as loaded has them all. \<^verbatim>\<open>let currentStep = 1\<close> is the scripts' own
  (\<^verbatim>\<open>src/staticfiles/app.js\<close> 45, \<^verbatim>\<open>src/unnamed/part_000\<close> 54, \<^verbatim>\<open>src/app.js\<close> 66).
\<close>

definition loaded :: "form \<Rightarrow> bool" where
  "loaded s = (currentStep s = 1 \<and> 5 \<le> totalSteps s)"

text \<open>
  The states of a page under \<^verbatim>\<open>src/staticfiles/app.js\<close>. \<^verbatim>\<open>currentStep\<close> is assigned in
  \<^verbatim>\<open>goToStep\<close> only, which the navigation buttons and the \<^verbatim>\<open>submit\<close> listener call; all else
  that happens on the page (typing, choosing, the other listeners) leaves \<^verbatim>\<open>currentStep\<close>
  and the sections as they are, and is the rule \<open>elsewhere\<close>.
\<close>

inductive reachable :: "form \<Rightarrow> bool" where
  start: "loaded s \<Longrightarrow> reachable s"
| elsewhere: "reachable s \<Longrightarrow> currentStep s' = currentStep s \<Longrightarrow> data_steps s' = data_steps s
    \<Longrightarrow> reachable s'"
| click: "reachable s \<Longrightarrow> reachable (snd (nav_click b k s))"
| submitting: "reachable s \<Longrightarrow> reachable (snd (submit b s))"

text \<open>
  The same under \<^verbatim>\<open>src/unnamed/part_000\<close>, where the Enter key calls \<^verbatim>\<open>goToStep\<close> as well.
\<close>

inductive reachable_v1 :: "form \<Rightarrow> bool" where
  start_v1: "loaded s \<Longrightarrow> reachable_v1 s"
| elsewhere_v1: "reachable_v1 s \<Longrightarrow> currentStep s' = currentStep s \<Longrightarrow>
    data_steps s' = data_steps s \<Longrightarrow> reachable_v1 s'"
| click_v1: "reachable_v1 s \<Longrightarrow> reachable_v1 (snd (nav_click_v1 b k s))"
| enter_v1: "reachable_v1 s \<Longrightarrow> reachable_v1 (enter_key_v1 activeTag s)"
| submitting_v1: "reachable_v1 s \<Longrightarrow> reachable_v1 (submit_v1 s)"

text \<open>
  The same under \<^verbatim>\<open>src/app.js\<close>. Its \<^verbatim>\<open>submit\<close> listener (154-262) calls \<^verbatim>\<open>goToStep(s)\<close> for a
  step \<open>s\<close> of its loop \<^verbatim>\<open>for (let s = 1; s <= totalSteps; s++)\<close> (161) and \<^verbatim>\<open>goToStep(1)\<close>
  (254); the rule \<open>routed_v0\<close> has every such call, and \<open>elsewhere_v0\<close> the rest of what
  the listener does.
\<close>

inductive reachable_v0 :: "form \<Rightarrow> bool" where
  start_v0: "loaded s \<Longrightarrow> reachable_v0 s"
| elsewhere_v0: "reachable_v0 s \<Longrightarrow> currentStep s' = currentStep s \<Longrightarrow>
    data_steps s' = data_steps s \<Longrightarrow> reachable_v0 s'"
| click_v0: "reachable_v0 s \<Longrightarrow> reachable_v0 (snd (nav_click_v0 k s))"
| enter_v0: "reachable_v0 s \<Longrightarrow> reachable_v0 (snd (enter_key_v0 s))"
| routed_v0: "reachable_v0 s \<Longrightarrow> 1 \<le> k \<Longrightarrow> k \<le> totalSteps s \<Longrightarrow>
    reachable_v0 (snd (goToStep_v0 k s))"
section \<open>Sample pages\<close>

text \<open>Concrete pages and browsers on which the properties below are evaluated.\<close>

definition number_input :: "string \<Rightarrow> string \<Rightarrow> nat \<Rightarrow> element" where
  "number_input i v k =
     \<lparr>el_id = i, tagName = ''INPUT'', el_type = ''number'', el_name = i, el_value = v,
      files_length = 0, checked = False, required = True, originalRequired = None,
      in_section = Some k, ancestors = [], label_text = None, prev_text = None\<rparr>"

definition text_area :: "string \<Rightarrow> string \<Rightarrow> nat \<Rightarrow> element" where
  "text_area i v k =
     \<lparr>el_id = i, tagName = ''TEXTAREA'', el_type = ''textarea'', el_name = i, el_value = v,
      files_length = 0, checked = False, required = True, originalRequired = None,
      in_section = Some k, ancestors = [], label_text = None, prev_text = None\<rparr>"

definition page :: "element list \<Rightarrow> radio_group list \<Rightarrow> int list \<Rightarrow> int \<Rightarrow> form" where
  "page es gs ds k =
     \<lparr>elements = es, containers = (\<lambda>i. None), radio_groups = gs, data_steps = ds,
      currentStep = k, errorMsg = None, successMsg = None, focused = None, dialogs = [],
      submitBtn_disabled = False, submitBtn_text = ''Submit Application'', submitted = False\<rparr>"

text \<open>\<^verbatim>\<open>parseFloat\<close> on the decimal numerals the sample pages use.\<close>

definition decimal :: "string \<Rightarrow> jsnum" where
  "decimal v =
     (if v = ''0'' then Num 0 else if v = ''1000'' then Num 1000
      else if v = ''5000'' then Num 5000 else if v = ''10000'' then Num 10000
      else if v = ''15000'' then Num 15000 else if v = ''200000'' then Num 200000
      else if v = ''4503599627370499'' then Num 4503599627370499
      else if v = ''45035996273704992'' then Num 45035996273704992
      else NaN)"

definition declining :: browser where
  "declining = \<lparr>parseFloat = decimal, confirm = (\<lambda>m. False)\<rparr>"

definition accepting :: browser where
  "accepting = \<lparr>parseFloat = decimal, confirm = (\<lambda>m. True)\<rparr>"

definition finance_page :: "string \<Rightarrow> string \<Rightarrow> string \<Rightarrow> form" where
  "finance_page income fee amount =
     page [number_input ''annual_family_income'' income 1, number_input ''tuition_fee'' fee 1,
           number_input ''amount_requested'' amount 1,
           text_area ''reason_for_application'' ''school fees'' 1] [] [1, 2, 3, 4, 5] 2"

text \<open>A five-step page whose first section holds one required text input.\<close>

definition text_input :: "string \<Rightarrow> string \<Rightarrow> nat \<Rightarrow> element" where
  "text_input i v k =
     \<lparr>el_id = i, tagName = ''INPUT'', el_type = ''text'', el_name = i, el_value = v,
      files_length = 0, checked = False, required = True, originalRequired = None,
      in_section = Some k, ancestors = [], label_text = Some ''Full Name'', prev_text = None\<rparr>"

definition wizard_page :: "string \<Rightarrow> int \<Rightarrow> form" where
  "wizard_page v k = page [text_input ''fullName'' v 0] [] [1, 2, 3, 4, 5] k"

text \<open>A page whose \<^verbatim>\<open>orphan\<close> group has one option checked already.\<close>

definition radio_input :: "string \<Rightarrow> string \<Rightarrow> bool \<Rightarrow> element" where
  "radio_input n v c =
     \<lparr>el_id = n @ ''_'' @ v, tagName = ''INPUT'', el_type = ''radio'', el_name = n, el_value = v,
      files_length = 0, checked = c, required = False, originalRequired = None,
      in_section = Some 0, ancestors = [], label_text = None, prev_text = None\<rparr>"

definition orphan_page :: "string \<Rightarrow> string \<Rightarrow> bool \<Rightarrow> form" where
  "orphan_page yes no c =
     page [radio_input ''orphan'' yes c, radio_input ''orphan'' no False] [] [1, 2, 3, 4, 5] 1"

text \<open>
  A page with the notes \<^verbatim>\<open>orphanNote\<close> and \<^verbatim>\<open>providerNote\<close>, both hidden, where \<^verbatim>\<open>orphan\<close> and
  \<^verbatim>\<open>singleParent\<close> are answered \<^verbatim>\<open>False\<close> and \<^verbatim>\<open>bothParentsAlive\<close> is answered \<^verbatim>\<open>True\<close>
  (\<open>alive = True\<close>) or not at all.
\<close>

definition hidden_note :: container where
  "hidden_note = \<lparr>conditional = True, shown = False\<rparr>"

definition notes_page :: "bool \<Rightarrow> form" where
  "notes_page alive =
     (page [radio_input ''orphan'' ''True'' False, radio_input ''orphan'' ''False'' True,
            radio_input ''bothParentsAlive'' ''True'' alive,
            radio_input ''bothParentsAlive'' ''False'' False,
            radio_input ''singleParent'' ''True'' False, radio_input ''singleParent'' ''False'' True]
        [] [1, 2, 3, 4, 5] 1)
     \<lparr>containers := [''orphanNote'' \<mapsto> hidden_note, ''providerNote'' \<mapsto> hidden_note]\<rparr>"

text \<open>
  A page whose first section holds one required, empty text input inside the hidden group
  \<^verbatim>\<open>disabilityDetails\<close>.
\<close>

definition hidden_field_page :: form where
  "hidden_field_page =
     (page [(text_input ''disabilityNature'' [] 0)\<lparr>ancestors := [''disabilityDetails'']\<rparr>]
        [] [1, 2, 3, 4, 5] 1)
     \<lparr>containers := [''disabilityDetails'' \<mapsto> hidden_note]\<rparr>"

text \<open>The required, rendered radio group \<^verbatim>\<open>orphan\<close> of the first section.\<close>

definition orphan_group :: radio_group where
  "orphan_group =
     \<lparr>rg_section = 0, required_label = Some ''Orphan'', first_radio_name = Some ''orphan'',
      rendered = True, has_error = False\<rparr>"

text \<open>A five-step page with one required, empty text input in each of the first two sections.\<close>

definition two_empty_page :: "int \<Rightarrow> form" where
  "two_empty_page k =
     page [text_input ''fullName'' [] 0, text_input ''institution'' [] 1] [] [1, 2, 3, 4, 5] k"


text \<open>
  A page whose first section holds a required, empty text input inside the hidden group
  \<^verbatim>\<open>disabilityDetails\<close>, a required, empty text input outside it, a required radio group that
  is not rendered and the required, rendered radio group \<^verbatim>\<open>orphan\<close>, with no option checked.
\<close>

definition unrendered_group :: radio_group where
  "unrendered_group =
     \<lparr>rg_section = 0, required_label = Some ''Disability'', first_radio_name = Some ''disability'',
      rendered = False, has_error = False\<rparr>"

definition half_hidden_page :: form where
  "half_hidden_page =
     (page [(text_input ''disabilityNature'' [] 0)\<lparr>ancestors := [''disabilityDetails'']\<rparr>,
            text_input ''fullName'' [] 0,
            radio_input ''disability'' ''True'' False, radio_input ''disability'' ''False'' False,
            radio_input ''orphan'' ''True'' False, radio_input ''orphan'' ''False'' False]
        [unrendered_group, orphan_group] [1, 2, 3, 4, 5] 1)
     \<lparr>containers := [''disabilityDetails'' \<mapsto> hidden_note]\<rparr>"

section \<open>Properties\<close>

subsection \<open>Reading and writing the page\<close>

lemma find_update_first:
  assumes "\<And>x. P x \<Longrightarrow> P (f x)"
  shows "find P (update_first P f xs) = map_option f (find P xs)"
  using assms by (induction xs) auto

lemma getElementById_set_value:
  "getElementById (set_value i v s) i = map_option (\<lambda>e. e\<lparr>el_value := v\<rparr>) (getElementById s i)"
  by (simp add: getElementById_def set_value_def find_update_first)

lemma getElementById_focused [simp]:
  "getElementById (s\<lparr>focused := x\<rparr>) i = getElementById s i"
  by (simp add: getElementById_def)

lemma errorMsg_set_value [simp]: "errorMsg (set_value i v s) = errorMsg s"
  by (simp add: set_value_def)

lemma getElementById_showError [simp]: "getElementById (showError m s) i = getElementById s i"
  by (simp add: getElementById_def showError_def)

lemma getElementById_ask [simp]: "getElementById (ask m s) i = getElementById s i"
  by (simp add: getElementById_def ask_def)

lemma errorMsg_showError [simp]: "errorMsg (showError m s) = Some m"
  by (simp add: showError_def)

lemma errorMsg_ask [simp]: "errorMsg (ask m s) = errorMsg s"
  by (simp add: ask_def)

lemma dialogs_showError [simp]: "dialogs (showError m s) = dialogs s"
  by (simp add: showError_def)

lemma dialogs_ask [simp]: "dialogs (ask m s) = dialogs s @ [m]"
  by (simp add: ask_def)

lemma fst_focus_return:
  "fst (focus_return i r s) = (if getElementById s i = None then Throw else Return r)"
  by (simp add: focus_return_def split: option.splits)

lemma errorMsg_focus_return [simp]: "errorMsg (snd (focus_return i r s)) = errorMsg s"
  by (simp add: focus_return_def split: option.splits)

lemma dialogs_focus_return [simp]: "dialogs (snd (focus_return i r s)) = dialogs s"
  by (simp add: focus_return_def split: option.splits)

lemma read_number_absent:
  "getElementById s i = None \<Longrightarrow> read_number b s i = Num 0"
  by (simp add: read_number_def)

lemma read_number_present:
  "getElementById s i = Some e \<Longrightarrow> read_number b s i = parse_or_zero b (el_value e)"
  by (simp add: read_number_def)

subsection \<open>Comparisons of JavaScript numbers\<close>

lemma gt_positive: "js_gt a t \<Longrightarrow> \<not> js_le t (Num 0) \<Longrightarrow> \<not> js_le a (Num 0)"
  by (cases a; cases t) (auto simp: js_gt_def)

lemma gt_not_zero: "js_gt a t \<Longrightarrow> \<not> js_le t (Num 0) \<Longrightarrow> a \<noteq> Num 0"
  by (cases a; cases t) (auto simp: js_gt_def)

lemma positive_not_zero: "\<not> js_le t (Num 0) \<Longrightarrow> t \<noteq> Num 0"
  by (cases t) auto

lemma eq_not_gt: "js_eq a t \<Longrightarrow> \<not> js_gt a t"
  by (cases a; cases t) (auto simp: js_gt_def)

lemma eq_positive: "js_eq a t \<Longrightarrow> js_gt t (Num 0) \<Longrightarrow> \<not> js_le t (Num 0) \<and> \<not> js_le a (Num 0)"
  by (cases a; cases t) (auto simp: js_gt_def)

subsection \<open>Rounding to a double\<close>

lemma floor_quotient [simp]: "\<lfloor>numeral a / numeral b :: rat\<rfloor> = numeral a div numeral b"
  by (metis floor_divide_of_int_eq of_int_numeral)

lemma halvings_numeral [simp]:
  "halvings (numeral n) q = (if 2 \<le> q then 1 + halvings (pred_numeral n) (q / 2) else 0)"
  by (simp add: numeral_eq_Suc)

lemma doublings_numeral [simp]:
  "doublings (numeral n) q = (if q < 1 then 1 + doublings (pred_numeral n) (q * 2) else 0)"
  by (simp add: numeral_eq_Suc)

lemmas to_double_eval = to_double_def exponent_def round_even_def Let_def power_int_minus

lemma tenth_value: "tenth = Num (3602879701896397 / 36028797018963968)"
  by (simp add: tenth_def to_double_eval)

lemma sample_doubles:
  "to_double 0 = Num 0"
  "to_double 1000 = Num 1000"
  "to_double 5000 = Num 5000"
  "to_double 10000 = Num 10000"
  "to_double 15000 = Num 15000"
  "to_double 200000 = Num 200000"
  "to_double 100000 = Num 100000"
  "to_double 2000000 = Num 2000000"
  by (simp_all add: to_double_eval)

lemma sample_products:
  "js_mul (Num 1000) tenth = Num 100"
  "js_mul (Num 10000) tenth = Num 1000"
  "js_mul (Num 200000) tenth = Num 20000"
  by (simp_all add: tenth_value to_double_eval)

text \<open>
  Two ties, which go to the even multiple, and the product \<^verbatim>\<open>3 * 0.1\<close>, which is
  \<^verbatim>\<open>0.30000000000000004\<close>.
\<close>

lemma rounding_samples:
  "to_double 9007199254740993 = Num 9007199254740992"
  "to_double 9007199254740995 = Num 9007199254740996"
  "js_mul (Num 3) tenth = Num (5404319552844596 / 18014398509481984)"
  by (simp_all add: tenth_value to_double_eval)

text \<open>Rounding a value that is not negative at most doubles it.\<close>

lemma round_even_bounds:
  assumes "0 \<le> y"
  shows "0 \<le> round_even y" and "of_int (round_even y) \<le> 2 * y"
proof -
  define f where "f = \<lfloor>y\<rfloor>"
  have f: "of_int f \<le> y" "0 \<le> f"
    using assms by (simp_all add: f_def)
  then have r: "(0::rat) \<le> of_int f" by simp
  have m: "round_even y = f \<or> (round_even y = f + 1 \<and> 1 / 2 \<le> y - of_int f)"
    by (auto simp: round_even_def Let_def f_def)
  from m f(2) show "0 \<le> round_even y" by auto
  from m show "of_int (round_even y) \<le> 2 * y"
  proof
    assume "round_even y = f"
    with f(1) assms show ?thesis by simp
  next
    assume "round_even y = f + 1 \<and> 1 / 2 \<le> y - of_int f"
    with r show ?thesis by simp
  qed
qed

lemma to_double_bounds:
  assumes "0 \<le> q" and "2 * q < 2 ^ 1024"
  shows "\<exists>v. to_double q = Num v \<and> 0 \<le> v \<and> v \<le> 2 * q"
proof -
  define p :: rat where "p = 2 powi (exponent q - 52)"
  have p: "0 < p" by (simp add: p_def)
  define v where "v = of_int (round_even (q / p)) * p"
  have "0 \<le> q / p" using assms(1) p by simp
  from round_even_bounds [OF this]
  have m: "0 \<le> round_even (q / p)" "of_int (round_even (q / p)) \<le> 2 * q / p"
    by simp_all
  from m(1) p have "0 \<le> v" by (simp add: v_def)
  moreover from m(2) p have "v \<le> 2 * q" by (simp add: v_def pos_le_divide_eq)
  ultimately have v: "0 \<le> v" "v \<le> 2 * q" .
  with assms(2) have "\<not> 2 ^ 1024 \<le> v" "\<not> v \<le> - (2 ^ 1024)" by simp_all
  then have "to_double q = Num v"
    by (simp add: to_double_def Let_def p_def [symmetric] v_def [symmetric])
  with v show ?thesis by simp
qed

lemma to_double_finite: "to_double q = Num v \<Longrightarrow> \<bar>v\<bar> < 2 ^ 1024"
  by (auto simp: to_double_def Let_def split: if_splits)

lemma parse_or_zero_finite: "parse_or_zero b v = Num x \<Longrightarrow> \<bar>x\<bar> < 2 ^ 1024"
  by (cases "parseFloat b v") (auto simp: parse_or_zero_def dest: to_double_finite split: if_splits)

lemma read_number_finite: "read_number b s i = Num x \<Longrightarrow> \<bar>x\<bar> < 2 ^ 1024"
  by (auto simp: read_number_def dest: parse_or_zero_finite split: option.splits)

text \<open>A positive double is not below the product of itself and \<^verbatim>\<open>0.1\<close>.\<close>

lemma tenth_of_positive:
  assumes "0 < x" and "x < 2 ^ 1024"
  shows "\<not> js_lt (Num x) (js_mul (Num x) tenth)"
proof -
  let ?c = "3602879701896397 / 36028797018963968 :: rat"
  have c: "2 * (x * ?c) < x" using assms(1) by simp
  with assms have "0 \<le> x * ?c" "2 * (x * ?c) < 2 ^ 1024" by simp_all
  from to_double_bounds [OF this] obtain v
    where "to_double (x * ?c) = Num v" "v \<le> 2 * (x * ?c)" by blast
  with c show ?thesis by (simp add: tenth_value)
qed

lemma eq_not_below:
  assumes "js_eq a t" and "js_gt t (Num 0)" and "\<And>x. t = Num x \<Longrightarrow> \<bar>x\<bar> < 2 ^ 1024"
  shows "\<not> js_lt a (js_mul t tenth)"
proof (cases t)
  case (Num x)
  with assms have "a = Num x" "0 < x" "x < 2 ^ 1024"
    by (cases a; auto simp: js_gt_def)+
  with Num tenth_of_positive [of x] show ?thesis by simp
next
  case PosInf
  with assms(1) show ?thesis by (cases a) (auto simp: tenth_value)
next
  case NaN
  with assms(2) show ?thesis by (simp add: js_gt_def)
next
  case NegInf
  with assms(2) show ?thesis by (simp add: js_gt_def)
qed

subsection \<open>The blur listener of the requested amount\<close>

text \<open>
  C10. On \<^verbatim>\<open>blur\<close> of \<^verbatim>\<open>amount_requested\<close>: when the parsed amount exceeds the tuition fee
  and the tuition fee is positive, the error banner is shown, the value of the field is
  reset to the empty string and the field gets the focus again; otherwise both banners are
  cleared and no form control changes.
\<close>

theorem amount_blur_resets_or_clears:
  assumes "getElementById s ''amount_requested'' = Some this"
  shows "(let t = read_number b s ''tuition_fee'';
              a = read_number b s ''amount_requested'';
              s' = amountRequested_blur b s
          in if js_gt a t \<and> js_gt t (Num 0)
             then errorMsg s' = Some (AmountCannotExceed t) \<and>
                  map_option el_value (getElementById s' ''amount_requested'') = Some [] \<and>
                  focused s' = Some ''amount_requested''
             else errorMsg s' = None \<and> successMsg s' = None \<and> elements s' = elements s)"
proof -
  have a: "read_number b s ''amount_requested'' = parse_or_zero b (el_value this)"
    using assms by (rule read_number_present)
  have reset: "map_option el_value
      (getElementById (set_value ''amount_requested'' [] (showError m s)) ''amount_requested'')
      = Some []" for m
    using assms by (simp add: getElementById_set_value)
  show ?thesis
    using assms reset
    by (auto simp: amountRequested_blur_def a Let_def clearMessages_def)
qed

theorem amount_blur_witness:
  "getElementById (finance_page ''0'' ''10000'' ''15000'') ''amount_requested''
     = Some (number_input ''amount_requested'' ''15000'' 1) \<and>
   errorMsg (amountRequested_blur declining (finance_page ''0'' ''10000'' ''15000''))
     = Some (AmountCannotExceed (Num 10000)) \<and>
   map_option el_value
     (getElementById (amountRequested_blur declining (finance_page ''0'' ''10000'' ''15000''))
        ''amount_requested'') = Some []"
proof -
  have p: "getElementById (finance_page ''0'' ''10000'' ''15000'') ''amount_requested''
     = Some (number_input ''amount_requested'' ''15000'' 1)"
    by (simp add: getElementById_def finance_page_def page_def number_input_def)
  have t: "read_number declining (finance_page ''0'' ''10000'' ''15000'') ''tuition_fee'' = Num 10000"
    by (simp add: read_number_def getElementById_def finance_page_def page_def number_input_def
        parse_or_zero_def declining_def decimal_def sample_doubles)
  have a: "read_number declining (finance_page ''0'' ''10000'' ''15000'') ''amount_requested'' = Num 15000"
    by (simp add: read_number_def getElementById_def finance_page_def page_def number_input_def
        parse_or_zero_def declining_def decimal_def sample_doubles)
  show ?thesis
    using amount_blur_resets_or_clears [OF p, of declining] p
    by (simp add: t a js_gt_def Let_def)
qed


subsection \<open>The cross-field financial rule\<close>

lemma finance_page_numbers:
  "read_number b (finance_page i f a) ''annual_family_income'' = parse_or_zero b i"
  "read_number b (finance_page i f a) ''tuition_fee'' = parse_or_zero b f"
  "read_number b (finance_page i f a) ''amount_requested'' = parse_or_zero b a"
  "getElementById (finance_page i f a) ''reason_for_application''
     = Some (text_area ''reason_for_application'' ''school fees'' 1)"
  "getElementById (finance_page i f a) ''tuition_fee'' = Some (number_input ''tuition_fee'' f 1)"
  "getElementById (finance_page i f a) ''amount_requested'' = Some (number_input ''amount_requested'' a 1)"
  "dialogs (finance_page i f a) = []"
  by (simp_all add: read_number_def getElementById_def finance_page_def page_def number_input_def
      text_area_def)

lemma decimal_numbers:
  "parse_or_zero declining ''0'' = Num 0"
  "parse_or_zero declining ''1000'' = Num 1000"
  "parse_or_zero declining ''5000'' = Num 5000"
  "parse_or_zero declining ''10000'' = Num 10000"
  "parse_or_zero declining ''15000'' = Num 15000"
  "parse_or_zero declining ''200000'' = Num 200000"
  "parse_or_zero accepting ''0'' = Num 0"
  "parse_or_zero accepting ''1000'' = Num 1000"
  "parse_or_zero accepting ''5000'' = Num 5000"
  "parse_or_zero accepting ''10000'' = Num 10000"
  "parse_or_zero accepting ''15000'' = Num 15000"
  "parse_or_zero accepting ''200000'' = Num 200000"
  by (simp_all add: parse_or_zero_def declining_def accepting_def decimal_def sample_doubles)

lemma sample_answers [simp]: "confirm declining m = False" "confirm accepting m = True"
  by (simp_all add: declining_def accepting_def)

lemma exceeding_blocks:
  assumes "js_gt (read_number b s ''amount_requested'') (read_number b s ''tuition_fee'')"
  shows "fst (validateFinancialFields b s) =
           (if getElementById s ''tuition_fee'' = None then Throw else Return False)"
    and "errorMsg (snd (validateFinancialFields b s)) =
           Some (if js_le (read_number b s ''tuition_fee'') (Num 0) then TuitionNotPositive
                 else AmountExceedsTuition (read_number b s ''amount_requested'')
                        (read_number b s ''tuition_fee''))"
proof -
  let ?a = "read_number b s ''amount_requested''"
  let ?t = "read_number b s ''tuition_fee''"
  show "fst (validateFinancialFields b s) =
           (if getElementById s ''tuition_fee'' = None then Throw else Return False)"
  proof (cases "js_le ?t (Num 0)")
    case True
    then show ?thesis
      by (simp add: validateFinancialFields_def fst_focus_return)
  next
    case False
    with assms have pos: "\<not> js_le ?a (Num 0)" and nz: "?a \<noteq> Num 0" and tz: "?t \<noteq> Num 0"
      by (auto dest: gt_positive gt_not_zero positive_not_zero)
    from nz have "getElementById s ''amount_requested'' \<noteq> None"
      using read_number_absent by blast
    moreover from tz have "getElementById s ''tuition_fee'' \<noteq> None"
      using read_number_absent by blast
    ultimately show ?thesis using False pos assms
      by (simp add: validateFinancialFields_def fst_focus_return)
  qed
  show "errorMsg (snd (validateFinancialFields b s)) =
           Some (if js_le ?t (Num 0) then TuitionNotPositive else AmountExceedsTuition ?a ?t)"
  proof (cases "js_le ?t (Num 0)")
    case True
    then show ?thesis
      by (simp add: validateFinancialFields_def)
  next
    case False
    with assms have pos: "\<not> js_le ?a (Num 0)"
      by (auto dest: gt_positive)
    show ?thesis using False pos assms
      by (simp add: validateFinancialFields_def)
  qed
qed

lemma exceeding_blocks_v1:
  assumes "js_gt (read_number b s ''amount_requested'') (read_number b s ''tuition_fee'')"
  shows "fst (validateFinancialFields_v1 b s) =
           (if getElementById s ''tuition_fee'' = None then Throw else Return False)"
    and "errorMsg (snd (validateFinancialFields_v1 b s)) =
           Some (if js_le (read_number b s ''tuition_fee'') (Num 0) then TuitionNotPositive
                 else AmountExceedsTuition (read_number b s ''amount_requested'')
                        (read_number b s ''tuition_fee''))"
proof -
  let ?a = "read_number b s ''amount_requested''"
  let ?t = "read_number b s ''tuition_fee''"
  show "fst (validateFinancialFields_v1 b s) =
           (if getElementById s ''tuition_fee'' = None then Throw else Return False)"
  proof (cases "js_le ?t (Num 0)")
    case True
    then show ?thesis
      by (simp add: validateFinancialFields_v1_def fst_focus_return)
  next
    case False
    with assms have nz: "?a \<noteq> Num 0" and tz: "?t \<noteq> Num 0"
      by (auto dest: gt_not_zero positive_not_zero)
    from nz have "getElementById s ''amount_requested'' \<noteq> None"
      using read_number_absent by blast
    moreover from tz have "getElementById s ''tuition_fee'' \<noteq> None"
      using read_number_absent by blast
    ultimately show ?thesis using False assms
      by (simp add: validateFinancialFields_v1_def fst_focus_return)
  qed
  show "errorMsg (snd (validateFinancialFields_v1 b s)) =
           Some (if js_le ?t (Num 0) then TuitionNotPositive else AmountExceedsTuition ?a ?t)"
    using assms by (simp add: validateFinancialFields_v1_def)
qed

lemma equal_amount_passes:
  assumes "js_eq (read_number b s ''amount_requested'') (read_number b s ''tuition_fee'')"
    and "js_gt (read_number b s ''tuition_fee'') (Num 0)"
    and "js_gt (read_number b s ''annual_family_income'')
           (js_mul (read_number b s ''tuition_fee'') (Num 10)) \<longrightarrow>
         confirm b (IncomeAppearsHigh (read_number b s ''annual_family_income''))"
  shows "fst (validateFinancialFields b s) = Return True"
    and "fst (validateFinancialFields_v1 b s) = Return True"
  using assms eq_not_gt [OF assms(1)] eq_positive [OF assms(1,2)]
    eq_not_below [OF assms(1,2) read_number_finite]
  by (auto simp: validateFinancialFields_def validateFinancialFields_v1_def Let_def)

text \<open>
  C1. For all numeric inputs, \<^verbatim>\<open>validateFinancialFields\<close> (both texts) blocks whenever the
  requested amount exceeds the tuition fee, with the message of the financial rule that is
  violated: the message that names both amounts when the tuition fee is positive, and the
  message of the tuition rule when it is not (then the call returns \<^verbatim>\<open>false\<close>, or throws
  at \<^verbatim>\<open>focus()\<close> when the page has no tuition field). When the amount equals a positive
  tuition fee and the income check passes (the income is at most ten times the fee, or that
  confirmation is accepted), the call returns \<^verbatim>\<open>true\<close>.
\<close>

theorem amount_over_tuition_blocks_equal_passes:
  "(let a = read_number b s ''amount_requested'';
        t = read_number b s ''tuition_fee'';
        income = read_number b s ''annual_family_income'';
        blocked = (if getElementById s ''tuition_fee'' = None then Throw else Return False);
        shown = Some (if js_le t (Num 0) then TuitionNotPositive else AmountExceedsTuition a t)
    in (js_gt a t \<longrightarrow>
          fst (validateFinancialFields b s) = blocked \<and>
          errorMsg (snd (validateFinancialFields b s)) = shown \<and>
          fst (validateFinancialFields_v1 b s) = blocked \<and>
          errorMsg (snd (validateFinancialFields_v1 b s)) = shown) \<and>
       (js_eq a t \<and> js_gt t (Num 0) \<and>
        (js_gt income (js_mul t (Num 10)) \<longrightarrow> confirm b (IncomeAppearsHigh income)) \<longrightarrow>
          fst (validateFinancialFields b s) = Return True \<and>
          fst (validateFinancialFields_v1 b s) = Return True))"
  unfolding Let_def
  using exceeding_blocks [of b s] exceeding_blocks_v1 [of b s] equal_amount_passes [of b s]
  by blast

theorem amount_over_tuition_witness:
  "js_gt (Num 15000) (Num 10000) \<and>
   fst (validateFinancialFields declining (finance_page ''0'' ''10000'' ''15000'')) = Return False \<and>
   errorMsg (snd (validateFinancialFields declining (finance_page ''0'' ''10000'' ''15000'')))
     = Some (AmountExceedsTuition (Num 15000) (Num 10000)) \<and>
   js_eq (Num 10000) (Num 10000) \<and>
   fst (validateFinancialFields declining (finance_page ''0'' ''10000'' ''10000'')) = Return True"
  using amount_over_tuition_blocks_equal_passes [of declining "finance_page ''0'' ''10000'' ''15000''"]
    amount_over_tuition_blocks_equal_passes [of declining "finance_page ''0'' ''10000'' ''10000''"]
  by (simp add: finance_page_numbers decimal_numbers sample_products sample_doubles js_gt_def Let_def)

subsection \<open>The sample application of the specification\<close>

text \<open>
  C7, as stated, fails: with amount 5000, tuition fee 10000 and income 200000 the income
  exceeds ten times the tuition fee (100000), the income prompt is shown, and a user who
  declines it is blocked.
\<close>

theorem sample_application_counterexample:
  "fst (validateFinancialFields declining (finance_page ''200000'' ''10000'' ''5000'')) = Return False \<and>
   dialogs (snd (validateFinancialFields declining (finance_page ''200000'' ''10000'' ''5000'')))
     = [IncomeAppearsHigh (Num 200000)]"
  by (simp add: validateFinancialFields_def finance_page_numbers decimal_numbers sample_products sample_doubles
      js_gt_def fst_focus_return)


lemma le_not_gt: "js_le x y \<Longrightarrow> \<not> js_gt x y"
  by (cases x; cases y) (auto simp: js_gt_def)

lemma sample_application:
  assumes "read_number b s ''amount_requested'' = Num 5000"
    and "read_number b s ''tuition_fee'' = Num 10000"
  shows "read_number b s ''annual_family_income'' = Num 200000 \<Longrightarrow>
           dialogs (snd (validateFinancialFields b s)) = dialogs s @ [IncomeAppearsHigh (Num 200000)] \<and>
           fst (validateFinancialFields b s) =
             (if confirm b (IncomeAppearsHigh (Num 200000)) then Return True
              else if getElementById s ''reason_for_application'' = None then Throw
              else Return False)"
    and "js_le (read_number b s ''annual_family_income'') (Num 100000) \<Longrightarrow>
           dialogs (snd (validateFinancialFields b s)) = dialogs s \<and>
           fst (validateFinancialFields b s) = Return True"
  using assms
  by (auto simp: validateFinancialFields_def sample_products sample_doubles js_gt_def fst_focus_return Let_def
      dest: le_not_gt)

lemma sample_application_v1:
  assumes "read_number b s ''amount_requested'' = Num 5000"
    and "read_number b s ''tuition_fee'' = Num 10000"
  shows "read_number b s ''annual_family_income'' = Num 200000 \<Longrightarrow>
           dialogs (snd (validateFinancialFields_v1 b s)) = dialogs s @ [IncomeAppearsHigh (Num 200000)] \<and>
           fst (validateFinancialFields_v1 b s) =
             (if confirm b (IncomeAppearsHigh (Num 200000)) then Return True
              else if getElementById s ''reason_for_application'' = None then Throw
              else Return False)"
    and "js_le (read_number b s ''annual_family_income'') (Num 100000) \<Longrightarrow>
           dialogs (snd (validateFinancialFields_v1 b s)) = dialogs s \<and>
           fst (validateFinancialFields_v1 b s) = Return True"
  using assms
  by (auto simp: validateFinancialFields_v1_def sample_products sample_doubles js_gt_def fst_focus_return Let_def
      dest: le_not_gt)

text \<open>
  C7, amended. With amount 5000 and tuition fee 10000 no prompt about the 10% threshold is
  shown. With income 200000 the income prompt is shown (and nothing else), and the call
  returns \<^verbatim>\<open>true\<close> exactly when the user accepts it; with an income of at most 100000, ten
  times the tuition fee, the call returns \<^verbatim>\<open>true\<close> without any prompt. This holds for both
  texts of \<^verbatim>\<open>validateFinancialFields\<close>.
\<close>

theorem sample_application_needs_income_confirmation:
  "read_number b s ''amount_requested'' = Num 5000 \<and>
   read_number b s ''tuition_fee'' = Num 10000 \<longrightarrow>
     (let income = read_number b s ''annual_family_income'';
          asked = (if confirm b (IncomeAppearsHigh (Num 200000)) then Return True
                   else if getElementById s ''reason_for_application'' = None then Throw
                   else Return False)
      in (income = Num 200000 \<longrightarrow>
            dialogs (snd (validateFinancialFields b s)) = dialogs s @ [IncomeAppearsHigh (Num 200000)] \<and>
            fst (validateFinancialFields b s) = asked \<and>
            dialogs (snd (validateFinancialFields_v1 b s)) = dialogs s @ [IncomeAppearsHigh (Num 200000)] \<and>
            fst (validateFinancialFields_v1 b s) = asked) \<and>
         (js_le income (Num 100000) \<longrightarrow>
            dialogs (snd (validateFinancialFields b s)) = dialogs s \<and>
            fst (validateFinancialFields b s) = Return True \<and>
            dialogs (snd (validateFinancialFields_v1 b s)) = dialogs s \<and>
            fst (validateFinancialFields_v1 b s) = Return True))"
  unfolding Let_def
  using sample_application [of b s] sample_application_v1 [of b s]
  by blast

theorem sample_application_witness:
  "read_number accepting (finance_page ''200000'' ''10000'' ''5000'') ''amount_requested'' = Num 5000 \<and>
   read_number accepting (finance_page ''200000'' ''10000'' ''5000'') ''tuition_fee'' = Num 10000 \<and>
   read_number accepting (finance_page ''200000'' ''10000'' ''5000'') ''annual_family_income'' = Num 200000 \<and>
   dialogs (snd (validateFinancialFields accepting (finance_page ''200000'' ''10000'' ''5000'')))
     = [IncomeAppearsHigh (Num 200000)] \<and>
   fst (validateFinancialFields accepting (finance_page ''200000'' ''10000'' ''5000'')) = Return True \<and>
   js_le (read_number declining (finance_page ''10000'' ''10000'' ''5000'') ''annual_family_income'')
     (Num 100000) \<and>
   dialogs (snd (validateFinancialFields declining (finance_page ''10000'' ''10000'' ''5000''))) = [] \<and>
   fst (validateFinancialFields declining (finance_page ''10000'' ''10000'' ''5000'')) = Return True"
  using sample_application_needs_income_confirmation
          [of accepting "finance_page ''200000'' ''10000'' ''5000''"]
        sample_application_needs_income_confirmation
          [of declining "finance_page ''10000'' ''10000'' ''5000''"]
  by (simp add: finance_page_numbers decimal_numbers Let_def)

subsection \<open>What step validation leaves alone\<close>

lemma validateStep_frame [simp]:
  "currentStep (snd (validateStep k s)) = currentStep s"
  "data_steps (snd (validateStep k s)) = data_steps s"
  "elements (snd (validateStep k s)) = elements s"
  "containers (snd (validateStep k s)) = containers s"
  "submitted (snd (validateStep k s)) = submitted s"
  "submitBtn_disabled (snd (validateStep k s)) = submitBtn_disabled s"
  "submitBtn_text (snd (validateStep k s)) = submitBtn_text s"
  "dialogs (snd (validateStep k s)) = dialogs s"
  by (simp_all add: validateStep_def showError_def clearMessages_def Let_def
      split: option.splits prod.splits bool.splits)

lemma validateStep_v1_frame [simp]:
  "currentStep (snd (validateStep_v1 k s)) = currentStep s"
  "data_steps (snd (validateStep_v1 k s)) = data_steps s"
  "elements (snd (validateStep_v1 k s)) = elements s"
  "containers (snd (validateStep_v1 k s)) = containers s"
  "submitted (snd (validateStep_v1 k s)) = submitted s"
  "submitBtn_disabled (snd (validateStep_v1 k s)) = submitBtn_disabled s"
  "submitBtn_text (snd (validateStep_v1 k s)) = submitBtn_text s"
  "dialogs (snd (validateStep_v1 k s)) = dialogs s"
  by (simp_all add: validateStep_v1_def showError_def clearMessages_def Let_def
      split: option.splits prod.splits bool.splits)

lemma validateStep_v0_frame [simp]:
  "currentStep (snd (validateStep_v0 k s)) = currentStep s"
  "data_steps (snd (validateStep_v0 k s)) = data_steps s"
  "elements (snd (validateStep_v0 k s)) = elements s"
  "containers (snd (validateStep_v0 k s)) = containers s"
  "radio_groups (snd (validateStep_v0 k s)) = radio_groups s"
  by (simp_all add: validateStep_v0_def showError_def clearMessages_def
      split: option.splits prod.splits)

lemma focus_return_frame [simp]:
  "currentStep (snd (focus_return i r s)) = currentStep s"
  "data_steps (snd (focus_return i r s)) = data_steps s"
  "elements (snd (focus_return i r s)) = elements s"
  "containers (snd (focus_return i r s)) = containers s"
  "radio_groups (snd (focus_return i r s)) = radio_groups s"
  "submitted (snd (focus_return i r s)) = submitted s"
  "submitBtn_disabled (snd (focus_return i r s)) = submitBtn_disabled s"
  "submitBtn_text (snd (focus_return i r s)) = submitBtn_text s"
  by (simp_all add: focus_return_def split: option.splits)

lemma showError_frame [simp]:
  "currentStep (showError m s) = currentStep s"
  "data_steps (showError m s) = data_steps s"
  "elements (showError m s) = elements s"
  "containers (showError m s) = containers s"
  "radio_groups (showError m s) = radio_groups s"
  "submitted (showError m s) = submitted s"
  "submitBtn_disabled (showError m s) = submitBtn_disabled s"
  "submitBtn_text (showError m s) = submitBtn_text s"
  by (simp_all add: showError_def)

lemma ask_frame [simp]:
  "currentStep (ask m s) = currentStep s"
  "data_steps (ask m s) = data_steps s"
  "elements (ask m s) = elements s"
  "containers (ask m s) = containers s"
  "radio_groups (ask m s) = radio_groups s"
  "submitted (ask m s) = submitted s"
  "submitBtn_disabled (ask m s) = submitBtn_disabled s"
  "submitBtn_text (ask m s) = submitBtn_text s"
  by (simp_all add: ask_def)

lemma clearMessages_frame [simp]:
  "currentStep (clearMessages s) = currentStep s"
  "data_steps (clearMessages s) = data_steps s"
  "elements (clearMessages s) = elements s"
  "containers (clearMessages s) = containers s"
  "radio_groups (clearMessages s) = radio_groups s"
  "submitted (clearMessages s) = submitted s"
  "submitBtn_disabled (clearMessages s) = submitBtn_disabled s"
  "submitBtn_text (clearMessages s) = submitBtn_text s"
  "errorMsg (clearMessages s) = None"
  "successMsg (clearMessages s) = None"
  by (simp_all add: clearMessages_def)

lemma validateFinancialFields_frame [simp]:
  "currentStep (snd (validateFinancialFields b s)) = currentStep s"
  "data_steps (snd (validateFinancialFields b s)) = data_steps s"
  "elements (snd (validateFinancialFields b s)) = elements s"
  "containers (snd (validateFinancialFields b s)) = containers s"
  "radio_groups (snd (validateFinancialFields b s)) = radio_groups s"
  "submitted (snd (validateFinancialFields b s)) = submitted s"
  "submitBtn_disabled (snd (validateFinancialFields b s)) = submitBtn_disabled s"
  "submitBtn_text (snd (validateFinancialFields b s)) = submitBtn_text s"
  by (simp_all add: validateFinancialFields_def Let_def)

lemma validateFinancialFields_v1_frame [simp]:
  "currentStep (snd (validateFinancialFields_v1 b s)) = currentStep s"
  "data_steps (snd (validateFinancialFields_v1 b s)) = data_steps s"
  "elements (snd (validateFinancialFields_v1 b s)) = elements s"
  "containers (snd (validateFinancialFields_v1 b s)) = containers s"
  "radio_groups (snd (validateFinancialFields_v1 b s)) = radio_groups s"
  "submitted (snd (validateFinancialFields_v1 b s)) = submitted s"
  "submitBtn_disabled (snd (validateFinancialFields_v1 b s)) = submitBtn_disabled s"
  "submitBtn_text (snd (validateFinancialFields_v1 b s)) = submitBtn_text s"
  by (simp_all add: validateFinancialFields_v1_def Let_def)

lemma enter_step_frame [simp]:
  "currentStep (enter_step n s) = n"
  "data_steps (enter_step n s) = data_steps s"
  "elements (enter_step n s) = elements s"
  "containers (enter_step n s) = containers s"
  "radio_groups (enter_step n s) = radio_groups s"
  "submitted (enter_step n s) = submitted s"
  "submitBtn_disabled (enter_step n s) = submitBtn_disabled s"
  "submitBtn_text (enter_step n s) = submitBtn_text s"
  by (simp_all add: enter_step_def)

lemma totalSteps_cong: "data_steps s' = data_steps s \<Longrightarrow> totalSteps s' = totalSteps s"
  by (simp add: totalSteps_def)

subsection \<open>The step a call of goToStep ends in\<close>

lemma goToStep_currentStep:
  "currentStep (snd (goToStep b n s)) =
     (if currentStep s < n then
        (if fst (validateStep (currentStep s) s) \<and>
            (currentStep s = 2 \<longrightarrow>
               fst (validateFinancialFields b (snd (validateStep 2 s))) = Return True)
         then n else currentStep s)
      else n)"
proof (cases "validateStep (currentStep s) s")
  case (Pair ok s1)
  then have c: "currentStep s1 = currentStep s"
    using validateStep_frame(1) [of "currentStep s" s] by simp
  show ?thesis
  proof (cases "validateFinancialFields b s1")
    case (Pair r s2)
    then have "currentStep s2 = currentStep s1"
      using validateFinancialFields_frame(1) [of b s1] by simp
    with Pair \<open>validateStep (currentStep s) s = (ok, s1)\<close> c show ?thesis
      by (cases r) (auto simp: goToStep_def split: bool.splits)
  qed
qed

lemma goToStep_v1_currentStep:
  "currentStep (goToStep_v1 n s) =
     (if currentStep s < n \<and> \<not> fst (validateStep_v1 (currentStep s) s) then currentStep s else n)"
proof (cases "validateStep_v1 (currentStep s) s")
  case (Pair ok s1)
  then have "currentStep s1 = currentStep s"
    using validateStep_v1_frame(1) [of "currentStep s" s] by simp
  with Pair show ?thesis
    by (auto simp: goToStep_v1_def split: bool.splits)
qed

lemma goToStep_v0_currentStep:
  "currentStep (snd (goToStep_v0 n s)) =
     (if currentStep s < n \<and> fst (validateStep_v0 (currentStep s) s) \<noteq> Return True
      then currentStep s else n)"
proof (cases "validateStep_v0 (currentStep s) s")
  case (Pair r s1)
  then have "currentStep s1 = currentStep s"
    using validateStep_v0_frame(1) [of "currentStep s" s] by simp
  with Pair show ?thesis
    by (cases r) (auto simp: goToStep_v0_def split: bool.splits)
qed

text \<open>
  C3. In each of the three texts of \<^verbatim>\<open>goToStep\<close>: a call with a target above the current
  step leaves \<open>currentStep\<close> as it is when \<^verbatim>\<open>validateStep(currentStep)\<close> fails (in
  \<^verbatim>\<open>src/app.js\<close>: returns \<^verbatim>\<open>false\<close> or throws), and a call with a target at or below the
  current step sets \<open>currentStep\<close> to the target, whatever the page holds.
\<close>

theorem goToStep_forward_gated_backward_free:
  "(currentStep s < n \<and> \<not> fst (validateStep (currentStep s) s) \<longrightarrow>
      currentStep (snd (goToStep b n s)) = currentStep s) \<and>
   (n \<le> currentStep s \<longrightarrow>
      currentStep (snd (goToStep b n s)) = n \<and> fst (goToStep b n s) = Return ()) \<and>
   (currentStep s < n \<and> \<not> fst (validateStep_v1 (currentStep s) s) \<longrightarrow>
      currentStep (goToStep_v1 n s) = currentStep s) \<and>
   (n \<le> currentStep s \<longrightarrow> currentStep (goToStep_v1 n s) = n) \<and>
   (currentStep s < n \<and> fst (validateStep_v0 (currentStep s) s) \<noteq> Return True \<longrightarrow>
      currentStep (snd (goToStep_v0 n s)) = currentStep s) \<and>
   (n \<le> currentStep s \<longrightarrow>
      currentStep (snd (goToStep_v0 n s)) = n \<and> fst (goToStep_v0 n s) = Return ())"
  by (simp add: goToStep_currentStep goToStep_v1_currentStep goToStep_v0_currentStep)
     (simp add: goToStep_def goToStep_v0_def)


lemma wizard_page_step1:
  "validateStep 1 (wizard_page [] k)
     = (False, (showError (FillIn ''Full Name'') (wizard_page [] k))\<lparr>focused := Some ''fullName''\<rparr>)"
  "validateStep_v1 1 (wizard_page [] k)
     = (False, (showError FillAllRequired (wizard_page [] k))\<lparr>focused := Some ''fullName''\<rparr>)"
  "validateStep_v0 1 (wizard_page [] k)
     = (Return False, (showError FillAllRequired (wizard_page [] k))\<lparr>focused := Some ''fullName''\<rparr>)"
  by (simp_all add: validateStep_def validateStep_v1_def validateStep_v0_def wizard_page_def
      page_def text_input_def totalSteps_def requiredEls_def hidden_def closest_conditional_def
      invalid_message_def invalid_message_v1_def blank_def or_default_def)

theorem goToStep_witness:
  "currentStep (wizard_page [] 1) < 2 \<and>
   \<not> fst (validateStep (currentStep (wizard_page [] 1)) (wizard_page [] 1)) \<and>
   currentStep (snd (goToStep declining 2 (wizard_page [] 1))) = 1 \<and>
   \<not> fst (validateStep_v1 (currentStep (wizard_page [] 1)) (wizard_page [] 1)) \<and>
   currentStep (goToStep_v1 2 (wizard_page [] 1)) = 1 \<and>
   fst (validateStep_v0 (currentStep (wizard_page [] 1)) (wizard_page [] 1)) \<noteq> Return True \<and>
   currentStep (snd (goToStep_v0 2 (wizard_page [] 1))) = 1 \<and>
   1 \<le> currentStep (wizard_page [] 3) \<and>
   currentStep (snd (goToStep declining 1 (wizard_page [] 3))) = 1 \<and>
   currentStep (goToStep_v1 1 (wizard_page [] 3)) = 1 \<and>
   currentStep (snd (goToStep_v0 1 (wizard_page [] 3))) = 1"
proof -
  have c: "currentStep (wizard_page [] k) = k" for k
    by (simp add: wizard_page_def page_def)
  show ?thesis
    using goToStep_forward_gated_backward_free [of "wizard_page [] 1" 2 declining]
      goToStep_forward_gated_backward_free [of "wizard_page [] 3" 1 declining]
    by (simp add: c wizard_page_step1)
qed

subsection \<open>The financial rule on leaving step 2\<close>

lemma getElementById_cong:
  "elements s' = elements s \<Longrightarrow> getElementById s' i = getElementById s i"
  by (simp add: getElementById_def)

lemma read_number_cong:
  "elements s' = elements s \<Longrightarrow> read_number b s' i = read_number b s i"
  by (simp add: read_number_def getElementById_def)

lemma focus_return_blocks: "fst (focus_return i False s) \<noteq> Return True"
  by (simp add: fst_focus_return)

lemma financial_branches:
  "js_le (read_number b s ''tuition_fee'') (Num 0) \<Longrightarrow>
     validateFinancialFields b s
       = focus_return ''tuition_fee'' False (showError TuitionNotPositive s)"
  "\<not> js_le (read_number b s ''tuition_fee'') (Num 0) \<Longrightarrow>
   js_le (read_number b s ''amount_requested'') (Num 0) \<Longrightarrow>
     validateFinancialFields b s
       = focus_return ''amount_requested'' False (showError AmountNotPositive s)"
  "\<not> js_le (read_number b s ''tuition_fee'') (Num 0) \<Longrightarrow>
   \<not> js_le (read_number b s ''amount_requested'') (Num 0) \<Longrightarrow>
   js_gt (read_number b s ''amount_requested'') (read_number b s ''tuition_fee'') \<Longrightarrow>
     validateFinancialFields b s
       = focus_return ''amount_requested'' False
           (showError (AmountExceedsTuition (read_number b s ''amount_requested'')
                         (read_number b s ''tuition_fee'')) s)"
  by (simp_all add: validateFinancialFields_def)

lemma financial_branches_v1:
  "js_le (read_number b s ''tuition_fee'') (Num 0) \<Longrightarrow>
     validateFinancialFields_v1 b s
       = focus_return ''tuition_fee'' False (showError TuitionNotPositive s)"
  "\<not> js_le (read_number b s ''tuition_fee'') (Num 0) \<Longrightarrow>
   js_gt (read_number b s ''amount_requested'') (read_number b s ''tuition_fee'') \<Longrightarrow>
     validateFinancialFields_v1 b s
       = focus_return ''amount_requested'' False
           (showError (AmountExceedsTuition (read_number b s ''amount_requested'')
                         (read_number b s ''tuition_fee'')) s)"
  by (simp_all add: validateFinancialFields_v1_def)

lemma hard_rules_block:
  assumes "js_le (read_number b s ''tuition_fee'') (Num 0) \<or>
           js_le (read_number b s ''amount_requested'') (Num 0) \<or>
           js_gt (read_number b s ''amount_requested'') (read_number b s ''tuition_fee'')"
  shows "fst (validateFinancialFields b s) \<noteq> Return True"
    and "errorMsg (snd (validateFinancialFields b s)) =
           Some (if js_le (read_number b s ''tuition_fee'') (Num 0) then TuitionNotPositive
                 else if js_le (read_number b s ''amount_requested'') (Num 0) then AmountNotPositive
                 else AmountExceedsTuition (read_number b s ''amount_requested'')
                        (read_number b s ''tuition_fee''))"
proof -
  consider (fee) "js_le (read_number b s ''tuition_fee'') (Num 0)"
    | (amount) "\<not> js_le (read_number b s ''tuition_fee'') (Num 0)"
        "js_le (read_number b s ''amount_requested'') (Num 0)"
    | (over) "\<not> js_le (read_number b s ''tuition_fee'') (Num 0)"
        "\<not> js_le (read_number b s ''amount_requested'') (Num 0)"
        "js_gt (read_number b s ''amount_requested'') (read_number b s ''tuition_fee'')"
    using assms by blast
  then have "fst (validateFinancialFields b s) \<noteq> Return True \<and>
      errorMsg (snd (validateFinancialFields b s)) =
           Some (if js_le (read_number b s ''tuition_fee'') (Num 0) then TuitionNotPositive
                 else if js_le (read_number b s ''amount_requested'') (Num 0) then AmountNotPositive
                 else AmountExceedsTuition (read_number b s ''amount_requested'')
                        (read_number b s ''tuition_fee''))"
  proof cases
    case fee
    then show ?thesis by (simp add: financial_branches(1) focus_return_blocks)
  next
    case amount
    then show ?thesis by (simp add: financial_branches(2) focus_return_blocks)
  next
    case over
    then show ?thesis by (simp add: financial_branches(3) focus_return_blocks)
  qed
  then show "fst (validateFinancialFields b s) \<noteq> Return True"
    and "errorMsg (snd (validateFinancialFields b s)) =
           Some (if js_le (read_number b s ''tuition_fee'') (Num 0) then TuitionNotPositive
                 else if js_le (read_number b s ''amount_requested'') (Num 0) then AmountNotPositive
                 else AmountExceedsTuition (read_number b s ''amount_requested'')
                        (read_number b s ''tuition_fee''))"
    by simp_all
qed

lemma hard_rules_block_v1:
  assumes "js_le (read_number b s ''tuition_fee'') (Num 0) \<or>
           js_gt (read_number b s ''amount_requested'') (read_number b s ''tuition_fee'')"
  shows "fst (validateFinancialFields_v1 b s) \<noteq> Return True"
    and "errorMsg (snd (validateFinancialFields_v1 b s)) =
           Some (if js_le (read_number b s ''tuition_fee'') (Num 0) then TuitionNotPositive
                 else AmountExceedsTuition (read_number b s ''amount_requested'')
                        (read_number b s ''tuition_fee''))"
proof -
  consider (fee) "js_le (read_number b s ''tuition_fee'') (Num 0)"
    | (over) "\<not> js_le (read_number b s ''tuition_fee'') (Num 0)"
        "js_gt (read_number b s ''amount_requested'') (read_number b s ''tuition_fee'')"
    using assms by blast
  then have "fst (validateFinancialFields_v1 b s) \<noteq> Return True \<and>
      errorMsg (snd (validateFinancialFields_v1 b s)) =
           Some (if js_le (read_number b s ''tuition_fee'') (Num 0) then TuitionNotPositive
                 else AmountExceedsTuition (read_number b s ''amount_requested'')
                        (read_number b s ''tuition_fee''))"
  proof cases
    case fee
    then show ?thesis by (simp add: financial_branches_v1(1) focus_return_blocks)
  next
    case over
    then show ?thesis by (simp add: financial_branches_v1(2) focus_return_blocks)
  qed
  then show "fst (validateFinancialFields_v1 b s) \<noteq> Return True"
    and "errorMsg (snd (validateFinancialFields_v1 b s)) =
           Some (if js_le (read_number b s ''tuition_fee'') (Num 0) then TuitionNotPositive
                 else AmountExceedsTuition (read_number b s ''amount_requested'')
                        (read_number b s ''tuition_fee''))"
    by simp_all
qed

lemma below_threshold_needs_confirmation:
  assumes below: "js_lt (read_number b s ''amount_requested'')
             (js_mul (read_number b s ''tuition_fee'') tenth)"
    and ok: "fst (validateFinancialFields b s) = Return True"
  shows "confirm b (BelowTenPercent (read_number b s ''amount_requested'')) \<and>
         BelowTenPercent (read_number b s ''amount_requested'')
           \<in> set (dialogs (snd (validateFinancialFields b s)))"
proof -
  have hard: "\<not> js_le (read_number b s ''tuition_fee'') (Num 0)"
    "\<not> js_le (read_number b s ''amount_requested'') (Num 0)"
    "\<not> js_gt (read_number b s ''amount_requested'') (read_number b s ''tuition_fee'')"
    using ok hard_rules_block(1) [of b s] by blast+
  have yes: "confirm b (BelowTenPercent (read_number b s ''amount_requested''))"
  proof (rule ccontr)
    assume "\<not> confirm b (BelowTenPercent (read_number b s ''amount_requested''))"
    with hard below have "validateFinancialFields b s
        = focus_return ''amount_requested'' False
            (ask (BelowTenPercent (read_number b s ''amount_requested'')) s)"
      by (simp add: validateFinancialFields_def)
    with ok show False by (simp add: focus_return_blocks)
  qed
  with hard below have "BelowTenPercent (read_number b s ''amount_requested'')
      \<in> set (dialogs (snd (validateFinancialFields b s)))"
    by (simp add: validateFinancialFields_def Let_def)
  with yes show ?thesis by simp
qed

lemma below_threshold_needs_confirmation_v1:
  assumes below: "js_lt (read_number b s ''amount_requested'')
             (js_mul (read_number b s ''tuition_fee'') tenth)"
    and ok: "fst (validateFinancialFields_v1 b s) = Return True"
  shows "confirm b (BelowTenPercent (read_number b s ''amount_requested'')) \<and>
         BelowTenPercent (read_number b s ''amount_requested'')
           \<in> set (dialogs (snd (validateFinancialFields_v1 b s)))"
proof -
  have hard: "\<not> js_le (read_number b s ''tuition_fee'') (Num 0)"
    "\<not> js_gt (read_number b s ''amount_requested'') (read_number b s ''tuition_fee'')"
    using ok hard_rules_block_v1(1) [of b s] by blast+
  have yes: "confirm b (BelowTenPercent (read_number b s ''amount_requested''))"
  proof (rule ccontr)
    assume "\<not> confirm b (BelowTenPercent (read_number b s ''amount_requested''))"
    with hard below have "validateFinancialFields_v1 b s
        = focus_return ''amount_requested'' False
            (ask (BelowTenPercent (read_number b s ''amount_requested'')) s)"
      by (simp add: validateFinancialFields_v1_def)
    with ok show False by (simp add: focus_return_blocks)
  qed
  with hard below have "BelowTenPercent (read_number b s ''amount_requested'')
      \<in> set (dialogs (snd (validateFinancialFields_v1 b s)))"
    by (simp add: validateFinancialFields_v1_def Let_def)
  with yes show ?thesis by simp
qed

lemma blocked_stays_on_step_2:
  assumes "currentStep s = 2" and "2 < n"
    and "js_le (read_number b s ''tuition_fee'') (Num 0) \<or>
         js_le (read_number b s ''amount_requested'') (Num 0) \<or>
         js_gt (read_number b s ''amount_requested'') (read_number b s ''tuition_fee'')"
  shows "currentStep (snd (goToStep b n s)) = 2"
proof -
  let ?s1 = "snd (validateStep 2 s)"
  have "read_number b ?s1 i = read_number b s i" for i
    by (rule read_number_cong) simp
  with assms(3) have "fst (validateFinancialFields b ?s1) \<noteq> Return True"
    using hard_rules_block(1) [of b ?s1] by simp
  with assms(1,2) show ?thesis
    by (simp add: goToStep_currentStep)
qed

lemma rounded_threshold:
  "read_number declining (finance_page ''0'' ''45035996273704992'' ''4503599627370499'')
     ''amount_requested'' = Num 4503599627370499"
  "read_number declining (finance_page ''0'' ''45035996273704992'' ''4503599627370499'')
     ''tuition_fee'' = Num 45035996273704992"
  "read_number declining (finance_page ''0'' ''45035996273704992'' ''4503599627370499'')
     ''annual_family_income'' = Num 0"
  "js_mul (Num 45035996273704992) tenth = Num 4503599627370499"
  "to_double 450359962737049920 = Num 450359962737049920"
  by (simp_all add: finance_page_numbers parse_or_zero_def declining_def decimal_def
      tenth_value to_double_eval)

text \<open>
  C5, as stated, fails in two ways. The earlier text of \<^verbatim>\<open>validateFinancialFields\<close>
  (\<^verbatim>\<open>src/unnamed/part_000\<close> 216-248, \<^verbatim>\<open>src/staticfiles/app.js\<close> 573-609) has no check of the
  amount against 0: with amount 0 and tuition fee 1000 the call returns \<^verbatim>\<open>true\<close> once the user
  accepts the prompt about the 10% threshold. And the threshold of every text is the
  product \<^verbatim>\<open>tuitionFee * 0.1\<close> as a double: with amount 4503599627370499 and tuition fee
  45035996273704992 the amount is below a tenth of the fee, the product is the amount
  itself, and the later text (\<^verbatim>\<open>src/static/app.js\<close> 280-318) returns \<^verbatim>\<open>true\<close> with no prompt at
  all.
\<close>

theorem financial_rule_counterexample:
  "js_le (read_number accepting (finance_page ''0'' ''1000'' ''0'') ''amount_requested'') (Num 0) \<and>
   fst (validateFinancialFields_v1 accepting (finance_page ''0'' ''1000'' ''0'')) = Return True \<and>
   read_number declining (finance_page ''0'' ''45035996273704992'' ''4503599627370499'')
     ''amount_requested'' = Num 4503599627370499 \<and>
   read_number declining (finance_page ''0'' ''45035996273704992'' ''4503599627370499'')
     ''tuition_fee'' = Num 45035996273704992 \<and>
   (4503599627370499 :: rat) < 45035996273704992 / 10 \<and>
   fst (validateFinancialFields declining
          (finance_page ''0'' ''45035996273704992'' ''4503599627370499'')) = Return True \<and>
   dialogs (snd (validateFinancialFields declining
          (finance_page ''0'' ''45035996273704992'' ''4503599627370499''))) = []"
proof -
  have "js_le (read_number accepting (finance_page ''0'' ''1000'' ''0'') ''amount_requested'') (Num 0)"
    "fst (validateFinancialFields_v1 accepting (finance_page ''0'' ''1000'' ''0'')) = Return True"
    by (simp_all add: validateFinancialFields_v1_def finance_page_numbers decimal_numbers
        sample_products sample_doubles js_gt_def)
  moreover have "fst (validateFinancialFields declining
          (finance_page ''0'' ''45035996273704992'' ''4503599627370499'')) = Return True"
    "dialogs (snd (validateFinancialFields declining
          (finance_page ''0'' ''45035996273704992'' ''4503599627370499''))) = []"
    by (simp_all add: validateFinancialFields_def rounded_threshold js_gt_def
        finance_page_numbers(7))
  ultimately show ?thesis by (simp add: rounded_threshold)
qed

text \<open>
  C5, amended. \<^verbatim>\<open>validateFinancialFields\<close> of \<^verbatim>\<open>src/static/app.js\<close> (280-318) does not return
  \<^verbatim>\<open>true\<close>, and shows the message of the rule, whenever the tuition fee is at most 0, the
  amount is at most 0, or the amount exceeds the tuition fee; \<^verbatim>\<open>goToStep\<close> of
  \<^verbatim>\<open>src/staticfiles/app.js\<close> (141-158), which calls the same text, then stays on step 2. The
  earlier text (\<^verbatim>\<open>src/unnamed/part_000\<close> 216-248, \<^verbatim>\<open>src/staticfiles/app.js\<close> 573-609) has no
  check of the amount against 0: it does not return \<^verbatim>\<open>true\<close>, and shows the message of the
  rule, whenever the tuition fee is at most 0 or the amount exceeds it. In both texts, when
  the amount is below the product \<^verbatim>\<open>tuitionFee * 0.1\<close> as the script computes it (rounded to a
  double), the call returns \<^verbatim>\<open>true\<close> only after the prompt about the threshold was shown and
  accepted.
\<close>

theorem financial_rule_blocks_or_asks:
  "(let a = read_number b s ''amount_requested'';
        t = read_number b s ''tuition_fee''
    in (js_le t (Num 0) \<or> js_le a (Num 0) \<or> js_gt a t \<longrightarrow>
          fst (validateFinancialFields b s) \<noteq> Return True \<and>
          errorMsg (snd (validateFinancialFields b s)) =
            Some (if js_le t (Num 0) then TuitionNotPositive
                  else if js_le a (Num 0) then AmountNotPositive
                  else AmountExceedsTuition a t) \<and>
          (currentStep s = 2 \<and> 2 < n \<longrightarrow> currentStep (snd (goToStep b n s)) = 2)) \<and>
       (js_le t (Num 0) \<or> js_gt a t \<longrightarrow>
          fst (validateFinancialFields_v1 b s) \<noteq> Return True \<and>
          errorMsg (snd (validateFinancialFields_v1 b s)) =
            Some (if js_le t (Num 0) then TuitionNotPositive else AmountExceedsTuition a t)) \<and>
       (js_lt a (js_mul t tenth) \<and> fst (validateFinancialFields b s) = Return True \<longrightarrow>
          confirm b (BelowTenPercent a) \<and>
          BelowTenPercent a \<in> set (dialogs (snd (validateFinancialFields b s)))) \<and>
       (js_lt a (js_mul t tenth) \<and> fst (validateFinancialFields_v1 b s) = Return True \<longrightarrow>
          confirm b (BelowTenPercent a) \<and>
          BelowTenPercent a \<in> set (dialogs (snd (validateFinancialFields_v1 b s)))))"
  unfolding Let_def
  using hard_rules_block [of b s] hard_rules_block_v1 [of b s]
    below_threshold_needs_confirmation [of b s] below_threshold_needs_confirmation_v1 [of b s]
    blocked_stays_on_step_2 [of s n b]
  by blast

theorem financial_rule_witness:
  "js_le (read_number declining (finance_page ''0'' ''10000'' ''0'') ''amount_requested'') (Num 0) \<and>
   fst (validateFinancialFields declining (finance_page ''0'' ''10000'' ''0'')) = Return False \<and>
   errorMsg (snd (validateFinancialFields declining (finance_page ''0'' ''10000'' ''0'')))
     = Some AmountNotPositive \<and>
   currentStep (finance_page ''0'' ''10000'' ''0'') = 2 \<and>
   currentStep (snd (goToStep declining 3 (finance_page ''0'' ''10000'' ''0''))) = 2 \<and>
   js_gt (read_number declining (finance_page ''0'' ''10000'' ''15000'') ''amount_requested'')
     (read_number declining (finance_page ''0'' ''10000'' ''15000'') ''tuition_fee'') \<and>
   fst (validateFinancialFields_v1 declining (finance_page ''0'' ''10000'' ''15000'')) = Return False \<and>
   errorMsg (snd (validateFinancialFields_v1 declining (finance_page ''0'' ''10000'' ''15000'')))
     = Some (AmountExceedsTuition (Num 15000) (Num 10000)) \<and>
   js_lt (read_number accepting (finance_page ''0'' ''200000'' ''5000'') ''amount_requested'')
     (js_mul (read_number accepting (finance_page ''0'' ''200000'' ''5000'') ''tuition_fee'') tenth) \<and>
   fst (validateFinancialFields accepting (finance_page ''0'' ''200000'' ''5000'')) = Return True \<and>
   fst (validateFinancialFields_v1 accepting (finance_page ''0'' ''200000'' ''5000'')) = Return True \<and>
   dialogs (snd (validateFinancialFields accepting (finance_page ''0'' ''200000'' ''5000'')))
     = [BelowTenPercent (Num 5000)]"
proof -
  have c: "currentStep (finance_page i f a) = 2" for i f a
    by (simp add: finance_page_def page_def)
  have r: "fst (validateFinancialFields declining (finance_page ''0'' ''10000'' ''0'')) = Return False"
    "fst (validateFinancialFields_v1 declining (finance_page ''0'' ''10000'' ''15000'')) = Return False"
    "fst (validateFinancialFields accepting (finance_page ''0'' ''200000'' ''5000'')) = Return True"
    "fst (validateFinancialFields_v1 accepting (finance_page ''0'' ''200000'' ''5000'')) = Return True"
    "dialogs (snd (validateFinancialFields accepting (finance_page ''0'' ''200000'' ''5000'')))
       = [BelowTenPercent (Num 5000)]"
    by (simp_all add: validateFinancialFields_def validateFinancialFields_v1_def
        finance_page_numbers decimal_numbers sample_products sample_doubles js_gt_def fst_focus_return)
  show ?thesis
    using financial_rule_blocks_or_asks [of declining "finance_page ''0'' ''10000'' ''0''" 3]
      financial_rule_blocks_or_asks [of declining "finance_page ''0'' ''10000'' ''15000''" 3]
      financial_rule_blocks_or_asks [of accepting "finance_page ''0'' ''200000'' ''5000''" 3]
    by (simp add: finance_page_numbers decimal_numbers sample_products sample_doubles js_gt_def c r Let_def)
qed

subsection \<open>Checking a radio button\<close>

lemma find_append_cases:
  "find P (xs @ ys) = (case find P xs of None \<Rightarrow> find P ys | Some x \<Rightarrow> Some x)"
  by (induction xs) auto

lemma find_map_same:
  assumes "\<And>x. x \<in> set xs \<Longrightarrow> P (f x) = P x"
    and "\<And>x. x \<in> set xs \<Longrightarrow> P x \<Longrightarrow> f x = x"
  shows "find P (map f xs) = find P xs"
  using assms by (induction xs) auto

lemma find_map_none:
  assumes "\<And>x. x \<in> set xs \<Longrightarrow> \<not> P (f x)"
  shows "find P (map f xs) = None"
  using assms by (induction xs) auto

lemma uncheck_group_attrs [simp]:
  "tagName (uncheck_group r e) = tagName e"
  "el_name (uncheck_group r e) = el_name e"
  "el_value (uncheck_group r e) = el_value e"
  "el_type (uncheck_group r e) = el_type e"
  "in_section (uncheck_group r e) = in_section e"
  "selects n v (uncheck_group r e) = selects n v e"
  by (simp_all add: uncheck_group_def selects_def)

lemma uncheck_group_checked: "checked (uncheck_group r e) \<Longrightarrow> checked e"
  by (simp add: uncheck_group_def split: if_splits)

lemma uncheck_group_other: "el_name e \<noteq> el_name r \<Longrightarrow> uncheck_group r e = e"
  by (simp add: uncheck_group_def)

text \<open>The list before and after the first element the selector finds.\<close>

lemma first_selected:
  assumes "find (selects n v) es = Some radio"
  obtains pre rest where "es = pre @ radio # rest"
    and "\<And>e. e \<in> set pre \<Longrightarrow> \<not> selects n v e"
    and "selects n v radio"
    and "set_checked n v es
           = map (uncheck_group radio) pre @ radio\<lparr>checked := True\<rparr> # map (uncheck_group radio) rest"
proof -
  let ?pre = "takeWhile (\<lambda>e. \<not> selects n v e) es"
  from assms have "dropWhile (\<lambda>e. \<not> selects n v e) es \<noteq> []"
    by (induction es) (auto split: if_splits)
  then obtain r rest where d: "dropWhile (\<lambda>e. \<not> selects n v e) es = r # rest"
    by (cases "dropWhile (\<lambda>e. \<not> selects n v e) es") auto
  then have split: "es = ?pre @ r # rest"
    by (metis takeWhile_dropWhile_id)
  have pre: "\<not> selects n v e" if "e \<in> set ?pre" for e
    using that by (auto dest: set_takeWhileD)
  have sel: "selects n v r"
    using d by (metis hd_dropWhile list.sel(1) list.distinct(1))
  have "find (selects n v) es = Some r"
    by (subst split) (simp add: find_append_cases find_map_none [of _ _ id, simplified] pre sel
        find_None_iff[THEN iffD2])
  with assms have "r = radio" by simp
  with d split pre sel show ?thesis
    by (intro that [of ?pre rest]) (auto simp: set_checked_def)
qed

lemma set_checked_absent:
  "find (selects n v) es = None \<Longrightarrow> set_checked n v es = es"
proof -
  assume "find (selects n v) es = None"
  then have d: "dropWhile (\<lambda>e. \<not> selects n v e) es = []"
    by (simp add: find_None_iff dropWhile_eq_Nil_conv)
  show ?thesis unfolding set_checked_def d by simp
qed


lemma checked_input_none:
  "checked_input s n = None \<Longrightarrow> e \<in> set (elements s) \<Longrightarrow>
   \<not> (tagName e = ''INPUT'' \<and> el_name e = n \<and> checked e)"
  by (auto simp: checked_input_def find_None_iff)

text \<open>After the assignment the selected radio button is the checked input of its name.\<close>

lemma checked_after_set:
  assumes "find (selects n v) (elements s) = Some radio" and "checked_input s n = None"
  shows "checked_input (s\<lparr>elements := set_checked n v (elements s)\<rparr>) n
           = Some (radio\<lparr>checked := True\<rparr>)"
proof -
  from assms(1) obtain pre rest where es: "elements s = pre @ radio # rest"
    and pre: "\<And>e. e \<in> set pre \<Longrightarrow> \<not> selects n v e"
    and sel: "selects n v radio"
    and new: "set_checked n v (elements s)
           = map (uncheck_group radio) pre @ radio\<lparr>checked := True\<rparr> # map (uncheck_group radio) rest"
    by (rule first_selected) blast
  have "\<not> (tagName (uncheck_group radio e) = ''INPUT'' \<and> el_name (uncheck_group radio e) = n \<and>
            checked (uncheck_group radio e))" if "e \<in> set pre" for e
    using that checked_input_none [OF assms(2), of e] es
    by (auto dest: uncheck_group_checked)
  then have "find (\<lambda>e. tagName e = ''INPUT'' \<and> el_name e = n \<and> checked e)
               (map (uncheck_group radio) pre) = None"
    by (intro find_map_none) simp
  with sel show ?thesis
    by (simp add: checked_input_def new find_append_cases selects_def)
qed

text \<open>The selected radio button stays the first element the selector finds.\<close>

lemma selected_after_set:
  assumes "find (selects n v) es = Some radio"
  shows "find (selects n v) (set_checked n v es) = Some (radio\<lparr>checked := True\<rparr>)"
proof -
  from assms obtain pre rest where es: "es = pre @ radio # rest"
    and pre: "\<And>e. e \<in> set pre \<Longrightarrow> \<not> selects n v e"
    and sel: "selects n v radio"
    and new: "set_checked n v es
           = map (uncheck_group radio) pre @ radio\<lparr>checked := True\<rparr> # map (uncheck_group radio) rest"
    by (rule first_selected) blast
  have "find (selects n v) (map (uncheck_group radio) pre) = None"
    by (intro find_map_none) (simp add: pre)
  with sel show ?thesis
    by (simp add: new find_append_cases selects_def)
qed

text \<open>Inputs of another name are not touched.\<close>

lemma set_checked_other_name:
  assumes "\<And>e. P e \<Longrightarrow> el_name e \<noteq> n"
  shows "find P (set_checked n v es) = find P es"
proof (cases "find (selects n v) es")
  case None
  then show ?thesis by (simp add: set_checked_absent)
next
  case (Some radio)
  then obtain pre rest where es: "es = pre @ radio # rest"
    and pre: "\<And>e. e \<in> set pre \<Longrightarrow> \<not> selects n v e"
    and sel: "selects n v radio"
    and new: "set_checked n v es
           = map (uncheck_group radio) pre @ radio\<lparr>checked := True\<rparr> # map (uncheck_group radio) rest"
    by (rule first_selected) blast
  from sel have rn: "el_name radio = n" by (simp add: selects_def)
  have same: "P (uncheck_group radio e) = P e" for e
  proof (cases "el_name e = n")
    case True
    then show ?thesis
      using assms [of e] assms [of "uncheck_group radio e"] by auto
  next
    case False
    then show ?thesis by (simp add: uncheck_group_other rn)
  qed
  have fixed: "P e \<Longrightarrow> uncheck_group radio e = e" for e
    using assms rn by (simp add: uncheck_group_other)
  have r: "\<not> P radio" "\<not> P (radio\<lparr>checked := True\<rparr>)"
    using assms [of radio] assms [of "radio\<lparr>checked := True\<rparr>"] rn by auto
  have m: "find P (map (uncheck_group radio) xs) = find P xs" for xs
    by (intro find_map_same) (simp_all add: same fixed)
  have "find P (set_checked n v es)
          = find P (map (uncheck_group radio) pre @ radio\<lparr>checked := True\<rparr> # map (uncheck_group radio) rest)"
    by (simp only: new)
  also have "\<dots> = find P (pre @ radio # rest)"
    by (simp add: find_append_cases r m split: option.splits)
  also have "\<dots> = find P es"
    by (simp only: es)
  finally show ?thesis .
qed

lemma checked_input_other:
  "m \<noteq> n \<Longrightarrow> checked_input (s\<lparr>elements := set_checked n v (elements s)\<rparr>) m = checked_input s m"
  by (simp add: checked_input_def) (rule set_checked_other_name, auto)

lemma default_present_after_set:
  "(find (selects m w) (set_checked n v es) = None) = (find (selects m w) es = None)"
proof (cases "find (selects n v) es")
  case None
  then show ?thesis by (simp add: set_checked_absent)
next
  case (Some radio)
  then obtain pre rest where es: "es = pre @ radio # rest"
    and pre: "\<And>e. e \<in> set pre \<Longrightarrow> \<not> selects n v e"
    and sel: "selects n v radio"
    and new: "set_checked n v es
           = map (uncheck_group radio) pre @ radio\<lparr>checked := True\<rparr> # map (uncheck_group radio) rest"
    by (rule first_selected) blast
  have u: "(find (selects m w) (map (uncheck_group radio) xs) = None) = (find (selects m w) xs = None)"
    for xs
    by (induction xs) auto
  have "(find (selects m w) (set_checked n v es) = None)
          = (find (selects m w) (map (uncheck_group radio) pre @ radio\<lparr>checked := True\<rparr>
               # map (uncheck_group radio) rest) = None)"
    by (simp only: new)
  also have "\<dots> = (find (selects m w) (pre @ radio # rest) = None)"
    using u [of pre] u [of rest]
    by (auto simp: find_append_cases selects_def split: option.splits)
  also have "\<dots> = (find (selects m w) es = None)"
    by (simp only: es)
  finally show ?thesis .
qed


subsection \<open>Default answers\<close>

lemma setRadioDefault_settled:
  "checked_input s n \<noteq> None \<or> find (selects n v) (elements s) = None \<Longrightarrow>
   setRadioDefault n v s = s"
  by (auto simp: setRadioDefault_def split: option.splits)

lemma setRadioDefault_sets:
  assumes "checked_input s n = None" and "find (selects n v) (elements s) = Some radio"
  shows "checked_input (setRadioDefault n v s) n = Some (radio\<lparr>checked := True\<rparr>)"
  using assms by (simp add: setRadioDefault_def checked_after_set)

lemma selects_found: "find (selects n v) es = Some radio \<Longrightarrow> el_value radio = v"
  by (auto simp: find_Some_iff selects_def)

lemma getRadioValue_setRadioDefault:
  "getRadioValue (setRadioDefault n v s) n =
     (case getRadioValue s n of
        Some x \<Rightarrow> Some x
      | None \<Rightarrow> if find (selects n v) (elements s) = None then None else Some v)"
proof (cases "checked_input s n")
  case (Some e)
  then show ?thesis
    by (simp add: setRadioDefault_settled getRadioValue_def)
next
  case None
  show ?thesis
  proof (cases "find (selects n v) (elements s)")
    case absent: None
    with None show ?thesis
      by (simp add: setRadioDefault_settled getRadioValue_def)
  next
    case (Some radio)
    with None show ?thesis
      by (simp add: getRadioValue_def setRadioDefault_sets selects_found)
  qed
qed

lemma setRadioDefault_other:
  "m \<noteq> n \<Longrightarrow> checked_input (setRadioDefault n v s) m = checked_input s m"
  by (simp add: setRadioDefault_def checked_input_other split: option.splits)

lemma setRadioDefault_present:
  "(find (selects m w) (elements (setRadioDefault n v s)) = None)
     = (find (selects m w) (elements s) = None)"
  by (simp add: setRadioDefault_def default_present_after_set split: option.splits)

lemma getRadioValue_other:
  "m \<noteq> n \<Longrightarrow> getRadioValue (setRadioDefault n v s) m = getRadioValue s m"
  by (simp add: getRadioValue_def setRadioDefault_other)

lemma settled_after:
  "checked_input (setRadioDefault n v s) n \<noteq> None \<or>
   find (selects n v) (elements (setRadioDefault n v s)) = None"
proof (cases "checked_input s n = None \<and> find (selects n v) (elements s) \<noteq> None")
  case True
  then show ?thesis by (auto simp: setRadioDefault_sets)
next
  case False
  then show ?thesis by (auto simp: setRadioDefault_settled)
qed

lemma settled_kept:
  assumes "checked_input s m \<noteq> None \<or> find (selects m w) (elements s) = None"
  shows "checked_input (setRadioDefault n v s) m \<noteq> None \<or>
         find (selects m w) (elements (setRadioDefault n v s)) = None"
proof (cases "m = n")
  case True
  with assms show ?thesis
    by (auto simp: setRadioDefault_settled setRadioDefault_present)
next
  case False
  with assms show ?thesis
    by (simp add: setRadioDefault_other setRadioDefault_present)
qed

lemma group_names_differ:
  "''orphan'' \<noteq> ''disability''" "''orphan'' \<noteq> ''previousBursary''"
  "''orphan'' \<noteq> ''singleParent''" "''disability'' \<noteq> ''orphan''"
  "''disability'' \<noteq> ''previousBursary''" "''disability'' \<noteq> ''singleParent''"
  "''previousBursary'' \<noteq> ''orphan''" "''previousBursary'' \<noteq> ''disability''"
  "''previousBursary'' \<noteq> ''singleParent''" "''singleParent'' \<noteq> ''orphan''"
  "''singleParent'' \<noteq> ''disability''" "''singleParent'' \<noteq> ''previousBursary''"
  by simp_all

lemma setDefaults_value:
  assumes "g \<in> set [''orphan'', ''disability'', ''previousBursary'', ''singleParent'']"
  shows "getRadioValue (setDefaults s) g =
     (case getRadioValue s g of
        Some x \<Rightarrow> Some x
      | None \<Rightarrow> if find (selects g ''False'') (elements s) = None then None else Some ''False'')"
proof -
  note other = getRadioValue_other [OF group_names_differ(1)] getRadioValue_other [OF group_names_differ(2)]
    getRadioValue_other [OF group_names_differ(3)] getRadioValue_other [OF group_names_differ(4)]
    getRadioValue_other [OF group_names_differ(5)] getRadioValue_other [OF group_names_differ(6)]
    getRadioValue_other [OF group_names_differ(7)] getRadioValue_other [OF group_names_differ(8)]
    getRadioValue_other [OF group_names_differ(9)] getRadioValue_other [OF group_names_differ(10)]
    getRadioValue_other [OF group_names_differ(11)] getRadioValue_other [OF group_names_differ(12)]
  consider "g = ''orphan''" | "g = ''disability''" | "g = ''previousBursary''" | "g = ''singleParent''"
    using assms by auto
  then show ?thesis
  proof cases
    case 1
    show ?thesis unfolding 1 setDefaults_def
      by (simp only: other getRadioValue_setRadioDefault setRadioDefault_present)
  next
    case 2
    show ?thesis unfolding 2 setDefaults_def
      by (simp only: other getRadioValue_setRadioDefault setRadioDefault_present)
  next
    case 3
    show ?thesis unfolding 3 setDefaults_def
      by (simp only: other getRadioValue_setRadioDefault setRadioDefault_present)
  next
    case 4
    show ?thesis unfolding 4 setDefaults_def
      by (simp only: other getRadioValue_setRadioDefault setRadioDefault_present)
  qed
qed

lemma setDefaults_idempotent: "setDefaults (setDefaults s) = setDefaults s"
proof -
  let ?s = "setDefaults s"
  have 1: "setRadioDefault ''orphan'' ''False'' ?s = ?s"
    unfolding setDefaults_def
    by (rule setRadioDefault_settled, rule settled_kept, rule settled_kept, rule settled_kept,
        rule settled_after)
  have 2: "setRadioDefault ''disability'' ''False'' ?s = ?s"
    unfolding setDefaults_def
    by (rule setRadioDefault_settled, rule settled_kept, rule settled_kept, rule settled_after)
  have 3: "setRadioDefault ''previousBursary'' ''False'' ?s = ?s"
    unfolding setDefaults_def
    by (rule setRadioDefault_settled, rule settled_kept, rule settled_after)
  have 4: "setRadioDefault ''singleParent'' ''False'' ?s = ?s"
    unfolding setDefaults_def
    by (rule setRadioDefault_settled, rule settled_after)
  have "setDefaults ?s =
      setRadioDefault ''singleParent'' ''False''
       (setRadioDefault ''previousBursary'' ''False''
          (setRadioDefault ''disability'' ''False''
             (setRadioDefault ''orphan'' ''False'' ?s)))"
    by (rule setDefaults_def)
  also have "\<dots> = ?s"
    by (simp only: 1 2 3 4)
  finally show ?thesis .
qed

lemma earlier_defaults_overwrite:
  assumes "find (selects n v) (elements s) = Some radio"
  shows "find (selects n v) (elements (setRadioDefault_v1 n v s)) = Some (radio\<lparr>checked := True\<rparr>)"
    and "setDefault_v0 n v s = (Return (), setRadioDefault_v1 n v s)"
  using assms by (simp_all add: setRadioDefault_v1_def setDefault_v0_def selected_after_set)

text \<open>
  C8, as stated, fails for \<^verbatim>\<open>setRadioDefault\<close> of \<^verbatim>\<open>src/unnamed/part_000\<close>: on a page whose
  \<^verbatim>\<open>orphan\<close> group has the option \<^verbatim>\<open>True\<close> checked, start-up checks \<^verbatim>\<open>False\<close> instead.
\<close>

theorem defaults_counterexample:
  "getRadioValue (orphan_page ''True'' ''False'' True) ''orphan'' = Some ''True'' \<and>
   getRadioValue (setDefaults_v1 (orphan_page ''True'' ''False'' True)) ''orphan'' = Some ''False''"
  by (simp add: getRadioValue_def checked_input_def setDefaults_v1_def setRadioDefault_v1_def
      orphan_page_def page_def radio_input_def selects_def set_checked_def uncheck_group_def)

text \<open>
  C8, amended. \<^verbatim>\<open>setRadioDefault\<close> of \<^verbatim>\<open>src/staticfiles/app.js\<close> and \<^verbatim>\<open>src/static/app.js\<close>
  leaves the page as it is when an input of the group is checked already, and otherwise
  checks the default option when the page has it. So after start-up each of the four groups
  has the answer it had, or the default \<^verbatim>\<open>False\<close> when it had none and the option exists,
  and running the start-up defaults again changes nothing. The earlier scripts
  (\<^verbatim>\<open>src/unnamed/part_000\<close>, \<^verbatim>\<open>src/app.js\<close>) check the default option whenever the page has
  it, whatever was checked before.
\<close>

theorem defaults_only_when_unset:
  "(checked_input s n \<noteq> None \<longrightarrow> setRadioDefault n v s = s) \<and>
   (checked_input s n = None \<and> find (selects n v) (elements s) \<noteq> None \<longrightarrow>
      getRadioValue (setRadioDefault n v s) n = Some v) \<and>
   (g \<in> set [''orphan'', ''disability'', ''previousBursary'', ''singleParent''] \<longrightarrow>
      getRadioValue (setDefaults s) g =
        (case getRadioValue s g of
           Some x \<Rightarrow> Some x
         | None \<Rightarrow> if find (selects g ''False'') (elements s) = None then None else Some ''False'')) \<and>
   setDefaults (setDefaults s) = setDefaults s \<and>
   (find (selects n v) (elements s) = Some radio \<longrightarrow>
      find (selects n v) (elements (setRadioDefault_v1 n v s)) = Some (radio\<lparr>checked := True\<rparr>) \<and>
      setDefault_v0 n v s = (Return (), setRadioDefault_v1 n v s))"
proof (intro conjI impI)
  show "setRadioDefault n v s = s" if "checked_input s n \<noteq> None"
    using that by (simp add: setRadioDefault_settled)
  show "getRadioValue (setRadioDefault n v s) n = Some v"
    if "checked_input s n = None \<and> find (selects n v) (elements s) \<noteq> None"
    using that by (simp add: getRadioValue_setRadioDefault) (simp add: getRadioValue_def)
  show "getRadioValue (setDefaults s) g =
        (case getRadioValue s g of
           Some x \<Rightarrow> Some x
         | None \<Rightarrow> if find (selects g ''False'') (elements s) = None then None else Some ''False'')"
    if "g \<in> set [''orphan'', ''disability'', ''previousBursary'', ''singleParent'']"
    using that by (rule setDefaults_value)
  show "setDefaults (setDefaults s) = setDefaults s"
    by (rule setDefaults_idempotent)
  show "find (selects n v) (elements (setRadioDefault_v1 n v s)) = Some (radio\<lparr>checked := True\<rparr>)"
    if "find (selects n v) (elements s) = Some radio"
    using that by (rule earlier_defaults_overwrite)
  show "setDefault_v0 n v s = (Return (), setRadioDefault_v1 n v s)"
    if "find (selects n v) (elements s) = Some radio"
    using that by (rule earlier_defaults_overwrite)
qed

theorem defaults_witness:
  "checked_input (orphan_page ''True'' ''False'' True) ''orphan'' \<noteq> None \<and>
   setRadioDefault ''orphan'' ''False'' (orphan_page ''True'' ''False'' True)
     = orphan_page ''True'' ''False'' True \<and>
   checked_input (orphan_page ''True'' ''False'' False) ''orphan'' = None \<and>
   find (selects ''orphan'' ''False'') (elements (orphan_page ''True'' ''False'' False)) \<noteq> None \<and>
   getRadioValue (setRadioDefault ''orphan'' ''False'' (orphan_page ''True'' ''False'' False)) ''orphan''
     = Some ''False'' \<and>
   ''orphan'' \<in> set [''orphan'', ''disability'', ''previousBursary'', ''singleParent''] \<and>
   getRadioValue (setDefaults (orphan_page ''True'' ''False'' True)) ''orphan'' = Some ''True'' \<and>
   find (selects ''orphan'' ''No'') (elements (orphan_page ''Yes'' ''No'' True))
     = Some (radio_input ''orphan'' ''No'' False) \<and>
   setDefault_v0 ''orphan'' ''No'' (orphan_page ''Yes'' ''No'' True)
     = (Return (), setRadioDefault_v1 ''orphan'' ''No'' (orphan_page ''Yes'' ''No'' True))"
proof -
  have facts:
    "checked_input (orphan_page ''True'' ''False'' True) ''orphan''
       = Some (radio_input ''orphan'' ''True'' True)"
    "checked_input (orphan_page ''True'' ''False'' False) ''orphan'' = None"
    "find (selects ''orphan'' ''False'') (elements (orphan_page ''True'' ''False'' False))
       = Some (radio_input ''orphan'' ''False'' False)"
    "find (selects ''orphan'' ''No'') (elements (orphan_page ''Yes'' ''No'' True))
       = Some (radio_input ''orphan'' ''No'' False)"
    by (simp_all add: checked_input_def orphan_page_def page_def radio_input_def selects_def)
  have v: "getRadioValue (orphan_page ''True'' ''False'' True) ''orphan'' = Some ''True''"
    by (simp add: getRadioValue_def facts radio_input_def)
  show ?thesis
    using defaults_only_when_unset [of "orphan_page ''True'' ''False'' True" "''orphan''" "''False''" "''orphan''"]
      defaults_only_when_unset [of "orphan_page ''True'' ''False'' False" "''orphan''" "''False''" "''orphan''"]
      defaults_only_when_unset [of "orphan_page ''Yes'' ''No'' True" "''orphan''" "''No''" "''orphan''"
        "radio_input ''orphan'' ''No'' False"]
    by (simp add: facts v)
qed

subsection \<open>Conditional visibility\<close>

lemma find_map_value:
  assumes "\<And>x. P (f x) = P x" and "\<And>x. g (f x) = g x"
  shows "map_option g (find P (map f xs)) = map_option g (find P xs)"
  using assms by (induction xs) auto

lemma visible_showHide:
  "visible (showHideConditional i v s) j =
     (if j = i \<and> containers s i \<noteq> None then v else visible s j)"
  by (auto simp: visible_def showHideConditional_def split: option.splits)

lemma present_showHide:
  "(containers (showHideConditional i v s) j = None) = (containers s j = None)"
  by (auto simp: showHideConditional_def split: option.splits)

lemma manage_required_attrs [simp]:
  "tagName (manage_required v e) = tagName e"
  "el_name (manage_required v e) = el_name e"
  "el_value (manage_required v e) = el_value e"
  "checked (manage_required v e) = checked e"
  "in_section (manage_required v e) = in_section e"
  "ancestors (manage_required v e) = ancestors e"
  by (simp_all add: manage_required_def Let_def)

lemma getRadioValue_showHide [simp]:
  "getRadioValue (showHideConditional i v s) n = getRadioValue s n"
proof (cases "containers s i")
  case None
  then show ?thesis by (simp add: showHideConditional_def)
next
  case (Some c)
  then show ?thesis
    unfolding getRadioValue_def checked_input_def showHideConditional_def
    by (simp, intro find_map_value) simp_all
qed

lemma getRadioValue_handle [simp]:
  "getRadioValue (handleConditionalFields s) n = getRadioValue s n"
  by (simp add: handleConditionalFields_def Let_def)

lemma present_handle:
  "(containers (handleConditionalFields s) j = None) = (containers s j = None)"
  by (simp add: handleConditionalFields_def Let_def present_showHide)

lemma note_names_differ:
  "''orphanNote'' \<noteq> ''disabilityDetails''" "''orphanNote'' \<noteq> ''previousBursaryDetails''"
  "''orphanNote'' \<noteq> ''previousBursaryDetailsContinued''" "''orphanNote'' \<noteq> ''providerNote''"
  "''disabilityDetails'' \<noteq> ''previousBursaryDetails''"
  "''disabilityDetails'' \<noteq> ''previousBursaryDetailsContinued''"
  "''disabilityDetails'' \<noteq> ''providerNote''"
  "''previousBursaryDetails'' \<noteq> ''previousBursaryDetailsContinued''"
  "''previousBursaryDetails'' \<noteq> ''providerNote''"
  "''previousBursaryDetailsContinued'' \<noteq> ''providerNote''"
  by simp_all

lemma managed_group_cases:
  assumes "g \<in> set managed_groups"
  shows "g = ''orphanNote'' \<or> g = ''disabilityDetails'' \<or> g = ''previousBursaryDetails'' \<or>
         g = ''previousBursaryDetailsContinued'' \<or> g = ''providerNote''"
  using assms by (simp only: managed_groups_def list.set insert_iff empty_iff simp_thms)

lemma visible_after_handle:
  assumes "g \<in> set managed_groups" and "containers s g \<noteq> None"
  shows "visible (handleConditionalFields s) g = computed_visibility (getRadioValue s) g"
proof -
  note ne = note_names_differ note_names_differ [symmetric]
  note defs = handleConditionalFields_def Let_def visible_showHide present_showHide
    computed_visibility_def
  from managed_group_cases [OF assms(1)] show ?thesis
  proof (elim disjE)
    assume "g = ''orphanNote''"
    with assms(2) show ?thesis by (simp add: defs ne)
  next
    assume "g = ''disabilityDetails''"
    with assms(2) show ?thesis by (simp add: defs ne)
  next
    assume "g = ''previousBursaryDetails''"
    with assms(2) show ?thesis by (simp add: defs ne)
  next
    assume "g = ''previousBursaryDetailsContinued''"
    with assms(2) show ?thesis by (simp add: defs ne)
  next
    assume "g = ''providerNote''"
    with assms(2) show ?thesis by (simp add: defs ne)
  qed
qed


lemma computed_depends_on_mentions:
  assumes "\<And>m. m \<in> set (mentions g) \<Longrightarrow> ans m = ans' m"
  shows "computed_visibility ans g = computed_visibility ans' g"
proof -
  have "ans ''orphan'' = ans' ''orphan''" if "g = ''orphanNote'' \<or> g = ''providerNote''"
    using that assms [of "''orphan''"] by (auto simp: mentions_def)
  moreover have "ans ''disability'' = ans' ''disability''" if "g = ''disabilityDetails''"
    using that assms [of "''disability''"] by (simp add: mentions_def)
  moreover have "ans ''previousBursary'' = ans' ''previousBursary''"
    if "g = ''previousBursaryDetails'' \<or> g = ''previousBursaryDetailsContinued''"
    using that assms [of "''previousBursary''"] by (auto simp: mentions_def)
  moreover have "ans ''bothParentsAlive'' = ans' ''bothParentsAlive''"
    "ans ''singleParent'' = ans' ''singleParent''" if "g = ''providerNote''"
    using that assms [of "''bothParentsAlive''"] assms [of "''singleParent''"]
    by (simp_all add: mentions_def)
  ultimately show ?thesis
    by (auto simp: computed_visibility_def)
qed

lemma declared_when_answered:
  assumes "ans ''bothParentsAlive'' \<in> {Some ''True'', Some ''False''}"
  shows "computed_visibility ans g = declared_visibility ans g"
  using assms by (auto simp: computed_visibility_def declared_visibility_def)

lemma unrelated_radio_keeps_visibility:
  assumes "g \<in> set managed_groups" and "containers s g \<noteq> None" and "n \<notin> set (mentions g)"
  shows "visible (radio_change n v (handleConditionalFields s)) g
           = visible (handleConditionalFields s) g"
proof -
  let ?s1 = "handleConditionalFields s"
  let ?s2 = "?s1\<lparr>elements := set_checked n v (elements ?s1)\<rparr>"
  have present: "containers ?s2 g \<noteq> None"
    using assms(2) by (simp add: present_handle)
  have "getRadioValue ?s2 m = getRadioValue s m" if "m \<in> set (mentions g)" for m
  proof -
    from that assms(3) have "m \<noteq> n" by auto
    then have "getRadioValue ?s2 m = getRadioValue ?s1 m"
      by (simp add: getRadioValue_def checked_input_other)
    then show ?thesis by simp
  qed
  then have "computed_visibility (getRadioValue ?s2) g = computed_visibility (getRadioValue s) g"
    by (rule computed_depends_on_mentions)
  then show ?thesis
    by (simp add: radio_change_def visible_after_handle [OF assms(1) present]
        visible_after_handle [OF assms(1,2)])
qed

lemma set_display_other:
  "j \<noteq> i \<Longrightarrow> containers (snd (set_display i v s)) j = containers s j"
  by (simp add: set_display_def split: option.splits)

lemma set_display_visible:
  "containers s i \<noteq> None \<Longrightarrow>
   set_display i v s = (Return (), snd (set_display i v s)) \<and>
   visible (snd (set_display i v s)) i = v \<and>
   ((containers (snd (set_display i v s)) j = None) = (containers s j = None)) \<and>
   elements (snd (set_display i v s)) = elements s"
  by (auto simp: set_display_def visible_def split: option.splits)

lemma and_then_snd_containers:
  assumes "containers (snd r) g = c" and "\<And>s'. containers s' g = c \<Longrightarrow> containers (snd (f s')) g = c"
  shows "containers (snd (and_then r f)) g = c"
  using assms by (cases r) (auto simp: and_then_def split: completion.splits)

lemma mentioned_by:
  "''orphan'' \<notin> set (mentions g) \<Longrightarrow> g \<noteq> ''orphanNote'' \<and> g \<noteq> ''providerNote''"
  "''disability'' \<notin> set (mentions g) \<Longrightarrow> g \<noteq> ''disabilityDetails''"
  "''previousBursary'' \<notin> set (mentions g) \<Longrightarrow>
     g \<noteq> ''previousBursaryDetails'' \<and> g \<noteq> ''previousBursaryDetailsContinued''"
  "''bothParentsAlive'' \<notin> set (mentions g) \<Longrightarrow> g \<noteq> ''providerNote''"
  by (auto simp: mentions_def)

lemma unrelated_radio_v0:
  assumes "n \<notin> set (mentions g)"
  shows "containers (snd (radio_change_v0 n v s)) g = containers s g"
proof (cases "n = ''orphan''")
  case True
  with assms have g: "g \<noteq> ''orphanNote''" "g \<noteq> ''providerNote''"
    using mentioned_by(1) [of g] by simp_all
  have "containers (snd (and_then (set_display ''orphanNote'' (v = ''Yes'') s)
          (set_display ''providerNote'' (v = ''Yes'')))) g = containers s g"
    using g by (intro and_then_snd_containers) (simp_all add: set_display_other)
  then show ?thesis by (simp add: radio_change_v0_def True)
next
  case no: False
  show ?thesis
  proof (cases "n = ''disability''")
    case True
    with assms have "g \<noteq> ''disabilityDetails''"
      using mentioned_by(2) [of g] by simp
    then show ?thesis by (simp add: radio_change_v0_def True set_display_other)
  next
    case nd: False
    show ?thesis
    proof (cases "n = ''previousBursary''")
      case True
      with assms have g: "g \<noteq> ''previousBursaryDetails''" "g \<noteq> ''previousBursaryDetailsContinued''"
        using mentioned_by(3) [of g] by simp_all
      have "containers (snd (and_then (set_display ''previousBursaryDetails'' (v = ''Yes'') s)
              (set_display ''previousBursaryDetailsContinued'' (v = ''Yes'')))) g = containers s g"
        using g by (intro and_then_snd_containers) (simp_all add: set_display_other)
      then show ?thesis by (simp add: radio_change_v0_def True)
    next
      case np: False
      show ?thesis
      proof (cases "n = ''bothParentsAlive''")
        case True
        with assms have "g \<noteq> ''providerNote''"
          using mentioned_by(4) [of g] by simp
        then show ?thesis
          by (simp add: radio_change_v0_def True set_display_other split: option.splits)
      next
        case False
        with no nd np show ?thesis by (simp add: radio_change_v0_def)
      qed
    qed
  qed
qed

lemma set_display_present:
  assumes "containers s i = Some c"
  shows "set_display i v s = (Return (), s\<lparr>containers := (containers s)(i \<mapsto> c\<lparr>shown := v\<rparr>)\<rparr>)"
  using assms by (simp add: set_display_def)

lemma orphan_change_v0:
  assumes "containers s ''orphanNote'' \<noteq> None" and "containers s ''providerNote'' \<noteq> None"
  shows "visible (snd (radio_change_v0 ''orphan'' v s)) ''orphanNote'' = (v = ''Yes'')"
    and "visible (snd (radio_change_v0 ''orphan'' v s)) ''providerNote'' = (v = ''Yes'')"
proof -
  from assms obtain c d where c: "containers s ''orphanNote'' = Some c"
    and d: "containers s ''providerNote'' = Some d"
    by auto
  let ?s1 = "s\<lparr>containers := (containers s)(''orphanNote'' \<mapsto> c\<lparr>shown := (v = ''Yes'')\<rparr>)\<rparr>"
  have d1: "containers ?s1 ''providerNote'' = Some d"
    using d by simp
  have r: "radio_change_v0 ''orphan'' v s
      = (Return (), ?s1\<lparr>containers := (containers ?s1)(''providerNote'' \<mapsto> d\<lparr>shown := (v = ''Yes'')\<rparr>)\<rparr>)"
    unfolding radio_change_v0_def
    by (simp only: refl if_True set_display_present [OF c] and_then_def prod.case completion.case
        set_display_present [OF d1])
  show "visible (snd (radio_change_v0 ''orphan'' v s)) ''orphanNote'' = (v = ''Yes'')"
    unfolding r by (simp add: visible_def)
  show "visible (snd (radio_change_v0 ''orphan'' v s)) ''providerNote'' = (v = ''Yes'')"
    unfolding r by (simp add: visible_def)
qed


lemma notes_page_answers:
  "getRadioValue (notes_page alive) ''orphan'' = Some ''False''"
  "getRadioValue (notes_page alive) ''singleParent'' = Some ''False''"
  "getRadioValue (notes_page alive) ''bothParentsAlive'' = (if alive then Some ''True'' else None)"
  "containers (notes_page alive) ''providerNote'' = Some hidden_note"
  "containers (notes_page alive) ''orphanNote'' = Some hidden_note"
  by (simp_all add: getRadioValue_def checked_input_def notes_page_def page_def radio_input_def)

text \<open>
  C4, as stated, fails: when \<^verbatim>\<open>bothParentsAlive\<close> is unset (and \<^verbatim>\<open>orphan\<close> and \<^verbatim>\<open>singleParent\<close>
  are \<^verbatim>\<open>False\<close>), \<^verbatim>\<open>handleConditionalFields\<close> shows \<^verbatim>\<open>providerNote\<close>, while the declared
  expression is false.
\<close>

theorem provider_note_counterexample:
  "visible (handleConditionalFields (notes_page False)) ''providerNote'' \<and>
   \<not> declared_visibility (getRadioValue (notes_page False)) ''providerNote''"
proof -
  have "''providerNote'' \<in> set managed_groups"
    by (simp add: managed_groups_def)
  then have "visible (handleConditionalFields (notes_page False)) ''providerNote''
      = computed_visibility (getRadioValue (notes_page False)) ''providerNote''"
    by (rule visible_after_handle) (simp add: notes_page_answers)
  then show ?thesis
    by (simp add: computed_visibility_def declared_visibility_def notes_page_answers)
qed

text \<open>
  C4, amended. After \<^verbatim>\<open>handleConditionalFields\<close> (\<^verbatim>\<open>src/staticfiles/app.js\<close>,
  \<^verbatim>\<open>src/unnamed/part_000\<close>) every managed group the page has is visible exactly when the
  computed expression holds: the declared one, except that \<^verbatim>\<open>providerNote\<close> is visible iff
  \<^verbatim>\<open>orphan\<close> is \<^verbatim>\<open>True\<close>, or \<^verbatim>\<open>bothParentsAlive\<close> is not \<^verbatim>\<open>True\<close> (\<^verbatim>\<open>False\<close> or unset), or
  \<^verbatim>\<open>singleParent\<close> is \<^verbatim>\<open>True\<close>. So whenever \<^verbatim>\<open>bothParentsAlive\<close> is answered, the visibility is
  the declared expression. Checking a radio button that the expression of a group does not
  mention leaves the visibility of the group as the previous recomputation left it. In
  \<^verbatim>\<open>src/app.js\<close> a change of a radio button likewise leaves the groups alone whose expression
  does not mention it, and a change of \<^verbatim>\<open>orphan\<close> shows or hides both notes by the new value
  alone.
\<close>

theorem visibility_follows_answers:
  "(g \<in> set managed_groups \<and> containers s g \<noteq> None \<longrightarrow>
      visible (handleConditionalFields s) g = computed_visibility (getRadioValue s) g \<and>
      (getRadioValue s ''bothParentsAlive'' \<in> {Some ''True'', Some ''False''} \<longrightarrow>
         visible (handleConditionalFields s) g = declared_visibility (getRadioValue s) g) \<and>
      (n \<notin> set (mentions g) \<longrightarrow>
         visible (radio_change n v (handleConditionalFields s)) g
           = visible (handleConditionalFields s) g)) \<and>
   (n \<notin> set (mentions g) \<longrightarrow> containers (snd (radio_change_v0 n v s)) g = containers s g) \<and>
   (containers s ''orphanNote'' \<noteq> None \<and> containers s ''providerNote'' \<noteq> None \<longrightarrow>
      visible (snd (radio_change_v0 ''orphan'' v s)) ''orphanNote'' = (v = ''Yes'') \<and>
      visible (snd (radio_change_v0 ''orphan'' v s)) ''providerNote'' = (v = ''Yes''))"
proof (intro conjI impI)
  assume g: "g \<in> set managed_groups \<and> containers s g \<noteq> None"
  then show v: "visible (handleConditionalFields s) g = computed_visibility (getRadioValue s) g"
    by (simp add: visible_after_handle)
  show "visible (handleConditionalFields s) g = declared_visibility (getRadioValue s) g"
    if "getRadioValue s ''bothParentsAlive'' \<in> {Some ''True'', Some ''False''}"
    using that v declared_when_answered [of "getRadioValue s" g] by simp
  show "visible (radio_change n v (handleConditionalFields s)) g
          = visible (handleConditionalFields s) g"
    if "n \<notin> set (mentions g)"
    using that g by (simp add: unrelated_radio_keeps_visibility)
next
  assume "n \<notin> set (mentions g)"
  then show "containers (snd (radio_change_v0 n v s)) g = containers s g"
    by (rule unrelated_radio_v0)
next
  assume c: "containers s ''orphanNote'' \<noteq> None \<and> containers s ''providerNote'' \<noteq> None"
  then show "visible (snd (radio_change_v0 ''orphan'' v s)) ''orphanNote'' = (v = ''Yes'')"
    by (simp add: orphan_change_v0)
  from c show "visible (snd (radio_change_v0 ''orphan'' v s)) ''providerNote'' = (v = ''Yes'')"
    by (simp add: orphan_change_v0)
qed

theorem visibility_witness:
  "''providerNote'' \<in> set managed_groups \<and>
   containers (notes_page True) ''providerNote'' \<noteq> None \<and>
   getRadioValue (notes_page True) ''bothParentsAlive'' \<in> {Some ''True'', Some ''False''} \<and>
   \<not> visible (handleConditionalFields (notes_page True)) ''providerNote'' \<and>
   ''disability'' \<notin> set (mentions ''providerNote'') \<and>
   \<not> visible (radio_change ''disability'' ''True'' (handleConditionalFields (notes_page True)))
       ''providerNote'' \<and>
   containers (snd (radio_change_v0 ''disability'' ''Yes'' (notes_page True))) ''providerNote''
     = Some hidden_note \<and>
   containers (notes_page True) ''orphanNote'' \<noteq> None \<and>
   visible (snd (radio_change_v0 ''orphan'' ''Yes'' (notes_page True))) ''providerNote''"
proof -
  have m: "''providerNote'' \<in> set managed_groups" "''disability'' \<notin> set (mentions ''providerNote'')"
    by (simp_all add: managed_groups_def mentions_def)
  show ?thesis
    using visibility_follows_answers [of "''providerNote''" "notes_page True" "''disability''" "''True''"]
      visibility_follows_answers [of "''providerNote''" "notes_page True" "''disability''" "''Yes''"]
      visibility_follows_answers [of "''providerNote''" "notes_page True" "''orphan''" "''Yes''"]
    by (simp add: m notes_page_answers computed_visibility_def declared_visibility_def)
qed

subsection \<open>Hidden fields do not block\<close>

lemma first_blocking_not_hidden:
  "first_blocking s els = Some (el, m) \<Longrightarrow> \<not> hidden s el \<and> el \<in> set els"
  by (induction els) (auto split: if_splits option.splits)

lemma first_blocking_filter:
  "first_blocking s (filter (\<lambda>e. \<not> hidden s e) els) = first_blocking s els"
  by (induction els) (auto split: option.splits)

lemma first_blocking_cong:
  "hidden s' = hidden s \<Longrightarrow> first_blocking s' els = first_blocking s els"
  by (induction els) (auto split: option.splits)

lemma radio_loop_blocks_rendered:
  "snd (radio_loop chk k gs) = Some l \<Longrightarrow>
   \<exists>g\<in>set gs. rendered g \<and> rg_section g = k \<and> required_label g = Some l"
proof (induction gs)
  case Nil
  then show ?case by simp
next
  case (Cons g gs)
  show ?case
  proof (cases "group_checked chk k g")
    case None
    with Cons show ?thesis by (auto split: prod.splits)
  next
    case (Some r)
    obtain groupLabel ok where r: "r = (groupLabel, ok)" by (cases r)
    from Some r have g: "rendered g \<and> rg_section g = k \<and> required_label g = Some groupLabel"
      by (auto simp: group_checked_def split: if_splits option.splits)
    show ?thesis
    proof (cases ok)
      case True
      with Cons Some r show ?thesis by (auto split: prod.splits)
    next
      case False
      with Cons.prems Some r g show ?thesis by auto
    qed
  qed
qed

lemma hidden_cong: "containers s' = containers s \<Longrightarrow> hidden s' = hidden s"
  by (rule ext) (simp add: hidden_def closest_conditional_def split: list.splits)

lemma containers_without [simp]: "containers (without_hidden_required s) = containers s"
  by (simp add: without_hidden_required_def)

lemma hidden_without [simp]: "hidden (without_hidden_required s) = hidden s"
  by (rule hidden_cong) simp

lemma hidden_frame [simp]:
  "hidden (showError m s) = hidden s"
  "hidden (clearMessages s) = hidden s"
  "hidden (s\<lparr>focused := f\<rparr>) = hidden s"
  "hidden (s\<lparr>radio_groups := gs\<rparr>) = hidden s"
  by (rule hidden_cong, simp)+

lemma hidden_required_update [simp]: "hidden s (e\<lparr>required := r\<rparr>) = hidden s e"
  by (simp add: hidden_def closest_conditional_def)

lemma requiredEls_without:
  "requiredEls (without_hidden_required s) k = filter (\<lambda>e. \<not> hidden s e) (requiredEls s k)"
proof -
  have "filter (\<lambda>e. in_section e = Some k \<and> required e)
          (map (\<lambda>e. if hidden s e then e\<lparr>required := False\<rparr> else e) es)
        = filter (\<lambda>e. \<not> hidden s e) (filter (\<lambda>e. in_section e = Some k \<and> required e) es)" for es
    by (induction es) auto
  then show ?thesis
    by (simp add: requiredEls_def without_hidden_required_def)
qed

lemma section_checked_without [simp]:
  "section_checked (without_hidden_required s) k = section_checked s k"
proof (rule ext)
  fix n
  have "(find (\<lambda>e. in_section e = Some k \<and> tagName e = ''INPUT'' \<and> el_name e = n \<and> checked e)
           (map (\<lambda>e. if hidden s e then e\<lparr>required := False\<rparr> else e) es) = None)
        = (find (\<lambda>e. in_section e = Some k \<and> tagName e = ''INPUT'' \<and> el_name e = n \<and> checked e) es
            = None)" for es
    by (induction es) auto
  then show "section_checked (without_hidden_required s) k n = section_checked s k n"
    by (simp add: section_checked_def without_hidden_required_def)
qed

lemma without_commutes [simp]:
  "without_hidden_required (showError m s) = showError m (without_hidden_required s)"
  "without_hidden_required (clearMessages s) = clearMessages (without_hidden_required s)"
  "without_hidden_required (s\<lparr>focused := f\<rparr>) = (without_hidden_required s)\<lparr>focused := f\<rparr>"
  "without_hidden_required (s\<lparr>radio_groups := gs\<rparr>) = (without_hidden_required s)\<lparr>radio_groups := gs\<rparr>"
proof -
  show "without_hidden_required (showError m s) = showError m (without_hidden_required s)"
    by (simp add: without_hidden_required_def) (simp add: showError_def)
  show "without_hidden_required (clearMessages s) = clearMessages (without_hidden_required s)"
    by (simp add: without_hidden_required_def) (simp add: clearMessages_def)
  show "without_hidden_required (s\<lparr>focused := f\<rparr>) = (without_hidden_required s)\<lparr>focused := f\<rparr>"
    by (simp add: without_hidden_required_def)
  show "without_hidden_required (s\<lparr>radio_groups := gs\<rparr>)
          = (without_hidden_required s)\<lparr>radio_groups := gs\<rparr>"
    by (simp add: without_hidden_required_def)
qed

lemma without_frame [simp]:
  "radio_groups (without_hidden_required s) = radio_groups s"
  "totalSteps (without_hidden_required s) = totalSteps s"
  by (simp_all add: without_hidden_required_def totalSteps_def)

lemma validateStep_without:
  "validateStep step (without_hidden_required s)
     = (fst (validateStep step s), without_hidden_required (snd (validateStep step s)))"
proof -
  have fb: "first_blocking (without_hidden_required s) (requiredEls (without_hidden_required s) k)
          = first_blocking s (requiredEls s k)" for k
    by (simp add: requiredEls_without first_blocking_filter first_blocking_cong [of "without_hidden_required s" s])
  show ?thesis
    by (simp add: validateStep_def fb Let_def split: option.splits prod.splits)
qed

lemma validate_all_without:
  "fst (validate_all ks (without_hidden_required s)) = fst (validate_all ks s)"
proof (induction ks arbitrary: s)
  case Nil
  then show ?case by simp
next
  case (Cons k ks)
  obtain ok s1 where v: "validateStep k s = (ok, s1)" by (cases "validateStep k s")
  then have "validateStep k (without_hidden_required s) = (ok, without_hidden_required s1)"
    by (simp add: validateStep_without)
  with v Cons show ?case by (cases ok) simp_all
qed


text \<open>
  C2, as stated, fails for \<^verbatim>\<open>validateStep\<close> of \<^verbatim>\<open>src/app.js\<close> (129-152): a required, empty
  text input inside a hidden group blocks step 1 there (\<^verbatim>\<open>validateStep\<close> of
  \<^verbatim>\<open>src/staticfiles/app.js\<close> passes the same page).
\<close>

theorem hidden_field_counterexample:
  "hidden hidden_field_page
     ((text_input ''disabilityNature'' [] 0)\<lparr>ancestors := [''disabilityDetails'']\<rparr>) \<and>
   requiredEls hidden_field_page 0
     = [(text_input ''disabilityNature'' [] 0)\<lparr>ancestors := [''disabilityDetails'']\<rparr>] \<and>
   fst (validateStep_v0 1 hidden_field_page) = Return False \<and>
   fst (validateStep 1 hidden_field_page) = True"
  by (simp add: hidden_field_page_def page_def text_input_def hidden_note_def hidden_def
      closest_conditional_def requiredEls_def validateStep_v0_def validateStep_def totalSteps_def
      invalid_message_v1_def blank_def)

text \<open>
  C2, amended. In \<^verbatim>\<open>validateStep\<close> of \<^verbatim>\<open>src/staticfiles/app.js\<close> (171-228), for every step
  and every page: the required element that blocks is never inside a hidden conditional
  group; the radio group that blocks is one the layout reports as rendered; and the result
  of \<^verbatim>\<open>validateStep\<close>, as well as the first failing step of the pass over all steps in the
  submit listener of that script, is the same as on the page where the elements inside
  hidden groups are not required. (\<^verbatim>\<open>validateStep\<close> of \<^verbatim>\<open>src/app.js\<close> checks every required
  element, hidden or not.)
\<close>

theorem hidden_required_never_blocks:
  "(first_blocking s (requiredEls s k) = Some (el, m) \<longrightarrow> \<not> hidden s el) \<and>
   (snd (radio_loop (section_checked s k) k (radio_groups s)) = Some l \<longrightarrow>
      (\<exists>g\<in>set (radio_groups s). rendered g \<and> rg_section g = k \<and> required_label g = Some l)) \<and>
   validateStep step (without_hidden_required s)
     = (fst (validateStep step s), without_hidden_required (snd (validateStep step s))) \<and>
   fst (validate_all ks (without_hidden_required s)) = fst (validate_all ks s)"
  using first_blocking_not_hidden [of s "requiredEls s k" el m]
    radio_loop_blocks_rendered [of "section_checked s k" k "radio_groups s" l]
    validateStep_without [of step s] validate_all_without [of ks s]
  by blast

theorem hidden_required_witness:
  "hidden half_hidden_page
     ((text_input ''disabilityNature'' [] 0)\<lparr>ancestors := [''disabilityDetails'']\<rparr>) \<and>
   first_blocking half_hidden_page (requiredEls half_hidden_page 0)
     = Some (text_input ''fullName'' [] 0, FillIn ''Full Name'') \<and>
   \<not> hidden half_hidden_page (text_input ''fullName'' [] 0) \<and>
   snd (radio_loop (section_checked half_hidden_page 0) 0 (radio_groups half_hidden_page))
     = Some ''Orphan'' \<and>
   (\<exists>g\<in>set (radio_groups half_hidden_page).
      rendered g \<and> rg_section g = 0 \<and> required_label g = Some ''Orphan'')"
proof -
  have h: "hidden half_hidden_page
     ((text_input ''disabilityNature'' [] 0)\<lparr>ancestors := [''disabilityDetails'']\<rparr>)"
    by (simp add: half_hidden_page_def page_def text_input_def hidden_def closest_conditional_def
        hidden_note_def)
  have w: "first_blocking half_hidden_page (requiredEls half_hidden_page 0)
     = Some (text_input ''fullName'' [] 0, FillIn ''Full Name'')"
    by (simp add: half_hidden_page_def page_def requiredEls_def text_input_def radio_input_def
        hidden_def closest_conditional_def hidden_note_def invalid_message_def blank_def
        or_default_def)
  have g: "snd (radio_loop (section_checked half_hidden_page 0) 0 (radio_groups half_hidden_page))
     = Some ''Orphan''"
    by (simp add: half_hidden_page_def page_def orphan_group_def unrendered_group_def
        radio_input_def text_input_def section_checked_def group_checked_def)
  show ?thesis
    using hidden_required_never_blocks [of half_hidden_page 0 "text_input ''fullName'' [] 0"
        "FillIn ''Full Name''" "''Orphan''" 1 "[]"]
    by (simp add: h w g)
qed

subsection \<open>Validation does not depend on what validation writes\<close>

lemma group_checked_cong:
  assumes "g'\<lparr>has_error := False\<rparr> = g\<lparr>has_error := False\<rparr>"
  shows "group_checked chk k g' = group_checked chk k g"
proof -
  have "rg_section g' = rg_section g" "required_label g' = required_label g"
    "first_radio_name g' = first_radio_name g" "rendered g' = rendered g"
    using arg_cong [OF assms, of rg_section] arg_cong [OF assms, of required_label]
      arg_cong [OF assms, of first_radio_name] arg_cong [OF assms, of rendered]
    by simp_all
  then show ?thesis by (simp add: group_checked_def split: option.splits)
qed

lemma radio_loop_cong:
  "map (\<lambda>g. g\<lparr>has_error := False\<rparr>) gs' = map (\<lambda>g. g\<lparr>has_error := False\<rparr>) gs \<Longrightarrow>
   snd (radio_loop chk k gs') = snd (radio_loop chk k gs)"
proof (induction gs arbitrary: gs')
  case Nil
  then show ?case by simp
next
  case (Cons g gs)
  then obtain g' rest where gs': "gs' = g' # rest"
    and g: "g'\<lparr>has_error := False\<rparr> = g\<lparr>has_error := False\<rparr>"
    and rest: "map (\<lambda>g. g\<lparr>has_error := False\<rparr>) rest = map (\<lambda>g. g\<lparr>has_error := False\<rparr>) gs"
    by (cases gs') auto
  have c: "group_checked chk k g' = group_checked chk k g"
    using g by (rule group_checked_cong)
  have "snd (radio_loop chk k rest) = snd (radio_loop chk k gs)"
    using rest by (rule Cons.IH)
  then show ?case
    by (auto simp: gs' c split: option.splits prod.splits bool.splits)
qed

lemma radio_loop_groups:
  "map (\<lambda>g. g\<lparr>has_error := False\<rparr>) (fst (radio_loop chk k gs))
     = map (\<lambda>g. g\<lparr>has_error := False\<rparr>) gs"
  by (induction gs) (auto split: option.splits prod.splits bool.splits)

lemma section_checked_cong:
  "elements s' = elements s \<Longrightarrow> section_checked s' k = section_checked s k"
  by (rule ext) (simp add: section_checked_def)

lemma requiredEls_cong:
  "elements s' = elements s \<Longrightarrow> requiredEls s' k = requiredEls s k"
  by (simp add: requiredEls_def)

lemma validateStep_verdict:
  "fst (validateStep k s) =
     (1 \<le> k \<and> k \<le> totalSteps s \<and>
      first_blocking s (requiredEls s (nat (k - 1))) = None \<and>
      snd (radio_loop (section_checked s (nat (k - 1))) (nat (k - 1)) (radio_groups s)) = None)"
  by (auto simp: validateStep_def Let_def split: option.splits prod.splits)

lemma validateStep_same_inputs:
  assumes "elements s' = elements s" and "containers s' = containers s"
    and "data_steps s' = data_steps s"
    and "map (\<lambda>g. g\<lparr>has_error := False\<rparr>) (radio_groups s')
           = map (\<lambda>g. g\<lparr>has_error := False\<rparr>) (radio_groups s)"
  shows "fst (validateStep k s') = fst (validateStep k s)"
proof -
  have fb: "first_blocking s' (requiredEls s' j) = first_blocking s (requiredEls s j)" for j
    by (simp only: requiredEls_cong [OF assms(1)] first_blocking_cong [OF hidden_cong [OF assms(2)]])
  have rl: "snd (radio_loop (section_checked s' j) j (radio_groups s'))
          = snd (radio_loop (section_checked s j) j (radio_groups s))" for j
    by (simp only: section_checked_cong [OF assms(1)] radio_loop_cong [OF assms(4)])
  show ?thesis
    by (simp only: validateStep_verdict fb rl totalSteps_cong [OF assms(3)])
qed

lemma radio_groups_validateStep:
  "radio_groups (snd (validateStep k s)) = radio_groups s \<or>
   radio_groups (snd (validateStep k s))
     = fst (radio_loop (section_checked s (nat (k - 1))) (nat (k - 1)) (radio_groups s))"
  by (auto simp: validateStep_def Let_def showError_def clearMessages_def
      split: option.splits prod.splits)

lemma validateStep_groups:
  "map (\<lambda>g. g\<lparr>has_error := False\<rparr>) (radio_groups (snd (validateStep k s)))
     = map (\<lambda>g. g\<lparr>has_error := False\<rparr>) (radio_groups s)"
proof -
  from radio_groups_validateStep [of k s] show ?thesis
  proof
    assume "radio_groups (snd (validateStep k s)) = radio_groups s"
    then show ?thesis by simp
  next
    assume "radio_groups (snd (validateStep k s))
     = fst (radio_loop (section_checked s (nat (k - 1))) (nat (k - 1)) (radio_groups s))"
    then show ?thesis by (simp only: radio_loop_groups)
  qed
qed

lemma validity_kept:
  "fst (validateStep k (snd (validateStep j s))) = fst (validateStep k s)"
proof (rule validateStep_same_inputs)
  show "elements (snd (validateStep j s)) = elements s" by simp
  show "containers (snd (validateStep j s)) = containers s" by simp
  show "data_steps (snd (validateStep j s)) = data_steps s" by simp
  show "map (\<lambda>g. g\<lparr>has_error := False\<rparr>) (radio_groups (snd (validateStep j s)))
     = map (\<lambda>g. g\<lparr>has_error := False\<rparr>) (radio_groups s)"
    by (rule validateStep_groups)
qed


lemma validateStep_v1_verdict:
  "fst (validateStep_v1 k s) =
     (1 \<le> k \<and> k \<le> totalSteps s \<and>
      first_blocking_v1 (requiredEls s (nat (k - 1))) = None \<and>
      snd (radio_loop (section_checked s (nat (k - 1))) (nat (k - 1)) (radio_groups s)) = None)"
  by (auto simp: validateStep_v1_def Let_def split: option.splits prod.splits)

lemma validateStep_v1_same_inputs:
  assumes "elements s' = elements s" and "data_steps s' = data_steps s"
    and "map (\<lambda>g. g\<lparr>has_error := False\<rparr>) (radio_groups s')
           = map (\<lambda>g. g\<lparr>has_error := False\<rparr>) (radio_groups s)"
  shows "fst (validateStep_v1 k s') = fst (validateStep_v1 k s)"
proof -
  have rl: "snd (radio_loop (section_checked s' j) j (radio_groups s'))
          = snd (radio_loop (section_checked s j) j (radio_groups s))" for j
    by (simp only: section_checked_cong [OF assms(1)] radio_loop_cong [OF assms(3)])
  show ?thesis
    by (simp only: validateStep_v1_verdict requiredEls_cong [OF assms(1)] rl
        totalSteps_cong [OF assms(2)])
qed

lemma radio_groups_validateStep_v1:
  "radio_groups (snd (validateStep_v1 k s)) = radio_groups s \<or>
   radio_groups (snd (validateStep_v1 k s))
     = fst (radio_loop (section_checked s (nat (k - 1))) (nat (k - 1)) (radio_groups s))"
  by (auto simp: validateStep_v1_def Let_def showError_def clearMessages_def
      split: option.splits prod.splits)

lemma validateStep_v1_groups:
  "map (\<lambda>g. g\<lparr>has_error := False\<rparr>) (radio_groups (snd (validateStep_v1 k s)))
     = map (\<lambda>g. g\<lparr>has_error := False\<rparr>) (radio_groups s)"
proof -
  from radio_groups_validateStep_v1 [of k s] show ?thesis
  proof
    assume "radio_groups (snd (validateStep_v1 k s)) = radio_groups s"
    then show ?thesis by simp
  next
    assume "radio_groups (snd (validateStep_v1 k s))
     = fst (radio_loop (section_checked s (nat (k - 1))) (nat (k - 1)) (radio_groups s))"
    then show ?thesis by (simp only: radio_loop_groups)
  qed
qed

subsection \<open>The pass over all steps\<close>

lemma find_upto_first:
  "find P [i..n] = Some k \<Longrightarrow> i \<le> k \<and> k \<le> n \<and> P k \<and> (\<forall>j. i \<le> j \<and> j < k \<longrightarrow> \<not> P j)"
proof (induction i n rule: upto.induct)
  case (1 i n)
  show ?case
  proof (cases "i \<le> n")
    case False
    with "1.prems" show ?thesis by simp
  next
    case True
    then have u: "[i..n] = i # [i + 1..n]" by (simp add: upto_rec1)
    show ?thesis
    proof (cases "P i")
      case True
      with "1.prems" u \<open>i \<le> n\<close> show ?thesis by auto
    next
      case False
      with "1.prems" u have "find P [i + 1..n] = Some k" by simp
      with "1.IH" [OF \<open>i \<le> n\<close>] have
        "i + 1 \<le> k \<and> k \<le> n \<and> P k \<and> (\<forall>j. i + 1 \<le> j \<and> j < k \<longrightarrow> \<not> P j)"
        by simp
      with False show ?thesis
        by (auto simp: order_less_le) (metis add1_zle_eq order_less_le)
    qed
  qed
qed

lemma validate_all_inputs:
  "elements (snd (validate_all ks s)) = elements s \<and>
   containers (snd (validate_all ks s)) = containers s \<and>
   data_steps (snd (validate_all ks s)) = data_steps s \<and>
   currentStep (snd (validate_all ks s)) = currentStep s \<and>
   submitted (snd (validate_all ks s)) = submitted s \<and>
   map (\<lambda>g. g\<lparr>has_error := False\<rparr>) (radio_groups (snd (validate_all ks s)))
     = map (\<lambda>g. g\<lparr>has_error := False\<rparr>) (radio_groups s)"
proof (induction ks arbitrary: s)
  case Nil
  then show ?case by simp
next
  case (Cons k ks)
  obtain ok s1 where v: "validateStep k s = (ok, s1)" by (cases "validateStep k s")
  then have s1: "s1 = snd (validateStep k s)" by simp
  have keep: "elements s1 = elements s" "containers s1 = containers s" "data_steps s1 = data_steps s"
    "currentStep s1 = currentStep s" "submitted s1 = submitted s"
    "map (\<lambda>g. g\<lparr>has_error := False\<rparr>) (radio_groups s1)
       = map (\<lambda>g. g\<lparr>has_error := False\<rparr>) (radio_groups s)"
    unfolding s1 by (simp_all add: validateStep_groups)
  show ?case
  proof (cases ok)
    case True
    with v have "validate_all (k # ks) s = validate_all ks s1" by simp
    with Cons.IH [of s1] keep show ?thesis by simp
  next
    case False
    with v have "validate_all (k # ks) s = (Some k, s1)" by simp
    with keep show ?thesis by simp
  qed
qed

lemma validate_all_first:
  "fst (validate_all ks s) = find (\<lambda>k. \<not> fst (validateStep k s)) ks"
proof (induction ks arbitrary: s)
  case Nil
  then show ?case by simp
next
  case (Cons k ks)
  obtain ok s1 where v: "validateStep k s = (ok, s1)" by (cases "validateStep k s")
  then have s1: "s1 = snd (validateStep k s)" by simp
  have same: "fst (validateStep j s1) = fst (validateStep j s)" for j
    unfolding s1 by (rule validity_kept)
  show ?case
  proof (cases ok)
    case True
    with v have "fst (validate_all (k # ks) s) = fst (validate_all ks s1)" by simp
    also have "\<dots> = find (\<lambda>k. \<not> fst (validateStep k s)) ks"
      by (simp add: Cons.IH same)
    finally show ?thesis using v True by simp
  next
    case False
    with v show ?thesis by simp
  qed
qed


lemma validate_all_v1_inputs:
  "elements (snd (validate_all_v1 ks s)) = elements s \<and>
   data_steps (snd (validate_all_v1 ks s)) = data_steps s \<and>
   currentStep (snd (validate_all_v1 ks s)) = currentStep s \<and>
   submitted (snd (validate_all_v1 ks s)) = submitted s \<and>
   submitBtn_text (snd (validate_all_v1 ks s)) = submitBtn_text s \<and>
   map (\<lambda>g. g\<lparr>has_error := False\<rparr>) (radio_groups (snd (validate_all_v1 ks s)))
     = map (\<lambda>g. g\<lparr>has_error := False\<rparr>) (radio_groups s)"
proof (induction ks arbitrary: s)
  case Nil
  then show ?case by simp
next
  case (Cons k ks)
  obtain ok s1 where v: "validateStep_v1 k s = (ok, s1)" by (cases "validateStep_v1 k s")
  then have s1: "s1 = snd (validateStep_v1 k s)" by simp
  have keep: "elements s1 = elements s" "data_steps s1 = data_steps s"
    "currentStep s1 = currentStep s" "submitted s1 = submitted s"
    "submitBtn_text s1 = submitBtn_text s"
    "map (\<lambda>g. g\<lparr>has_error := False\<rparr>) (radio_groups s1)
       = map (\<lambda>g. g\<lparr>has_error := False\<rparr>) (radio_groups s)"
    unfolding s1 by (simp_all add: validateStep_v1_groups)
  show ?case
  proof (cases ok)
    case True
    with v have "validate_all_v1 (k # ks) s = validate_all_v1 ks s1" by simp
    with Cons.IH [of s1] keep show ?thesis by simp
  next
    case False
    with v have "validate_all_v1 (k # ks) s = (Some k, s1)" by simp
    with keep show ?thesis by simp
  qed
qed

lemma validate_all_v1_first:
  "fst (validate_all_v1 ks s) = find (\<lambda>k. \<not> fst (validateStep_v1 k s)) ks"
proof (induction ks arbitrary: s)
  case Nil
  then show ?case by simp
next
  case (Cons k ks)
  obtain ok s1 where v: "validateStep_v1 k s = (ok, s1)" by (cases "validateStep_v1 k s")
  then have s1: "s1 = snd (validateStep_v1 k s)" by simp
  have same: "fst (validateStep_v1 j s1) = fst (validateStep_v1 j s)" for j
    unfolding s1 by (rule validateStep_v1_same_inputs) (simp_all add: validateStep_v1_groups)
  show ?case
  proof (cases ok)
    case True
    with v have "fst (validate_all_v1 (k # ks) s) = fst (validate_all_v1 ks s1)" by simp
    also have "\<dots> = find (\<lambda>k. \<not> fst (validateStep_v1 k s)) ks"
      by (simp add: Cons.IH same)
    finally show ?thesis using v True by simp
  next
    case False
    with v show ?thesis by simp
  qed
qed



lemma find_upto_none:
  "(\<forall>k. i \<le> k \<and> k \<le> n \<longrightarrow> \<not> P k) \<Longrightarrow> find P [i..n] = None"
  by (simp add: find_None_iff)

subsection \<open>The submit listeners\<close>

lemma goToStep_frame:
  "data_steps (snd (goToStep b n s)) = data_steps s \<and>
   elements (snd (goToStep b n s)) = elements s \<and>
   submitted (snd (goToStep b n s)) = submitted s"
proof -
  obtain ok s1 where v: "validateStep (currentStep s) s = (ok, s1)"
    by (cases "validateStep (currentStep s) s")
  then have s1: "s1 = snd (validateStep (currentStep s) s)" by simp
  obtain r s2 where f: "validateFinancialFields b s1 = (r, s2)"
    by (cases "validateFinancialFields b s1")
  then have s2: "s2 = snd (validateFinancialFields b s1)" by simp
  have keep: "data_steps s1 = data_steps s" "elements s1 = elements s" "submitted s1 = submitted s"
    "data_steps s2 = data_steps s" "elements s2 = elements s" "submitted s2 = submitted s"
    unfolding s2 by (simp_all add: s1)
  show ?thesis
    using v f keep by (cases r; cases ok) (auto simp: goToStep_def split: bool.splits)
qed










subsection \<open>The sample pages\<close>

lemma wizard_page_steps:
  "fst (validateStep k (wizard_page v c)) = (1 \<le> k \<and> k \<le> 5 \<and> (k = 1 \<longrightarrow> \<not> blank v))"
  "fst (validateStep_v1 k (wizard_page v c)) = (1 \<le> k \<and> k \<le> 5 \<and> (k = 1 \<longrightarrow> \<not> blank v))"
  by (auto simp: validateStep_verdict validateStep_v1_verdict wizard_page_def page_def
      text_input_def totalSteps_def requiredEls_def
      invalid_message_def invalid_message_v1_def hidden_def closest_conditional_def Let_def)





lemma sample_pages [simp]:
  "totalSteps (wizard_page v c) = 5" "currentStep (wizard_page v c) = c"
  "submitted (wizard_page v c) = False"
  "totalSteps (two_empty_page c) = 5" "currentStep (two_empty_page c) = c"
  by (simp_all add: wizard_page_def two_empty_page_def page_def totalSteps_def)

lemma sample_name: "\<not> blank ''Jane''" "blank []"
  by (simp_all add: blank_def js_space_def)







subsection \<open>The current step stays in range\<close>

lemma target_range: "1 \<le> target k \<and> target k \<le> 5"
  by (cases k) simp_all

lemma goToStep_v1_data_steps: "data_steps (goToStep_v1 n s) = data_steps s"
proof (cases "validateStep_v1 (currentStep s) s")
  case (Pair ok s1)
  then have "data_steps s1 = data_steps s"
    using validateStep_v1_frame(2) [of "currentStep s" s] by simp
  with Pair show ?thesis
    by (auto simp: goToStep_v1_def split: bool.splits)
qed

lemma goToStep_v0_data_steps: "data_steps (snd (goToStep_v0 n s)) = data_steps s"
proof (cases "validateStep_v0 (currentStep s) s")
  case (Pair r s1)
  then have "data_steps s1 = data_steps s"
    using validateStep_v0_frame(2) [of "currentStep s" s] by simp
  with Pair show ?thesis
    by (cases r) (auto simp: goToStep_v0_def split: bool.splits)
qed

lemma goToStep_lands:
  "currentStep (snd (goToStep b n s)) = n \<or>
   currentStep (snd (goToStep b n s)) = currentStep s"
  by (simp add: goToStep_currentStep)

lemma goToStep_v1_lands:
  "currentStep (goToStep_v1 n s) = n \<or> currentStep (goToStep_v1 n s) = currentStep s"
  by (simp add: goToStep_v1_currentStep)

lemma goToStep_v0_lands:
  "currentStep (snd (goToStep_v0 n s)) = n \<or>
   currentStep (snd (goToStep_v0 n s)) = currentStep s"
  by (simp add: goToStep_v0_currentStep)

lemma submit_lands:
  "data_steps (snd (submit b s)) = data_steps s"
  "currentStep (snd (submit b s)) = currentStep s \<or>
   (1 \<le> currentStep (snd (submit b s)) \<and> currentStep (snd (submit b s)) \<le> totalSteps s)"
proof -
  obtain ko s1 where va: "validate_all [1..totalSteps s] s = (ko, s1)"
    by (cases "validate_all [1..totalSteps s] s")
  then have s1: "s1 = snd (validate_all [1..totalSteps s] s)"
    and ko: "ko = fst (validate_all [1..totalSteps s] s)" by simp_all
  have keep: "currentStep s1 = currentStep s" "data_steps s1 = data_steps s"
    using validate_all_inputs [of "[1..totalSteps s]" s] by (simp_all add: s1)
  show "data_steps (snd (submit b s)) = data_steps s"
  proof (cases ko)
    case None
    with va keep show ?thesis by (simp add: submit_def)
  next
    case (Some k)
    obtain r s2 where g: "goToStep b k s1 = (r, s2)" by (cases "goToStep b k s1")
    then have "data_steps s2 = data_steps s"
      using goToStep_frame [of b k s1] keep by simp
    with va Some g show ?thesis
      by (cases r) (simp_all add: submit_def and_then_def)
  qed
  show "currentStep (snd (submit b s)) = currentStep s \<or>
   (1 \<le> currentStep (snd (submit b s)) \<and> currentStep (snd (submit b s)) \<le> totalSteps s)"
  proof (cases ko)
    case None
    with va keep show ?thesis by (simp add: submit_def)
  next
    case (Some k)
    then have "find (\<lambda>k. \<not> fst (validateStep k s)) [1..totalSteps s] = Some k"
      using ko by (simp add: validate_all_first)
    then have k: "1 \<le> k" "k \<le> totalSteps s"
      using find_upto_first [of "\<lambda>k. \<not> fst (validateStep k s)" 1 "totalSteps s" k] by simp_all
    obtain r s2 where g: "goToStep b k s1 = (r, s2)" by (cases "goToStep b k s1")
    then have "currentStep s2 = k \<or> currentStep s2 = currentStep s"
      using goToStep_lands [of b k s1] keep by simp
    with va Some g k show ?thesis
      by (cases r) (auto simp: submit_def and_then_def)
  qed
qed

lemma submit_v1_lands:
  "data_steps (submit_v1 s) = data_steps s"
  "currentStep (submit_v1 s) = currentStep s \<or>
   (1 \<le> currentStep (submit_v1 s) \<and> currentStep (submit_v1 s) \<le> totalSteps s)"
proof -
  obtain ok s0 where v: "validateStep_v1 (currentStep s) s = (ok, s0)"
    by (cases "validateStep_v1 (currentStep s) s")
  then have s0: "s0 = snd (validateStep_v1 (currentStep s) s)" by simp
  have keep0: "currentStep s0 = currentStep s" "data_steps s0 = data_steps s"
    by (simp_all add: s0)
  then have n0: "totalSteps s0 = totalSteps s" by (simp add: totalSteps_def)
  obtain ko s1 where va: "validate_all_v1 [1..totalSteps s0] s0 = (ko, s1)"
    by (cases "validate_all_v1 [1..totalSteps s0] s0")
  then have s1: "s1 = snd (validate_all_v1 [1..totalSteps s0] s0)"
    and ko: "ko = fst (validate_all_v1 [1..totalSteps s0] s0)" by simp_all
  have keep: "currentStep s1 = currentStep s" "data_steps s1 = data_steps s"
    using validate_all_v1_inputs [of "[1..totalSteps s0]" s0] keep0 by (simp_all add: s1)
  have range: "1 \<le> k \<and> k \<le> totalSteps s" if "ko = Some k" for k
  proof -
    from that have "find (\<lambda>k. \<not> fst (validateStep_v1 k s0)) [1..totalSteps s0] = Some k"
      using ko by (simp add: validate_all_v1_first)
    then show ?thesis
      using find_upto_first [of "\<lambda>k. \<not> fst (validateStep_v1 k s0)" 1 "totalSteps s0" k]
      by (simp add: n0)
  qed
  show "data_steps (submit_v1 s) = data_steps s"
    using v va keep keep0
    by (cases ok; cases ko) (simp_all add: submit_v1_def goToStep_v1_data_steps)
  show "currentStep (submit_v1 s) = currentStep s \<or>
   (1 \<le> currentStep (submit_v1 s) \<and> currentStep (submit_v1 s) \<le> totalSteps s)"
  proof (cases ok)
    case False
    with v keep0 show ?thesis by (simp add: submit_v1_def)
  next
    case True
    show ?thesis
    proof (cases ko)
      case None
      with v va True keep show ?thesis by (simp add: submit_v1_def)
    next
      case (Some k)
      with v va True range [of k] goToStep_v1_lands [of k s1] keep show ?thesis
        by (auto simp: submit_v1_def)
    qed
  qed
qed

lemma nav_click_v1_lands:
  "data_steps (snd (nav_click_v1 b k s)) = data_steps s"
  "currentStep (snd (nav_click_v1 b k s)) = currentStep s \<or>
   (1 \<le> currentStep (snd (nav_click_v1 b k s)) \<and> currentStep (snd (nav_click_v1 b k s)) \<le> 5)"
proof -
  obtain ok s1 where v: "validateStep_v1 2 s = (ok, s1)" by (cases "validateStep_v1 2 s")
  then have s1: "s1 = snd (validateStep_v1 2 s)" by simp
  obtain r s2 where f: "validateFinancialFields_v1 b s1 = (r, s2)"
    by (cases "validateFinancialFields_v1 b s1")
  then have s2: "s2 = snd (validateFinancialFields_v1 b s1)" by simp
  have keep: "currentStep s1 = currentStep s" "data_steps s1 = data_steps s"
    "currentStep s2 = currentStep s" "data_steps s2 = data_steps s"
    unfolding s2 by (simp_all add: s1)
  consider (other) "k \<noteq> ToStep3" "snd (nav_click_v1 b k s) = goToStep_v1 (target k) s"
    | (stays1) "snd (nav_click_v1 b k s) = s1"
    | (stays2) "snd (nav_click_v1 b k s) = s2"
    | (moves) "snd (nav_click_v1 b k s) = goToStep_v1 3 s2"
  proof (cases "k = ToStep3")
    case False
    then have "snd (nav_click_v1 b k s) = goToStep_v1 (target k) s"
      by (simp add: nav_click_v1_def)
    with False show ?thesis by (rule other)
  next
    case True
    show ?thesis
    proof (cases ok)
      case False
      with True v have "snd (nav_click_v1 b k s) = s1" by (simp add: nav_click_v1_def)
      then show ?thesis by (rule stays1)
    next
      case ok: True
      show ?thesis
      proof (cases r)
        case Throw
        with True ok v f have "snd (nav_click_v1 b k s) = s2" by (simp add: nav_click_v1_def)
        then show ?thesis by (rule stays2)
      next
        case (Return x)
        show ?thesis
        proof (cases x)
          case False
          with Return True ok v f have "snd (nav_click_v1 b k s) = s2"
            by (simp add: nav_click_v1_def)
          then show ?thesis by (rule stays2)
        next
          case x: True
          with Return True ok v f have "snd (nav_click_v1 b k s) = goToStep_v1 3 s2"
            by (simp add: nav_click_v1_def)
          then show ?thesis by (rule moves)
        qed
      qed
    qed
  qed
  note shape = this
  show "data_steps (snd (nav_click_v1 b k s)) = data_steps s"
    using shape by cases (simp_all add: keep goToStep_v1_data_steps)
  show "currentStep (snd (nav_click_v1 b k s)) = currentStep s \<or>
   (1 \<le> currentStep (snd (nav_click_v1 b k s)) \<and> currentStep (snd (nav_click_v1 b k s)) \<le> 5)"
    using shape
  proof cases
    case other
    with goToStep_v1_lands [of "target k" s] target_range [of k] show ?thesis by auto
  next
    case stays1
    then show ?thesis by (simp add: keep)
  next
    case stays2
    then show ?thesis by (simp add: keep)
  next
    case moves
    with goToStep_v1_lands [of 3 s2] show ?thesis by (auto simp: keep)
  qed
qed

lemma in_range_step:
  assumes "5 \<le> totalSteps s \<and> 1 \<le> currentStep s \<and> currentStep s \<le> totalSteps s"
    and "data_steps s' = data_steps s"
    and "currentStep s' = currentStep s \<or> (1 \<le> currentStep s' \<and> currentStep s' \<le> totalSteps s)"
  shows "5 \<le> totalSteps s' \<and> 1 \<le> currentStep s' \<and> currentStep s' \<le> totalSteps s'"
  using assms by (auto simp: totalSteps_def)

lemma reachable_in_range:
  "reachable s \<Longrightarrow> 5 \<le> totalSteps s \<and> 1 \<le> currentStep s \<and> currentStep s \<le> totalSteps s"
proof (induction rule: reachable.induct)
  case (start s)
  then show ?case by (simp add: loaded_def)
next
  case (elsewhere s s')
  from elsewhere.hyps(2) have "currentStep s' = currentStep s \<or>
      (1 \<le> currentStep s' \<and> currentStep s' \<le> totalSteps s)" by simp
  with elsewhere.IH elsewhere.hyps(3) show ?case by (rule in_range_step)
next
  case (click s b k)
  have d: "data_steps (snd (nav_click b k s)) = data_steps s"
    by (simp add: nav_click_def goToStep_frame)
  have "currentStep (snd (nav_click b k s)) = currentStep s \<or>
      (1 \<le> currentStep (snd (nav_click b k s)) \<and> currentStep (snd (nav_click b k s)) \<le> totalSteps s)"
    using goToStep_lands [of b "target k" s] target_range [of k] click.IH
    by (auto simp: nav_click_def)
  with click.IH d show ?case by (rule in_range_step)
next
  case (submitting s b)
  from submitting.IH submit_lands show ?case by (rule in_range_step)
qed

lemma reachable_v1_in_range:
  "reachable_v1 s \<Longrightarrow> 5 \<le> totalSteps s \<and> 1 \<le> currentStep s \<and> currentStep s \<le> totalSteps s"
proof (induction rule: reachable_v1.induct)
  case (start_v1 s)
  then show ?case by (simp add: loaded_def)
next
  case (elsewhere_v1 s s')
  from elsewhere_v1.hyps(2) have "currentStep s' = currentStep s \<or>
      (1 \<le> currentStep s' \<and> currentStep s' \<le> totalSteps s)" by simp
  with elsewhere_v1.IH elsewhere_v1.hyps(3) show ?case by (rule in_range_step)
next
  case (click_v1 s b k)
  have "currentStep (snd (nav_click_v1 b k s)) = currentStep s \<or>
      (1 \<le> currentStep (snd (nav_click_v1 b k s)) \<and>
       currentStep (snd (nav_click_v1 b k s)) \<le> totalSteps s)"
    using nav_click_v1_lands(2) [of b k s] click_v1.IH by auto
  with click_v1.IH nav_click_v1_lands(1) show ?case by (rule in_range_step)
next
  case (enter_v1 s activeTag)
  have d: "data_steps (enter_key_v1 activeTag s) = data_steps s"
    by (simp add: enter_key_v1_def goToStep_v1_data_steps)
  have "currentStep (enter_key_v1 activeTag s) = currentStep s \<or>
      (1 \<le> currentStep (enter_key_v1 activeTag s) \<and>
       currentStep (enter_key_v1 activeTag s) \<le> totalSteps s)"
    using goToStep_v1_lands [of "currentStep s + 1" s] enter_v1.IH
    by (auto simp: enter_key_v1_def)
  with enter_v1.IH d show ?case by (rule in_range_step)
next
  case (submitting_v1 s)
  from submitting_v1.IH submit_v1_lands show ?case by (rule in_range_step)
qed

lemma reachable_v0_in_range:
  "reachable_v0 s \<Longrightarrow> 5 \<le> totalSteps s \<and> 1 \<le> currentStep s \<and> currentStep s \<le> totalSteps s"
proof (induction rule: reachable_v0.induct)
  case (start_v0 s)
  then show ?case by (simp add: loaded_def)
next
  case (elsewhere_v0 s s')
  from elsewhere_v0.hyps(2) have "currentStep s' = currentStep s \<or>
      (1 \<le> currentStep s' \<and> currentStep s' \<le> totalSteps s)" by simp
  with elsewhere_v0.IH elsewhere_v0.hyps(3) show ?case by (rule in_range_step)
next
  case (click_v0 s k)
  have d: "data_steps (snd (nav_click_v0 k s)) = data_steps s"
    by (simp add: nav_click_v0_def goToStep_v0_data_steps)
  have "currentStep (snd (nav_click_v0 k s)) = currentStep s \<or>
      (1 \<le> currentStep (snd (nav_click_v0 k s)) \<and>
       currentStep (snd (nav_click_v0 k s)) \<le> totalSteps s)"
    using goToStep_v0_lands [of "target k" s] target_range [of k] click_v0.IH
    by (auto simp: nav_click_v0_def)
  with click_v0.IH d show ?case by (rule in_range_step)
next
  case (enter_v0 s)
  have d: "data_steps (snd (enter_key_v0 s)) = data_steps s"
    by (simp add: enter_key_v0_def goToStep_v0_data_steps)
  have "currentStep (snd (enter_key_v0 s)) = currentStep s \<or>
      (1 \<le> currentStep (snd (enter_key_v0 s)) \<and>
       currentStep (snd (enter_key_v0 s)) \<le> totalSteps s)"
    using goToStep_v0_lands [of "currentStep s + 1" s] enter_v0.IH
    by (auto simp: enter_key_v0_def)
  with enter_v0.IH d show ?case by (rule in_range_step)
next
  case (routed_v0 s k)
  have "currentStep (snd (goToStep_v0 k s)) = currentStep s \<or>
      (1 \<le> currentStep (snd (goToStep_v0 k s)) \<and>
       currentStep (snd (goToStep_v0 k s)) \<le> totalSteps s)"
    using goToStep_v0_lands [of k s] routed_v0.hyps by auto
  with routed_v0.IH goToStep_v0_data_steps show ?case by (rule in_range_step)
qed


text \<open>
  C9. On a page loaded with its five sections, under each of the three scripts
  (\<^verbatim>\<open>src/staticfiles/app.js\<close>, \<^verbatim>\<open>src/unnamed/part_000\<close>, \<^verbatim>\<open>src/app.js\<close>), every state that the
  event listeners can reach has \<open>1 \<le> currentStep \<le> totalSteps\<close>: the buttons pass
  \<^verbatim>\<open>goToStep\<close> a constant from 1 to 5, the Enter key passes \<open>currentStep + 1\<close> only when
  \<open>currentStep < totalSteps\<close>, the \<^verbatim>\<open>submit\<close> listeners pass a step of their loop, and
  \<^verbatim>\<open>goToStep\<close> either assigns its argument or leaves \<open>currentStep\<close> as it is.
\<close>

theorem currentStep_stays_in_range:
  "(reachable s \<longrightarrow> 1 \<le> currentStep s \<and> currentStep s \<le> totalSteps s) \<and>
   (reachable_v1 s \<longrightarrow> 1 \<le> currentStep s \<and> currentStep s \<le> totalSteps s) \<and>
   (reachable_v0 s \<longrightarrow> 1 \<le> currentStep s \<and> currentStep s \<le> totalSteps s)"
  using reachable_in_range [of s] reachable_v1_in_range [of s] reachable_v0_in_range [of s]
  by blast

theorem currentStep_range_witness:
  "reachable (snd (nav_click accepting ToStep2 (wizard_page ''Jane'' 1))) \<and>
   currentStep (snd (nav_click accepting ToStep2 (wizard_page ''Jane'' 1))) = 2 \<and>
   1 \<le> currentStep (snd (nav_click accepting ToStep2 (wizard_page ''Jane'' 1))) \<and>
   currentStep (snd (nav_click accepting ToStep2 (wizard_page ''Jane'' 1)))
     \<le> totalSteps (snd (nav_click accepting ToStep2 (wizard_page ''Jane'' 1))) \<and>
   reachable_v1 (enter_key_v1 ''INPUT'' (wizard_page ''Jane'' 1)) \<and>
   1 \<le> currentStep (enter_key_v1 ''INPUT'' (wizard_page ''Jane'' 1)) \<and>
   currentStep (enter_key_v1 ''INPUT'' (wizard_page ''Jane'' 1))
     \<le> totalSteps (enter_key_v1 ''INPUT'' (wizard_page ''Jane'' 1)) \<and>
   reachable_v0 (snd (enter_key_v0 (wizard_page ''Jane'' 1))) \<and>
   1 \<le> currentStep (snd (enter_key_v0 (wizard_page ''Jane'' 1))) \<and>
   currentStep (snd (enter_key_v0 (wizard_page ''Jane'' 1)))
     \<le> totalSteps (snd (enter_key_v0 (wizard_page ''Jane'' 1)))"
proof -
  have a: "reachable (snd (nav_click accepting ToStep2 (wizard_page ''Jane'' 1)))"
    by (rule reachable.click, rule reachable.start) (simp add: loaded_def)
  have b: "reachable_v1 (enter_key_v1 ''INPUT'' (wizard_page ''Jane'' 1))"
    by (rule reachable_v1.enter_v1, rule reachable_v1.start_v1) (simp add: loaded_def)
  have c: "reachable_v0 (snd (enter_key_v0 (wizard_page ''Jane'' 1)))"
    by (rule reachable_v0.enter_v0, rule reachable_v0.start_v0) (simp add: loaded_def)
  have d: "currentStep (snd (nav_click accepting ToStep2 (wizard_page ''Jane'' 1))) = 2"
    by (simp add: nav_click_def goToStep_currentStep wizard_page_steps sample_name)
  show ?thesis
    using currentStep_stays_in_range [of "snd (nav_click accepting ToStep2 (wizard_page ''Jane'' 1))"]
      currentStep_stays_in_range [of "enter_key_v1 ''INPUT'' (wizard_page ''Jane'' 1)"]
      currentStep_stays_in_range [of "snd (enter_key_v0 (wizard_page ''Jane'' 1))"]
    by (simp add: a b c d)
qed
end
